theory Spec2Isabelle
  imports Main "HOL-Library.Word" "HOL-Library.Signed_Division" "HOL-Library.Multiset"
begin

unbundle bit_operations_syntax

section \<open>Machine integers of the C sources\<close>

text \<open>
  The engine is written in C. A C \<open>int\<close> is modelled as an \<open>int\<close> whose arithmetic
  results are reduced to 32 bits in two's complement by \<open>s32\<close> (signed overflow is undefined in
  C; the reduction is what the usual targets compute), a \<open>Score\<close> (\<open>int16_t\<close>) as an
  \<open>int\<close> reduced by \<open>s16\<close> where a wider value is stored into it, and C's \<open>/\<close> as the
  truncating \<open>sdiv\<close>. A \<open>Bitboard\<close> and a Zobrist key are 64-bit words, a \<open>Move\<close>
  is a 32-bit word.
\<close>

type_synonym Score = int
type_synonym Bitboard = "64 word"
type_synonym Move = "32 word"

definition s32 :: "int \<Rightarrow> int" where
  "s32 x = (x + 2147483648) mod 4294967296 - 2147483648"

definition s16 :: "int \<Rightarrow> int" where
  "s16 x = (x + 32768) mod 65536 - 32768"

definition is_int32 :: "int \<Rightarrow> bool" where
  "is_int32 x \<longleftrightarrow> - 2147483648 \<le> x \<and> x \<le> 2147483647"

datatype error = DivisionByZero | IndexOutOfBounds | ShiftOutOfRange | OutOfFuel

definition WHITE :: nat where [simp]: "WHITE = 0"
definition BLACK :: nat where [simp]: "BLACK = 1"

definition MOVE_NONE :: Move where [simp]: "MOVE_NONE = 0"

section \<open>Time manager (uci.c)\<close>

definition TM_PHASE_OPENING :: int where [simp]: "TM_PHASE_OPENING = 0"
definition TM_PHASE_MIDDLE :: int where [simp]: "TM_PHASE_MIDDLE = 1"
definition TM_PHASE_ENDGAME :: int where [simp]: "TM_PHASE_ENDGAME = 2"

record TimeControl =
  tc_wtime :: int
  tc_btime :: int
  tc_winc :: int
  tc_binc :: int
  tc_movestogo :: int
  tc_movetime :: int
  tc_depth :: int
  tc_infinite :: int
  tc_ponder :: int
  tc_ponder_move :: Move

record TimeAllocation =
  allocated_time :: int
  max_time :: int
  optimal_time :: int
  panic_time :: int

text \<open>
  \<open>get_game_phase_for_time\<close> classifies the value of \<open>phase_eval(pos)\<close>, a function of the
  evaluator; the model takes that value as its argument.
\<close>

definition get_game_phase_for_time :: "int \<Rightarrow> int" where
  "get_game_phase_for_time phase =
     (if phase > 200 then TM_PHASE_OPENING
      else if phase > 80 then TM_PHASE_MIDDLE
      else TM_PHASE_ENDGAME)"

text \<open>The estimate of the moves remaining when \<open>movestogo\<close> is 0 (the first \<open>switch\<close>).\<close>

definition estimate_moves_to_go :: "int \<Rightarrow> int \<Rightarrow> int" where
  "estimate_moves_to_go movestogo game_phase =
     (if movestogo = 0 then
        (if game_phase = TM_PHASE_OPENING then 35
         else if game_phase = TM_PHASE_MIDDLE then 25
         else if game_phase = TM_PHASE_ENDGAME then 15
         else 25)
      else movestogo)"

text \<open>The phase scaling of the base time (the second \<open>switch\<close>).\<close>

definition phase_adjust :: "int \<Rightarrow> int \<Rightarrow> int" where
  "phase_adjust game_phase base_time =
     (if game_phase = TM_PHASE_OPENING then s32 (base_time * 80) sdiv 100
      else if game_phase = TM_PHASE_MIDDLE then base_time
      else if game_phase = TM_PHASE_ENDGAME then s32 (base_time * 120) sdiv 100
      else base_time)"

text \<open>The scaling by the score of the last search.\<close>

definition score_adjust :: "int \<Rightarrow> int \<Rightarrow> int" where
  "score_adjust last_score base_time =
     (if last_score \<noteq> 0 then
        (let abs_score = (if last_score > 0 then last_score else s32 (- last_score)) in
         if abs_score > 300 then
           (if last_score > 0 then s32 (base_time * 70) sdiv 100
            else s32 (base_time * 140) sdiv 100)
         else if abs_score > 100 then
           (if last_score > 0 then s32 (base_time * 85) sdiv 100
            else s32 (base_time * 115) sdiv 100)
         else base_time)
      else base_time)"

text \<open>Emergency mode and sudden death, in the order of the source.\<close>

definition emergency_adjust :: "int \<Rightarrow> int \<Rightarrow> int \<Rightarrow> int \<Rightarrow> int" where
  "emergency_adjust remaining_time increment movestogo base_time =
     (let emergency_threshold = (if increment > 0 then s32 (30 * increment) else 30000);
          b1 = (if remaining_time < emergency_threshold then
                  (if increment > 0 then s32 (remaining_time sdiv 15 + increment sdiv 2)
                   else remaining_time sdiv 10)
                else base_time)
      in if increment = 0 \<and> movestogo = 0 then remaining_time sdiv 40 else b1)"

text \<open>
  The bounds computed from the base time: optimal, maximum, allocated and panic time, then the
  three safety bounds in the order of the source.
\<close>

definition time_bounds :: "int \<Rightarrow> int \<Rightarrow> TimeAllocation" where
  "time_bounds remaining_time base_time =
     (let max0 = s32 (base_time * 3);
          max1 = (if max0 > remaining_time sdiv 4 then remaining_time sdiv 4 else max0);
          panic0 = base_time sdiv 3;
          panic1 = (if panic0 < 100 then 100 else panic0);
          alloc1 = (if base_time > remaining_time sdiv 2 then remaining_time sdiv 2
                    else base_time);
          alloc2 = (if alloc1 < 50 then 50 else alloc1);
          max2 = (if max1 > remaining_time - 50 then remaining_time - 50 else max1);
          max3 = (if max2 < alloc2 then alloc2 else max2)
      in \<lparr> allocated_time = alloc2, max_time = max3,
           optimal_time = base_time, panic_time = panic1 \<rparr>)"

text \<open>
  \<open>allocate_time(tc, pos, last_score)\<close>. Of the position it reads the side to move and the
  evaluator's phase. The division \<open>remaining_time / (moves_to_go + 3)\<close> has no guard in the
  source; a zero divisor is the error \<open>DivisionByZero\<close>.
\<close>

definition allocate_time :: "TimeControl \<Rightarrow> nat \<Rightarrow> int \<Rightarrow> int \<Rightarrow> error + TimeAllocation" where
  "allocate_time tc to_move phase last_score =
     (if tc_movetime tc > 0 then
        Inr \<lparr> allocated_time = tc_movetime tc, max_time = tc_movetime tc,
              optimal_time = tc_movetime tc, panic_time = tc_movetime tc sdiv 2 \<rparr>
      else if tc_infinite tc \<noteq> 0 then
        Inr \<lparr> allocated_time = 86400000, max_time = 86400000,
              optimal_time = 86400000, panic_time = 86400000 \<rparr>
      else
        (let remaining_time = (if to_move = WHITE then tc_wtime tc else tc_btime tc);
             increment = (if to_move = WHITE then tc_winc tc else tc_binc tc)
         in if remaining_time \<le> 0 then
              Inr \<lparr> allocated_time = 5000, max_time = 10000,
                    optimal_time = 5000, panic_time = 2000 \<rparr>
            else
              (let game_phase = get_game_phase_for_time phase;
                   moves_to_go = estimate_moves_to_go (tc_movestogo tc) game_phase;
                   divisor = s32 (moves_to_go + 3)
               in if divisor = 0 then Inl DivisionByZero
                  else
                    (let base0 = remaining_time sdiv divisor;
                         base1 = (if increment > 0
                                  then s32 (base0 + s32 (increment * 3) sdiv 4) else base0);
                         base2 = phase_adjust game_phase base1;
                         base3 = score_adjust last_score base2;
                         base4 = emergency_adjust remaining_time increment (tc_movestogo tc) base3
                     in Inr (time_bounds remaining_time base4)))))"

text \<open>The remaining clock of the side to move, as \<open>allocate_time\<close> selects it.\<close>

definition remaining_clock :: "TimeControl \<Rightarrow> nat \<Rightarrow> int" where
  "remaining_clock tc to_move = (if to_move = WHITE then tc_wtime tc else tc_btime tc)"

section \<open>Worker pool: the vote of threads_start_search (threads.c)\<close>

text \<open>
  After the main worker has searched and the helpers are joined, \<open>threads_start_search\<close>
  reads each worker's \<open>best_move\<close> and \<open>best_score\<close>. The model is that final loop:
  the pool is the main worker's result followed by the helpers' results in index order.
\<close>

record Thread =
  th_best_move :: Move
  th_best_score :: Score

fun vote_helpers :: "Move \<times> Score \<Rightarrow> Thread list \<Rightarrow> Move \<times> Score" where
  "vote_helpers (best_move, best_score) [] = (best_move, best_score)"
| "vote_helpers (best_move, best_score) (t # ts) =
     (if th_best_move t \<noteq> MOVE_NONE \<and> th_best_score t > best_score + 50
      then vote_helpers (th_best_move t, th_best_score t) ts
      else vote_helpers (best_move, best_score) ts)"

definition threads_start_search :: "Thread \<Rightarrow> Thread list \<Rightarrow> Move" where
  "threads_start_search main helpers =
     fst (vote_helpers (th_best_move main, th_best_score main) helpers)"

section \<open>Transposition table (tt.c)\<close>

definition TT_FLAG_NONE :: int where [simp]: "TT_FLAG_NONE = 0"
definition TT_FLAG_LOWER :: int where [simp]: "TT_FLAG_LOWER = 1"
definition TT_FLAG_UPPER :: int where [simp]: "TT_FLAG_UPPER = 2"
definition TT_FLAG_EXACT :: int where [simp]: "TT_FLAG_EXACT = 3"

definition TT_CLUSTER_SIZE :: nat where [simp]: "TT_CLUSTER_SIZE = 4"

text \<open>
  A \<open>TTEntry\<close>: \<open>depth\<close> is an \<open>int16_t\<close>, \<open>flag\<close> and \<open>generation\<close> are
  \<open>uint8_t\<close>; a store converts with \<open>s16\<close> and \<open>mod 256\<close>. A cluster is its array of
  four entries; the table is its array of clusters (\<open>None\<close> is the null pointer), their number,
  the count of used slots and the current generation.
\<close>

record TTEntry =
  e_key :: "64 word"
  e_score :: Score
  e_best_move :: Move
  e_depth :: int
  e_flag :: int
  e_generation :: int

type_synonym TTCluster = "TTEntry list"

record TranspositionTable =
  tt_clusters :: "TTCluster list option"
  tt_num_clusters :: "64 word"
  tt_count :: "64 word"
  tt_generation :: int

definition replacement_value :: "TTEntry \<Rightarrow> int \<Rightarrow> int" where
  "replacement_value entry current_gen =
     (if e_key entry = 0 then - 1000
      else
        (let value0 = e_depth entry * 4;
             value1 = (if e_flag entry = TT_FLAG_EXACT then value0 + 16 else value0);
             age0 = current_gen - e_generation entry;
             age = (if age0 < 0 then age0 + 256 else age0)
         in value1 - age * 2))"

text \<open>
  The first pass over the cluster, from index \<open>i\<close>: \<open>Inl i\<close> when the entry at \<open>i\<close>
  holds the key (the loop returns there), else \<open>Inr\<close> of the tracked worst entry (its index,
  \<open>None\<close> for the null pointer) and its value.
\<close>

fun first_pass :: "TTEntry list \<Rightarrow> 64 word \<Rightarrow> int \<Rightarrow> nat \<Rightarrow> nat option \<times> int
                    \<Rightarrow> nat + (nat option \<times> int)" where
  "first_pass [] key gen i acc = Inr acc"
| "first_pass (entry # rest) key gen i (replace_entry, replace_value_score) =
     (if e_key entry = key then Inl i
      else
        (let value = replacement_value entry gen in
         if value < replace_value_score
         then first_pass rest key gen (Suc i) (Some i, value)
         else first_pass rest key gen (Suc i) (replace_entry, replace_value_score)))"

text \<open>The second pass: the worst entry among those other than \<open>replace_entry\<close>.\<close>

fun second_pass :: "TTEntry list \<Rightarrow> int \<Rightarrow> nat \<Rightarrow> nat \<Rightarrow> nat option \<times> int
                     \<Rightarrow> nat option \<times> int" where
  "second_pass [] gen replace_entry i acc = acc"
| "second_pass (entry # rest) gen replace_entry i (second_worst, second_worst_value) =
     (if i = replace_entry
      then second_pass rest gen replace_entry (Suc i) (second_worst, second_worst_value)
      else
        (let value = replacement_value entry gen in
         if value < second_worst_value
         then second_pass rest gen replace_entry (Suc i) (Some i, value)
         else second_pass rest gen replace_entry (Suc i) (second_worst, second_worst_value)))"

text \<open>The six assignments that write an entry.\<close>

definition write_entry :: "64 word \<Rightarrow> Score \<Rightarrow> Move \<Rightarrow> int \<Rightarrow> int \<Rightarrow> int \<Rightarrow> TTEntry" where
  "write_entry key score best_move depth flag gen =
     \<lparr> e_key = key, e_score = s16 score, e_best_move = best_move,
       e_depth = s16 depth, e_flag = flag mod 256, e_generation = gen \<rparr>"

text \<open>
  The entry the second half of \<open>tt_store_with_move\<close> overwrites, given the worst entry of the
  first pass: the worst, or the second worst when the worst is a deep exact entry of the current
  generation and the incoming entry is not exact.
\<close>

definition choose_victim :: "TTEntry list \<Rightarrow> int \<Rightarrow> int \<Rightarrow> int \<Rightarrow> nat \<Rightarrow> nat" where
  "choose_victim cluster gen depth flag replace_entry =
     (let e = cluster ! replace_entry in
      if e_flag e = TT_FLAG_EXACT \<and> flag \<noteq> TT_FLAG_EXACT \<and>
         e_depth e > depth + 3 \<and> e_generation e = gen
      then (case fst (second_pass cluster gen replace_entry 0 (None, 1000000)) of
              Some second_worst \<Rightarrow> second_worst
            | None \<Rightarrow> replace_entry)
      else replace_entry)"

text \<open>
  \<open>tt_store_with_move\<close> on one cluster: the new cluster and whether an empty slot was filled
  (\<open>tt->count++\<close>).
\<close>

definition store_in_cluster :: "TTEntry list \<Rightarrow> int \<Rightarrow> 64 word \<Rightarrow> Score \<Rightarrow> Move \<Rightarrow> int \<Rightarrow> int
                                 \<Rightarrow> TTEntry list \<times> bool" where
  "store_in_cluster cluster gen key score best_move depth flag =
     (case first_pass cluster key gen 0 (None, 1000000) of
        Inl i \<Rightarrow>
          (let entry = cluster ! i in
           if depth \<ge> e_depth entry \<or> (flag = TT_FLAG_EXACT \<and> e_flag entry \<noteq> TT_FLAG_EXACT)
           then
             (let best_move' = (if best_move = MOVE_NONE \<and> e_best_move entry \<noteq> MOVE_NONE
                                then e_best_move entry else best_move)
              in (cluster[i := write_entry key score best_move' depth flag gen], False))
           else (cluster, False))
      | Inr (None, _) \<Rightarrow> (cluster, False)
      | Inr (Some replace_entry, _) \<Rightarrow>
          (let victim = choose_victim cluster gen depth flag replace_entry in
           (cluster[victim := write_entry key score best_move depth flag gen],
            e_key (cluster ! victim) = 0)))"

text \<open>The cluster a key selects: \<open>key & (tt->num_clusters - 1)\<close>.\<close>

definition cluster_index :: "TranspositionTable \<Rightarrow> 64 word \<Rightarrow> nat" where
  "cluster_index t key = unat (key AND (tt_num_clusters t - 1))"

text \<open>
  \<open>tt_store_with_move(tt, key, score, best_move, depth, flag)\<close>. A null table or a null cluster
  array returns at once. The cluster index is \<open>key & (num_clusters - 1)\<close>; an index outside
  the allocated array is the error \<open>IndexOutOfBounds\<close>.
\<close>

definition tt_store_with_move :: "TranspositionTable option \<Rightarrow> 64 word \<Rightarrow> Score \<Rightarrow> Move \<Rightarrow> int \<Rightarrow> int
                                   \<Rightarrow> error + TranspositionTable option" where
  "tt_store_with_move tt key score best_move depth flag =
     (case tt of
        None \<Rightarrow> Inr None
      | Some t \<Rightarrow>
          (case tt_clusters t of
             None \<Rightarrow> Inr (Some t)
           | Some clusters \<Rightarrow>
               (let index = cluster_index t key in
                if index \<ge> length clusters then Inl IndexOutOfBounds
                else
                  (let (cluster', filled) =
                         store_in_cluster (clusters ! index) (tt_generation t)
                           key score best_move depth flag
                   in Inr (Some (t\<lparr> tt_clusters := Some (clusters[index := cluster']),
                                     tt_count := (if filled then tt_count t + 1 else tt_count t) \<rparr>))))))"

definition tt_store :: "TranspositionTable option \<Rightarrow> 64 word \<Rightarrow> Score \<Rightarrow> int \<Rightarrow> int
                         \<Rightarrow> error + TranspositionTable option" where
  "tt_store tt key score depth flag = tt_store_with_move tt key score MOVE_NONE depth flag"

text \<open>
  What \<open>tt_create\<close> establishes and the stores keep: a power-of-two number of clusters, each of
  four entries with fields in the range of their C types.
\<close>

definition entry_ok :: "TTEntry \<Rightarrow> bool" where
  "entry_ok e \<longleftrightarrow> - 32768 \<le> e_depth e \<and> e_depth e \<le> 32767 \<and>
                 0 \<le> e_flag e \<and> e_flag e \<le> 255 \<and>
                 0 \<le> e_generation e \<and> e_generation e \<le> 255"

definition cluster_ok :: "TTEntry list \<Rightarrow> bool" where
  "cluster_ok c \<longleftrightarrow> length c = TT_CLUSTER_SIZE \<and> list_all entry_ok c"

text \<open>
  The words of the replacement policy. An entry is protected against an incoming entry when it
  is exact, of the current generation and deeper than the incoming depth by more than 3, and the
  incoming entry is not exact. The first worst entry of a cluster is the first of those with the
  least replacement value; the first worst except \<open>w0\<close> is taken over the other entries.
\<close>

definition protected_entry :: "TTEntry \<Rightarrow> int \<Rightarrow> int \<Rightarrow> int \<Rightarrow> bool" where
  "protected_entry e gen depth flag \<longleftrightarrow>
     e_flag e = TT_FLAG_EXACT \<and> flag \<noteq> TT_FLAG_EXACT \<and>
     e_depth e > depth + 3 \<and> e_generation e = gen"

definition first_worst :: "TTEntry list \<Rightarrow> int \<Rightarrow> nat \<Rightarrow> bool" where
  "first_worst c gen w \<longleftrightarrow>
     w < length c \<and>
     (\<forall>k<length c. replacement_value (c ! w) gen \<le> replacement_value (c ! k) gen) \<and>
     (\<forall>k<w. replacement_value (c ! w) gen < replacement_value (c ! k) gen)"

definition first_worst_except :: "TTEntry list \<Rightarrow> int \<Rightarrow> nat \<Rightarrow> nat \<Rightarrow> bool" where
  "first_worst_except c gen w0 v \<longleftrightarrow>
     v < length c \<and> v \<noteq> w0 \<and>
     (\<forall>k<length c. k \<noteq> w0 \<longrightarrow>
         replacement_value (c ! v) gen \<le> replacement_value (c ! k) gen) \<and>
     (\<forall>k<v. k \<noteq> w0 \<longrightarrow> replacement_value (c ! v) gen < replacement_value (c ! k) gen)"

text \<open>A table of one cluster whose four entries are exact, of depth 10 and of generation 1.\<close>

definition deep_exact_entry :: "64 word \<Rightarrow> TTEntry" where
  "deep_exact_entry key =
     \<lparr> e_key = key, e_score = 25, e_best_move = 7, e_depth = 10,
       e_flag = TT_FLAG_EXACT, e_generation = 1 \<rparr>"

definition full_exact_table :: TranspositionTable where
  "full_exact_table =
     \<lparr> tt_clusters = Some [[deep_exact_entry 1, deep_exact_entry 2,
                             deep_exact_entry 3, deep_exact_entry 4]],
       tt_num_clusters = 1, tt_count = 4, tt_generation = 1 \<rparr>"

section \<open>Bitboards (bitboard.h, magic.h, magic.c)\<close>

definition PAWN :: nat where [simp]: "PAWN = 0"
definition KNIGHT :: nat where [simp]: "KNIGHT = 1"
definition BISHOP :: nat where [simp]: "BISHOP = 2"
definition ROOK :: nat where [simp]: "ROOK = 3"
definition QUEEN :: nat where [simp]: "QUEEN = 4"
definition KING :: nat where [simp]: "KING = 5"

definition piece_types :: "nat list" where
  "piece_types = [0, 1, 2, 3, 4, 5]"

definition RANK_3 :: Bitboard where "RANK_3 = 0x0000000000FF0000"
definition RANK_6 :: Bitboard where "RANK_6 = 0x0000FF0000000000"
definition FILE_A :: Bitboard where "FILE_A = 0x0101010101010101"
definition FILE_H :: Bitboard where "FILE_H = 0x8080808080808080"

text \<open>\<open>1ULL << sq\<close>, \<open>SQ\<close>, \<open>SQ_FILE\<close> and \<open>SQ_RANK\<close>.\<close>

definition sq_bit :: "nat \<Rightarrow> Bitboard" where
  "sq_bit sq = push_bit sq 1"

definition SQ :: "nat \<Rightarrow> nat \<Rightarrow> nat" where
  "SQ file rank = rank * 8 + file"

definition SQ_FILE :: "nat \<Rightarrow> nat" where
  "SQ_FILE sq = sq mod 8"

definition SQ_RANK :: "nat \<Rightarrow> nat" where
  "SQ_RANK sq = sq div 8"

text \<open>
  \<open>LSB\<close> counts the trailing zeros of a bitboard that is not empty (every caller tests that
  first); \<open>BB_FOREACH\<close> visits the squares of a bitboard from the lowest, clearing the lowest
  bit with \<open>bb &= bb - 1\<close> after each.
\<close>

fun ctz :: "nat \<Rightarrow> Bitboard \<Rightarrow> nat" where
  "ctz 0 bb = 0"
| "ctz (Suc n) bb = (if bit bb 0 then 0 else Suc (ctz n (drop_bit 1 bb)))"

definition LSB :: "Bitboard \<Rightarrow> nat" where
  "LSB bb = ctz 64 bb"

function bb_squares :: "Bitboard \<Rightarrow> nat list" where
  "bb_squares bb = (if bb = 0 then [] else LSB bb # bb_squares (bb AND (bb - 1)))"
  by pat_completeness auto
termination
proof (relation "measure unat")
  fix bb :: Bitboard
  assume "bb \<noteq> 0"
  have "bb AND (bb - 1) \<le> bb - 1" by (rule word_and_le1)
  also have "bb - 1 < bb" using \<open>bb \<noteq> 0\<close> by (simp add: word_less_nat_alt unat_minus_one unat_gt_0)
  finally show "(bb AND (bb - 1), bb) \<in> measure unat" by (simp add: word_less_nat_alt)
qed simp

declare bb_squares.simps [simp del]

text \<open>
  One directional loop of \<open>get_rook_attacks\<close> and \<open>get_bishop_attacks\<close>: the squares of
  the ray are added in order up to and including the first occupied one.
\<close>

fun ray :: "Bitboard \<Rightarrow> nat list \<Rightarrow> Bitboard" where
  "ray occupied [] = 0"
| "ray occupied (s # rest) =
     (if occupied AND sq_bit s \<noteq> 0 then sq_bit s else sq_bit s OR ray occupied rest)"

definition get_rook_attacks :: "nat \<Rightarrow> Bitboard \<Rightarrow> Bitboard" where
  "get_rook_attacks sq occupied =
     (let rank = sq div 8; file = sq mod 8 in
        ray occupied (map (\<lambda>f. rank * 8 + f) [file + 1 ..< 8])
        OR ray occupied (map (\<lambda>f. rank * 8 + f) (rev [0 ..< file]))
        OR ray occupied (map (\<lambda>r. r * 8 + file) [rank + 1 ..< 8])
        OR ray occupied (map (\<lambda>r. r * 8 + file) (rev [0 ..< rank])))"

text \<open>The squares of a diagonal: \<open>n\<close> steps from (rank, file) by (dr, df), as integers.\<close>

definition diagonal :: "int \<Rightarrow> int \<Rightarrow> int \<Rightarrow> int \<Rightarrow> nat list" where
  "diagonal rank file dr df =
     map (\<lambda>k. nat ((rank + dr * int k) * 8 + (file + df * int k)))
       (filter (\<lambda>k. 0 \<le> rank + dr * int k \<and> rank + dr * int k < 8 \<and>
                     0 \<le> file + df * int k \<and> file + df * int k < 8) [1 ..< 8])"

definition get_bishop_attacks :: "nat \<Rightarrow> Bitboard \<Rightarrow> Bitboard" where
  "get_bishop_attacks sq occupied =
     (let rank = int (sq div 8); file = int (sq mod 8) in
        ray occupied (diagonal rank file 1 1)
        OR ray occupied (diagonal rank file 1 (- 1))
        OR ray occupied (diagonal rank file (- 1) 1)
        OR ray occupied (diagonal rank file (- 1) (- 1)))"

definition get_queen_attacks :: "nat \<Rightarrow> Bitboard \<Rightarrow> Bitboard" where
  "get_queen_attacks sq occupied = get_rook_attacks sq occupied OR get_bishop_attacks sq occupied"

text \<open>The tables \<open>knight_attacks\<close> and \<open>king_attacks\<close>, as \<open>init_basic_attacks\<close> fills them.\<close>

definition leaper_attacks :: "int list \<Rightarrow> int \<Rightarrow> nat \<Rightarrow> Bitboard" where
  "leaper_attacks deltas reach sq =
     fold (\<lambda>delta attacks.
             (let to_sq = int sq + delta in
              if to_sq \<ge> 0 \<and> to_sq < 64 \<and>
                 \<bar>to_sq div 8 - int (sq div 8)\<bar> \<le> reach \<and>
                 \<bar>to_sq mod 8 - int (sq mod 8)\<bar> \<le> reach
              then attacks OR sq_bit (nat to_sq) else attacks))
          deltas 0"

definition knight_attacks :: "nat \<Rightarrow> Bitboard" where
  "knight_attacks sq = leaper_attacks [- 17, - 15, - 10, - 6, 6, 10, 15, 17] 2 sq"

definition king_attacks :: "nat \<Rightarrow> Bitboard" where
  "king_attacks sq = leaper_attacks [- 9, - 8, - 7, - 1, 1, 7, 8, 9] 1 sq"

section \<open>Moves (types.h)\<close>

definition MOVE_FROM :: "Move \<Rightarrow> nat" where
  "MOVE_FROM m = unat (m AND 0x3F)"

definition MOVE_TO :: "Move \<Rightarrow> nat" where
  "MOVE_TO m = unat (drop_bit 6 m AND 0x3F)"

definition MOVE_PROMO :: "Move \<Rightarrow> nat" where
  "MOVE_PROMO m = unat (drop_bit 12 m AND 0xF)"

definition MOVE_FLAG :: "Move \<Rightarrow> nat" where
  "MOVE_FLAG m = unat (drop_bit 16 m AND 0x3)"

definition FLAG_QUIET :: nat where [simp]: "FLAG_QUIET = 0"
definition FLAG_CAPTURE :: nat where [simp]: "FLAG_CAPTURE = 1"
definition FLAG_SPECIAL :: nat where [simp]: "FLAG_SPECIAL = 2"

definition MAKE_MOVE :: "nat \<Rightarrow> nat \<Rightarrow> nat \<Rightarrow> nat \<Rightarrow> Move" where
  "MAKE_MOVE from to promo flag =
     of_nat from OR push_bit 6 (of_nat to) OR push_bit 12 (of_nat promo) OR push_bit 16 (of_nat flag)"

definition MOVE_IS_CAPTURE :: "Move \<Rightarrow> bool" where
  "MOVE_IS_CAPTURE m \<longleftrightarrow> MOVE_FLAG m = FLAG_CAPTURE"

definition MOVE_IS_SPECIAL :: "Move \<Rightarrow> bool" where
  "MOVE_IS_SPECIAL m \<longleftrightarrow> MOVE_FLAG m = FLAG_SPECIAL"

section \<open>Positions (position.h, position.c)\<close>

text \<open>
  The NNUE accumulator is two arrays of \<open>int16_t\<close> and a flag. A position holds the piece
  bitboards \<open>pieces[2][6]\<close> as the 12 words of that array in memory order (index
  \<open>color * 6 + piece\<close>), the two colour occupancies, the total occupancy and the scalar state.
\<close>

record Accumulator =
  acc_white :: "int list"
  acc_black :: "int list"
  acc_computed :: int

record Position =
  pos_pieces :: "Bitboard list"
  pos_occupied :: "Bitboard list"
  pos_all :: Bitboard
  pos_to_move :: nat
  pos_castling :: int
  pos_enpassant :: int
  pos_halfmove :: int
  pos_fullmove :: int
  pos_castling_rooks :: "nat list"
  pos_zobrist :: "64 word"
  pos_pawn_hash :: "64 word"
  pos_accumulator :: Accumulator

record UndoInfo =
  u_move :: Move
  u_captured :: int
  u_moving_piece :: int
  u_castling :: int
  u_enpassant :: int
  u_halfmove :: int
  u_zobrist :: "64 word"
  u_pawn_hash :: "64 word"
  u_accumulator :: Accumulator

text \<open>An accumulator and an undo record before they are first written.\<close>

definition empty_accumulator :: Accumulator where
  "empty_accumulator = \<lparr> acc_white = [], acc_black = [], acc_computed = 0 \<rparr>"

definition blank_undo :: UndoInfo where
  "blank_undo = \<lparr> u_move = 0, u_captured = 0, u_moving_piece = 0, u_castling = 0,
                   u_enpassant = 0, u_halfmove = 0, u_zobrist = 0, u_pawn_hash = 0,
                   u_accumulator = empty_accumulator \<rparr>"

text \<open>
  The globals the position code reads: the Zobrist tables that \<open>zobrist_init\<close> fills, and the
  NNUE switch with the two accumulator routines of nnue.c.
\<close>

record Globals =
  zobrist_piece :: "nat \<Rightarrow> nat \<Rightarrow> nat \<Rightarrow> 64 word"
  zobrist_castle :: "int \<Rightarrow> 64 word"
  zobrist_enpassant :: "nat \<Rightarrow> 64 word"
  zobrist_to_move :: "64 word"
  nnue_available :: bool
  nnue_refresh_accumulator :: "Position \<Rightarrow> Accumulator"
  nnue_update_accumulator :: "Accumulator \<Rightarrow> nat \<Rightarrow> nat \<Rightarrow> nat \<Rightarrow> nat \<Rightarrow> nat \<Rightarrow> nat \<Rightarrow> Accumulator"

definition pieces :: "Position \<Rightarrow> nat \<Rightarrow> nat \<Rightarrow> Bitboard" where
  "pieces pos color piece = pos_pieces pos ! (color * 6 + piece)"

definition position_piece_at_loop :: "Position \<Rightarrow> nat \<Rightarrow> nat list \<Rightarrow> int" where
  "position_piece_at_loop pos sq ps =
     foldr (\<lambda>piece rest.
              if pieces pos WHITE piece AND sq_bit sq \<noteq> 0 then int piece
              else if pieces pos BLACK piece AND sq_bit sq \<noteq> 0 then int piece + 6
              else rest) ps (- 1)"

definition position_piece_at :: "Position \<Rightarrow> nat \<Rightarrow> int" where
  "position_piece_at pos sq = position_piece_at_loop pos sq piece_types"

text \<open>The loop that finds the piece of one colour on a square; -1 when there is none.\<close>

definition find_piece :: "Position \<Rightarrow> nat \<Rightarrow> nat \<Rightarrow> int" where
  "find_piece pos color sq =
     foldr (\<lambda>piece rest. if pieces pos color piece AND sq_bit sq \<noteq> 0 then int piece else rest)
       piece_types (- 1)"

definition position_set_piece :: "Position \<Rightarrow> nat \<Rightarrow> nat \<Rightarrow> nat \<Rightarrow> Position" where
  "position_set_piece pos piece color sq =
     pos \<lparr> pos_pieces := (pos_pieces pos)[color * 6 + piece := pieces pos color piece OR sq_bit sq],
           pos_occupied := (pos_occupied pos)[color := pos_occupied pos ! color OR sq_bit sq],
           pos_all := pos_all pos OR sq_bit sq \<rparr>"

definition position_remove_piece :: "Position \<Rightarrow> nat \<Rightarrow> nat \<Rightarrow> nat \<Rightarrow> Position" where
  "position_remove_piece pos piece color sq =
     pos \<lparr> pos_pieces := (pos_pieces pos)[color * 6 + piece :=
                             pieces pos color piece AND NOT (sq_bit sq)],
           pos_occupied := (pos_occupied pos)[color := pos_occupied pos ! color AND NOT (sq_bit sq)],
           pos_all := pos_all pos AND NOT (sq_bit sq) \<rparr>"

definition position_move_piece :: "Position \<Rightarrow> nat \<Rightarrow> nat \<Rightarrow> nat \<Rightarrow> nat \<Rightarrow> Position" where
  "position_move_piece pos piece color from to =
     (let from_to = sq_bit from OR sq_bit to in
      pos \<lparr> pos_pieces := (pos_pieces pos)[color * 6 + piece := pieces pos color piece XOR from_to],
            pos_occupied := (pos_occupied pos)[color := pos_occupied pos ! color XOR from_to],
            pos_all := pos_all pos XOR from_to \<rparr>)"

definition position_in_check :: "Position \<Rightarrow> bool" where
  "position_in_check pos =
     (let color = pos_to_move pos;
          king = pieces pos color KING
      in if king = 0 then False
         else
           (let king_sq = LSB king;
                enemy = color XOR 1;
                enemy_pawns = pieces pos enemy PAWN;
                pawn_check =
                  (if color = WHITE then
                     SQ_RANK king_sq < 7 \<and>
                     ((SQ_FILE king_sq > 0 \<and> enemy_pawns AND sq_bit (king_sq + 7) \<noteq> 0) \<or>
                      (SQ_FILE king_sq < 7 \<and> enemy_pawns AND sq_bit (king_sq + 9) \<noteq> 0))
                   else
                     SQ_RANK king_sq > 0 \<and>
                     ((SQ_FILE king_sq > 0 \<and> enemy_pawns AND sq_bit (king_sq - 9) \<noteq> 0) \<or>
                      (SQ_FILE king_sq < 7 \<and> enemy_pawns AND sq_bit (king_sq - 7) \<noteq> 0)));
                occupied = pos_all pos
            in if pawn_check then True
               else if knight_attacks king_sq AND pieces pos enemy KNIGHT \<noteq> 0 then True
               else if get_rook_attacks king_sq occupied AND
                         (pieces pos enemy ROOK OR pieces pos enemy QUEEN) \<noteq> 0 then True
               else if get_bishop_attacks king_sq occupied AND
                         (pieces pos enemy BISHOP OR pieces pos enemy QUEEN) \<noteq> 0 then True
               else if king_attacks king_sq AND pieces pos enemy KING \<noteq> 0 then True
               else False))"


subsection \<open>position_make_move\<close>

text \<open>The first block: what \<open>position_make_move\<close> saves before it changes the position.\<close>

definition save_undo :: "Position \<Rightarrow> Move \<Rightarrow> UndoInfo \<Rightarrow> UndoInfo" where
  "save_undo pos move undo =
     undo \<lparr> u_move := move, u_captured := - 1, u_castling := pos_castling pos,
            u_enpassant := pos_enpassant pos, u_halfmove := pos_halfmove pos,
            u_zobrist := pos_zobrist pos, u_pawn_hash := pos_pawn_hash pos,
            u_accumulator := pos_accumulator pos \<rparr>"

text \<open>The castling right lost when a rook is captured on \<open>to\<close>.\<close>

definition rook_captured_rights :: "Position \<Rightarrow> nat \<Rightarrow> int" where
  "rook_captured_rights pos to =
     (if to = pos_castling_rooks pos ! 0 then pos_castling pos AND NOT 1
      else if to = pos_castling_rooks pos ! 1 then pos_castling pos AND NOT 2
      else if to = pos_castling_rooks pos ! 2 then pos_castling pos AND NOT 4
      else if to = pos_castling_rooks pos ! 3 then pos_castling pos AND NOT 8
      else pos_castling pos)"

text \<open>The capture loop: the first enemy piece type found on \<open>to\<close> is removed.\<close>

definition handle_capture :: "Globals \<Rightarrow> nat \<Rightarrow> nat \<Rightarrow> Position \<times> UndoInfo \<Rightarrow> Position \<times> UndoInfo" where
  "handle_capture g enemy to =
     (\<lambda>(pos, undo).
        case find (\<lambda>piece. pieces pos enemy piece AND sq_bit to \<noteq> 0) piece_types of
          None \<Rightarrow> (pos, undo)
        | Some piece \<Rightarrow>
            (let pos1 = position_remove_piece pos piece enemy to;
                 pos2 = pos1 \<lparr> pos_zobrist := pos_zobrist pos1 XOR zobrist_piece g enemy piece to \<rparr>;
                 pos3 = (if piece = PAWN
                         then pos2 \<lparr> pos_pawn_hash :=
                                       pos_pawn_hash pos2 XOR zobrist_piece g enemy piece to \<rparr>
                         else pos2);
                 pos4 = pos3 \<lparr> pos_castling := rook_captured_rights pos3 to \<rparr>
             in (pos4, undo \<lparr> u_captured := int piece \<rparr>)))"

definition handle_enpassant :: "Globals \<Rightarrow> nat \<Rightarrow> int \<Rightarrow> nat \<Rightarrow> nat
                                 \<Rightarrow> Position \<times> UndoInfo \<Rightarrow> Position \<times> UndoInfo" where
  "handle_enpassant g enemy moving_piece from to =
     (\<lambda>(pos, undo).
        if moving_piece = int PAWN \<and> int to = pos_enpassant pos then
          (let captured_sq = SQ (SQ_FILE to) (SQ_RANK from);
               pos1 = position_remove_piece pos PAWN enemy captured_sq;
               pos2 = pos1 \<lparr> pos_zobrist :=
                               pos_zobrist pos1 XOR zobrist_piece g enemy PAWN captured_sq \<rparr>;
               pos3 = pos2 \<lparr> pos_pawn_hash :=
                               pos_pawn_hash pos2 XOR zobrist_piece g enemy PAWN captured_sq \<rparr>
           in (pos3, undo \<lparr> u_captured := int PAWN \<rparr>))
        else (pos, undo))"

text \<open>The castling rights lost by a king or rook move.\<close>

definition mover_rights :: "Position \<Rightarrow> nat \<Rightarrow> int \<Rightarrow> nat \<Rightarrow> int" where
  "mover_rights pos color moving_piece from =
     (if moving_piece = int KING then
        (if color = WHITE then pos_castling pos AND NOT 3 else pos_castling pos AND NOT 12)
      else if moving_piece = int ROOK then
        (if color = WHITE then
           (if from = pos_castling_rooks pos ! 0 then pos_castling pos AND NOT 1
            else if from = pos_castling_rooks pos ! 1 then pos_castling pos AND NOT 2
            else pos_castling pos)
         else
           (if from = pos_castling_rooks pos ! 2 then pos_castling pos AND NOT 4
            else if from = pos_castling_rooks pos ! 3 then pos_castling pos AND NOT 8
            else pos_castling pos))
      else pos_castling pos)"

text \<open>The squares of a castling move whose \<open>to\<close> is the rook square.\<close>

definition SQ_C1 :: nat where [simp]: "SQ_C1 = 2"
definition SQ_D1 :: nat where [simp]: "SQ_D1 = 3"
definition SQ_F1 :: nat where [simp]: "SQ_F1 = 5"
definition SQ_G1 :: nat where [simp]: "SQ_G1 = 6"
definition SQ_C8 :: nat where [simp]: "SQ_C8 = 58"
definition SQ_D8 :: nat where [simp]: "SQ_D8 = 59"
definition SQ_F8 :: nat where [simp]: "SQ_F8 = 61"
definition SQ_G8 :: nat where [simp]: "SQ_G8 = 62"

definition castle_is_kingside :: "Position \<Rightarrow> nat \<Rightarrow> nat \<Rightarrow> bool" where
  "castle_is_kingside pos color to \<longleftrightarrow>
     to = pos_castling_rooks pos ! (if color = WHITE then 0 else 2)"

definition castle_king_to :: "nat \<Rightarrow> bool \<Rightarrow> nat" where
  "castle_king_to color is_kingside =
     (if color = WHITE then (if is_kingside then SQ_G1 else SQ_C1)
      else (if is_kingside then SQ_G8 else SQ_C8))"

definition castle_rook_to :: "nat \<Rightarrow> bool \<Rightarrow> nat" where
  "castle_rook_to color is_kingside =
     (if color = WHITE then (if is_kingside then SQ_F1 else SQ_D1)
      else (if is_kingside then SQ_F8 else SQ_D8))"

definition move_the_piece :: "Globals \<Rightarrow> nat \<Rightarrow> nat \<Rightarrow> Move \<Rightarrow> nat \<Rightarrow> nat \<Rightarrow> Position \<Rightarrow> Position" where
  "move_the_piece g color moving_piece move from to pos =
     (if moving_piece = KING \<and> MOVE_IS_SPECIAL move then
        (let is_kingside = castle_is_kingside pos color to;
             king_to = castle_king_to color is_kingside;
             rook_to = castle_rook_to color is_kingside;
             rook_sq = to;
             pos1 = position_move_piece pos KING color from king_to;
             pos2 = pos1 \<lparr> pos_zobrist := pos_zobrist pos1 XOR zobrist_piece g color KING from
                                             XOR zobrist_piece g color KING king_to \<rparr>;
             pos3 = position_move_piece pos2 ROOK color rook_sq rook_to
         in pos3 \<lparr> pos_zobrist := pos_zobrist pos3 XOR zobrist_piece g color ROOK rook_sq
                                     XOR zobrist_piece g color ROOK rook_to \<rparr>)
      else
        (let pos1 = position_move_piece pos moving_piece color from to;
             pos2 = pos1 \<lparr> pos_zobrist := pos_zobrist pos1 XOR zobrist_piece g color moving_piece from
                                             XOR zobrist_piece g color moving_piece to \<rparr>
         in if moving_piece = PAWN
            then pos2 \<lparr> pos_pawn_hash := pos_pawn_hash pos2 XOR zobrist_piece g color PAWN from
                                           XOR zobrist_piece g color PAWN to \<rparr>
            else pos2))"

definition handle_promotion :: "Globals \<Rightarrow> nat \<Rightarrow> nat \<Rightarrow> nat \<Rightarrow> Position \<Rightarrow> Position" where
  "handle_promotion g color promo to pos =
     (if promo > 0 then
        (let pos1 = position_remove_piece pos PAWN color to;
             pos2 = position_set_piece pos1 promo color to;
             pos3 = pos2 \<lparr> pos_zobrist := pos_zobrist pos2 XOR zobrist_piece g color PAWN to
                                             XOR zobrist_piece g color promo to \<rparr>
         in pos3 \<lparr> pos_pawn_hash := pos_pawn_hash pos3 XOR zobrist_piece g color PAWN to \<rparr>)
      else pos)"

definition update_enpassant :: "Globals \<Rightarrow> nat \<Rightarrow> nat \<Rightarrow> nat \<Rightarrow> Position \<Rightarrow> Position" where
  "update_enpassant g moving_piece from to pos =
     (let pos1 = (if pos_enpassant pos \<ge> 0
                  then pos \<lparr> pos_zobrist := pos_zobrist pos XOR
                                 zobrist_enpassant g (SQ_FILE (nat (pos_enpassant pos))) \<rparr>
                  else pos);
          pos2 = pos1 \<lparr> pos_enpassant := - 1 \<rparr>
      in if moving_piece = PAWN \<and> \<bar>int to - int from\<bar> = 16 then
           (let pos3 = pos2 \<lparr> pos_enpassant := int ((from + to) div 2) \<rparr>
            in pos3 \<lparr> pos_zobrist := pos_zobrist pos3 XOR
                          zobrist_enpassant g (SQ_FILE (nat (pos_enpassant pos3))) \<rparr>)
         else pos2)"

definition update_counters :: "nat \<Rightarrow> nat \<Rightarrow> UndoInfo \<Rightarrow> Position \<Rightarrow> Position" where
  "update_counters color moving_piece undo pos =
     (let pos1 = (if moving_piece = PAWN \<or> u_captured undo \<ge> 0
                  then pos \<lparr> pos_halfmove := 0 \<rparr>
                  else pos \<lparr> pos_halfmove := s32 (pos_halfmove pos + 1) \<rparr>)
      in if color = BLACK then pos1 \<lparr> pos_fullmove := s32 (pos_fullmove pos1 + 1) \<rparr> else pos1)"

definition update_nnue :: "Globals \<Rightarrow> nat \<Rightarrow> nat \<Rightarrow> nat \<Rightarrow> Move \<Rightarrow> nat \<Rightarrow> nat \<Rightarrow> nat
                            \<Rightarrow> UndoInfo \<Rightarrow> Position \<Rightarrow> Position" where
  "update_nnue g color enemy moving_piece move promo from to undo pos =
     (if nnue_available g then
        (if moving_piece = KING \<or> promo > 0 \<or> u_enpassant undo \<ge> 0 \<or> MOVE_IS_SPECIAL move
         then pos \<lparr> pos_accumulator := nnue_refresh_accumulator g pos \<rparr>
         else
           (let w_king = LSB (pieces pos WHITE KING);
                b_king = LSB (pieces pos BLACK KING);
                acc1 = nnue_update_accumulator g (pos_accumulator pos) moving_piece color from 0
                         w_king b_king;
                acc2 = nnue_update_accumulator g acc1 moving_piece color to 1 w_king b_king;
                acc3 = (if u_captured undo \<ge> 0
                        then nnue_update_accumulator g acc2 (nat (u_captured undo)) enemy to 0
                               w_king b_king
                        else acc2)
            in pos \<lparr> pos_accumulator := acc3 \<rparr>))
      else pos)"

text \<open>
  \<open>position_make_move(pos, move, undo)\<close>: the position and the undo record after the call.
  The undo record is an in/out argument; when no piece of the side to move stands on
  \<open>from\<close> the function returns with \<open>moving_piece\<close> of the record not written. A promotion
  code above \<open>KING\<close> would index \<open>pieces[color]\<close> past its six boards: the error
  \<open>IndexOutOfBounds\<close>.
\<close>

definition position_make_move :: "Globals \<Rightarrow> Position \<Rightarrow> Move \<Rightarrow> UndoInfo
                                   \<Rightarrow> error + (Position \<times> UndoInfo)" where
  "position_make_move g pos move undo0 =
     (let undo1 = save_undo pos move undo0;
          from = MOVE_FROM move;
          to = MOVE_TO move;
          promo = MOVE_PROMO move;
          color = pos_to_move pos;
          enemy = color XOR 1;
          moving_piece = find_piece pos color from
      in if moving_piece < 0 then Inr (pos, undo1)
         else if promo > KING then Inl IndexOutOfBounds
         else
           (let undo2 = undo1 \<lparr> u_moving_piece := moving_piece \<rparr>;
                (pos1, undo3) = handle_capture g enemy to (pos, undo2);
                (pos2, undo4) = handle_enpassant g enemy moving_piece from to (pos1, undo3);
                pos3 = pos2 \<lparr> pos_castling := mover_rights pos2 color moving_piece from \<rparr>;
                pos4 = move_the_piece g color (nat moving_piece) move from to pos3;
                pos5 = handle_promotion g color promo to pos4;
                pos6 = update_enpassant g (nat moving_piece) from to pos5;
                pos7 = update_counters color (nat moving_piece) undo4 pos6;
                pos8 = pos7 \<lparr> pos_zobrist := pos_zobrist pos7 XOR zobrist_castle g (u_castling undo4)
                                               XOR zobrist_castle g (pos_castling pos7) \<rparr>;
                pos9 = update_nnue g color enemy (nat moving_piece) move promo from to undo4 pos8;
                pos10 = pos9 \<lparr> pos_to_move := enemy \<rparr>
            in Inr (pos10 \<lparr> pos_zobrist := pos_zobrist pos10 XOR zobrist_to_move g \<rparr>, undo4)))"

subsection \<open>position_unmake_move\<close>

definition restore_pieces :: "Position \<Rightarrow> Move \<Rightarrow> UndoInfo \<Rightarrow> nat \<Rightarrow> nat \<Rightarrow> nat \<Rightarrow> nat \<Rightarrow> Position" where
  "restore_pieces pos move undo color from to promo =
     (if u_moving_piece undo = int KING \<and> MOVE_IS_SPECIAL move then
        (let is_kingside = castle_is_kingside pos color to;
             king_to = castle_king_to color is_kingside;
             rook_to = castle_rook_to color is_kingside;
             rook_sq = to;
             pos1 = position_move_piece pos ROOK color rook_to rook_sq
         in position_move_piece pos1 KING color king_to from)
      else if promo > 0 then
        position_set_piece (position_remove_piece pos promo color to) PAWN color from
      else position_move_piece pos (nat (u_moving_piece undo)) color to from)"

definition restore_captured :: "Position \<Rightarrow> UndoInfo \<Rightarrow> nat \<Rightarrow> nat \<Rightarrow> nat \<Rightarrow> Position" where
  "restore_captured pos undo color from to =
     (if u_captured undo \<ge> 0 then
        (if u_moving_piece undo = int PAWN \<and> int to = u_enpassant undo
         then position_set_piece pos PAWN (color XOR 1) (SQ (SQ_FILE to) (SQ_RANK from))
         else position_set_piece pos (nat (u_captured undo)) (color XOR 1) to)
      else pos)"

definition sync_occupied :: "Position \<Rightarrow> Position" where
  "sync_occupied pos =
     (let w = fold (\<lambda>p acc. acc OR pieces pos WHITE p) piece_types 0;
          b = fold (\<lambda>p acc. acc OR pieces pos BLACK p) piece_types 0
      in pos \<lparr> pos_occupied := (pos_occupied pos)[WHITE := w, BLACK := b], pos_all := w OR b \<rparr>)"

text \<open>
  \<open>position_unmake_move(pos, move, undo)\<close>. The moving piece is read from the undo record;
  a record whose \<open>moving_piece\<close> or \<open>captured\<close> is not a piece type, or a promotion code
  above \<open>KING\<close>, would index past \<open>pieces[color]\<close>: the error \<open>IndexOutOfBounds\<close>.
\<close>

definition position_unmake_move :: "Position \<Rightarrow> Move \<Rightarrow> UndoInfo \<Rightarrow> error + Position" where
  "position_unmake_move pos move undo =
     (let color = pos_to_move pos XOR 1;
          from = MOVE_FROM move;
          to = MOVE_TO move;
          promo = MOVE_PROMO move
      in if u_moving_piece undo < 0 \<or> u_moving_piece undo > int KING \<or> promo > KING \<or>
            u_captured undo > int KING
         then Inl IndexOutOfBounds
         else
           (let pos1 = restore_pieces pos move undo color from to promo;
                pos2 = restore_captured pos1 undo color from to;
                pos3 = pos2 \<lparr> pos_to_move := color, pos_castling := u_castling undo,
                              pos_enpassant := u_enpassant undo, pos_halfmove := u_halfmove undo,
                              pos_zobrist := u_zobrist undo, pos_pawn_hash := u_pawn_hash undo,
                              pos_accumulator := u_accumulator undo \<rparr>
            in Inr (sync_occupied pos3)))"

text \<open>\<open>apply(m); undo(m)\<close> with the record that the apply wrote.\<close>

definition make_unmake :: "Globals \<Rightarrow> Position \<Rightarrow> Move \<Rightarrow> UndoInfo \<Rightarrow> error + Position" where
  "make_unmake g pos move undo0 =
     (case position_make_move g pos move undo0 of
        Inl e \<Rightarrow> Inl e
      | Inr (pos', undo) \<Rightarrow> position_unmake_move pos' move undo)"

section \<open>Static exchange evaluation (see.c)\<close>

definition see_values :: "int list" where
  "see_values = [100, 320, 330, 500, 900, 20000, 0]"

text \<open>
  A read \<open>see_values[i]\<close>. The array has seven entries; an index outside 0..6 is a read out
  of bounds, the error \<open>IndexOutOfBounds\<close>.
\<close>

definition see_value_at :: "int \<Rightarrow> error + int" where
  "see_value_at i =
     (if 0 \<le> i \<and> i < 7 then Inr (see_values ! nat i) else Inl IndexOutOfBounds)"

definition get_attackers :: "Position \<Rightarrow> nat \<Rightarrow> Bitboard \<Rightarrow> Bitboard" where
  "get_attackers pos sq occupied =
     (let a0 = (0 :: Bitboard);
          a1 = (if sq > 7 \<and> sq mod 8 \<noteq> 0 \<and> pieces pos WHITE PAWN AND sq_bit (sq - 9) \<noteq> 0
                then a0 OR sq_bit (sq - 9) else a0);
          a2 = (if sq > 7 \<and> sq mod 8 \<noteq> 7 \<and> pieces pos WHITE PAWN AND sq_bit (sq - 7) \<noteq> 0
                then a1 OR sq_bit (sq - 7) else a1);
          a3 = (if sq < 56 \<and> sq mod 8 \<noteq> 7 \<and> pieces pos BLACK PAWN AND sq_bit (sq + 9) \<noteq> 0
                then a2 OR sq_bit (sq + 9) else a2);
          a4 = (if sq < 56 \<and> sq mod 8 \<noteq> 0 \<and> pieces pos BLACK PAWN AND sq_bit (sq + 7) \<noteq> 0
                then a3 OR sq_bit (sq + 7) else a3);
          a5 = a4 OR (knight_attacks sq AND (pieces pos WHITE KNIGHT OR pieces pos BLACK KNIGHT));
          a6 = a5 OR (king_attacks sq AND (pieces pos WHITE KING OR pieces pos BLACK KING));
          a7 = a6 OR (get_bishop_attacks sq occupied AND
                        (pieces pos WHITE BISHOP OR pieces pos BLACK BISHOP OR
                         pieces pos WHITE QUEEN OR pieces pos BLACK QUEEN))
      in a7 OR (get_rook_attacks sq occupied AND
                  (pieces pos WHITE ROOK OR pieces pos BLACK ROOK OR
                   pieces pos WHITE QUEEN OR pieces pos BLACK QUEEN)))"

text \<open>
  The inner loop of \<open>see\<close>: the least valuable piece type of \<open>color\<close> among the attackers
  still on the board, with the square of its lowest bit.
\<close>

definition smallest_attacker :: "Position \<Rightarrow> nat \<Rightarrow> Bitboard \<Rightarrow> Bitboard \<Rightarrow> (nat \<times> nat) option" where
  "smallest_attacker pos color attackers occupied =
     (case find (\<lambda>p. attackers AND occupied AND pieces pos color p \<noteq> 0) piece_types of
        None \<Rightarrow> None
      | Some p \<Rightarrow> Some (LSB (attackers AND occupied AND pieces pos color p), p))"

text \<open>The sliding attackers that removing a piece of type \<open>next_piece\<close> reveals.\<close>

definition xray_attackers :: "Position \<Rightarrow> nat \<Rightarrow> Bitboard \<Rightarrow> nat \<Rightarrow> Bitboard \<Rightarrow> Bitboard" where
  "xray_attackers pos to occupied next_piece attackers =
     (let a1 = (if next_piece = PAWN \<or> next_piece = BISHOP \<or> next_piece = QUEEN
                then attackers OR (get_bishop_attacks to occupied AND
                       (pieces pos WHITE BISHOP OR pieces pos BLACK BISHOP OR
                        pieces pos WHITE QUEEN OR pieces pos BLACK QUEEN))
                else attackers)
      in if next_piece = ROOK \<or> next_piece = QUEEN
         then a1 OR (get_rook_attacks to occupied AND
                (pieces pos WHITE ROOK OR pieces pos BLACK ROOK OR
                 pieces pos WHITE QUEEN OR pieces pos BLACK QUEEN))
         else a1)"

text \<open>
  The exchange loop \<open>while (d < 31)\<close>. The state is the depth \<open>d\<close>, the array \<open>gain\<close>
  (32 scores; each entry read has been written before), the occupancy, the attackers, the
  colour to capture next and the piece type that stands on the square. The result is the
  depth and the array after the loop.
\<close>

function see_loop :: "Position \<Rightarrow> nat \<Rightarrow> nat \<Rightarrow> Score list \<Rightarrow> Bitboard \<Rightarrow> Bitboard \<Rightarrow> nat \<Rightarrow> int
                       \<Rightarrow> error + (nat \<times> Score list)" where
  "see_loop pos to d gain occupied attackers color next_piece =
     (if d < 31 then
        (case see_value_at next_piece of
           Inl e \<Rightarrow> Inl e
         | Inr v \<Rightarrow>
             (let d1 = d + 1;
                  gain1 = gain[d1 := s16 (v - gain ! (d1 - 1))]
              in case smallest_attacker pos color attackers occupied of
                   None \<Rightarrow> Inr (d1 - 1, gain1)
                 | Some (found_sq, p) \<Rightarrow>
                     (let occupied1 = occupied AND NOT (sq_bit found_sq);
                          attackers1 = xray_attackers pos to occupied1 p attackers
                      in see_loop pos to d1 gain1 occupied1 attackers1 (color XOR 1) (int p))))
      else Inr (d, gain))"
  by pat_completeness auto
termination
  by (relation "measure (\<lambda>(pos, to, d, gain, occupied, attackers, color, next_piece). 31 - d)") auto

declare see_loop.simps [simp del]

text \<open>The last loop: \<open>while (--d > 0) gain[d - 1] = -max(-gain[d - 1], gain[d])\<close>.\<close>

fun see_unwind :: "nat \<Rightarrow> Score list \<Rightarrow> Score list" where
  "see_unwind 0 gain = gain"
| "see_unwind (Suc d) gain =
     (if d > 0
      then see_unwind d (gain[d - 1 := s16 (- max (- (gain ! (d - 1))) (gain ! d))])
      else gain)"

text \<open>
  \<open>see(pos, move)\<close>. The victim and attacker are the codes \<open>position_piece_at\<close> returns,
  0..5 for a white piece and 6..11 for a black one, and both index \<open>see_values\<close>.
\<close>

definition see :: "Position \<Rightarrow> Move \<Rightarrow> error + Score" where
  "see pos move =
     (let from = MOVE_FROM move;
          to = MOVE_TO move;
          captured0 = position_piece_at pos to
      in if captured0 = - 1 \<and> \<not> MOVE_IS_SPECIAL move then Inr 0
         else
           (let captured = (if captured0 = - 1 then int PAWN else captured0);
                attacker = position_piece_at pos from
            in if attacker = - 1 then Inr 0
               else
                 (case see_value_at captured of
                    Inl e \<Rightarrow> Inl e
                  | Inr v \<Rightarrow>
                      (let gain = (replicate 32 0)[0 := v];
                           occupied0 = pos_all pos;
                           attackers = get_attackers pos to occupied0;
                           occupied = occupied0 AND NOT (sq_bit from);
                           color = pos_to_move pos XOR 1
                       in case see_loop pos to 0 gain occupied attackers color attacker of
                            Inl e \<Rightarrow> Inl e
                          | Inr (d, gain') \<Rightarrow> Inr (see_unwind d gain' ! 0)))))"

definition see_ge :: "Position \<Rightarrow> Move \<Rightarrow> Score \<Rightarrow> error + bool" where
  "see_ge pos move threshold =
     (case see pos move of Inl e \<Rightarrow> Inl e | Inr s \<Rightarrow> Inr (s \<ge> threshold))"

text \<open>\<open>piece_value\<close> of types.h, the fixed table of the piece values.\<close>

definition piece_value :: "nat \<Rightarrow> int" where
  "piece_value piece = [100, 320, 330, 500, 900, 0] ! piece"

section \<open>Capture scores of the move picker (movepicker.c)\<close>

definition PIECE_VALUES :: "int list" where
  "PIECE_VALUES = [100, 320, 330, 500, 900, 20000, 0]"

definition piece_values_at :: "int \<Rightarrow> error + int" where
  "piece_values_at i =
     (if 0 \<le> i \<and> i < 7 then Inr (PIECE_VALUES ! nat i) else Inl IndexOutOfBounds)"

definition score_capture :: "Position \<Rightarrow> Move \<Rightarrow> error + int" where
  "score_capture pos move =
     (let to = MOVE_TO move;
          from = MOVE_FROM move;
          victim0 = position_piece_at pos to;
          victim = (if victim0 = - 1 \<and> int to = pos_enpassant pos then int PAWN else victim0);
          attacker = position_piece_at pos from
      in if victim = - 1 \<or> attacker = - 1 then Inr 0
         else
           (case piece_values_at victim of
              Inl e \<Rightarrow> Inl e
            | Inr vv \<Rightarrow>
                (case piece_values_at attacker of
                   Inl e \<Rightarrow> Inl e
                 | Inr av \<Rightarrow> Inr (vv * 10 - av))))"


text \<open>
  The words of the exchange claim: a capture is undefended when no piece of the side that does
  not move is among the attackers of the target square once the capturing piece has left.
\<close>

definition undefended :: "Position \<Rightarrow> Move \<Rightarrow> bool" where
  "undefended pos move \<longleftrightarrow>
     (\<forall>p\<in>set piece_types.
        get_attackers pos (MOVE_TO move) (pos_all pos)
          AND (pos_all pos AND NOT (sq_bit (MOVE_FROM move)))
          AND pieces pos (pos_to_move pos XOR 1) p = 0)"


section \<open>Move generation (movegen.c)\<close>

text \<open>
  A \<open>MoveList\<close> holds at most 256 moves: \<open>add_move\<close> drops a move when the list is full.
  The model is the list of the moves stored, in order.
\<close>

definition add_move :: "Move list \<Rightarrow> nat \<Rightarrow> nat \<Rightarrow> nat \<Rightarrow> Move list" where
  "add_move list from to flag =
     (if length list < 256 then list @ [MAKE_MOVE from to 0 flag] else list)"

definition add_promo :: "nat \<Rightarrow> nat \<Rightarrow> nat \<Rightarrow> nat \<Rightarrow> Move list \<Rightarrow> Move list" where
  "add_promo from to flag promo list =
     (if length list < 256 then list @ [MAKE_MOVE from to (promo - KNIGHT + 1) flag] else list)"

definition add_pawn_moves :: "Move list \<Rightarrow> Position \<Rightarrow> nat \<Rightarrow> nat \<Rightarrow> nat \<Rightarrow> Move list" where
  "add_pawn_moves list pos from to flag =
     (let rank = SQ_RANK to; color = pos_to_move pos in
      if (color = WHITE \<and> rank = 7) \<or> (color = BLACK \<and> rank = 0)
      then fold (add_promo from to flag) [KNIGHT, BISHOP, ROOK, QUEEN] list
      else add_move list from to flag)"

text \<open>The en-passant captures: the pawns beside the target file on \<open>rank\<close> (4 or 3).\<close>

definition add_enpassant :: "Position \<Rightarrow> Bitboard \<Rightarrow> nat \<Rightarrow> Move list \<Rightarrow> Move list" where
  "add_enpassant pos pawns rank list =
     (if pos_enpassant pos \<ge> 0 then
        (let ep = nat (pos_enpassant pos);
             ep_file = SQ_FILE ep;
             list1 = (if ep_file > 0 \<and> pawns AND sq_bit (SQ (ep_file - 1) rank) \<noteq> 0
                      then add_move list (SQ (ep_file - 1) rank) ep FLAG_CAPTURE else list)
         in if ep_file < 7 \<and> pawns AND sq_bit (SQ (ep_file + 1) rank) \<noteq> 0
            then add_move list1 (SQ (ep_file + 1) rank) ep FLAG_CAPTURE else list1)
      else list)"

definition pawn_captures :: "Position \<Rightarrow> Move list \<Rightarrow> Move list" where
  "pawn_captures pos list =
     (let color = pos_to_move pos;
          enemies = pos_occupied pos ! (color XOR 1);
          pawns = pieces pos color PAWN
      in if color = WHITE then
           (let capture_left = push_bit 7 pawns AND NOT FILE_H AND enemies;
                list1 = fold (\<lambda>sq l. add_pawn_moves l pos (sq - 7) sq FLAG_CAPTURE)
                          (bb_squares capture_left) list;
                capture_right = push_bit 9 pawns AND NOT FILE_A AND enemies;
                list2 = fold (\<lambda>sq l. add_pawn_moves l pos (sq - 9) sq FLAG_CAPTURE)
                          (bb_squares capture_right) list1
            in add_enpassant pos pawns 4 list2)
         else
           (let capture_left = drop_bit 7 pawns AND NOT FILE_A AND enemies;
                list1 = fold (\<lambda>sq l. add_pawn_moves l pos (sq + 7) sq FLAG_CAPTURE)
                          (bb_squares capture_left) list;
                capture_right = drop_bit 9 pawns AND NOT FILE_H AND enemies;
                list2 = fold (\<lambda>sq l. add_pawn_moves l pos (sq + 9) sq FLAG_CAPTURE)
                          (bb_squares capture_right) list1
            in add_enpassant pos pawns 3 list2))"

definition pawn_pushes :: "Position \<Rightarrow> Move list \<Rightarrow> Move list" where
  "pawn_pushes pos list =
     (let color = pos_to_move pos;
          empty = NOT (pos_all pos);
          pawns = pieces pos color PAWN
      in if color = WHITE then
           (let push_1 = push_bit 8 pawns AND empty;
                list1 = fold (\<lambda>sq l. add_pawn_moves l pos (sq - 8) sq FLAG_QUIET)
                          (bb_squares push_1) list;
                push_2 = push_bit 8 (push_1 AND RANK_3) AND empty
            in fold (\<lambda>sq l. add_move l (sq - 16) sq FLAG_QUIET) (bb_squares push_2) list1)
         else
           (let push_1 = drop_bit 8 pawns AND empty;
                list1 = fold (\<lambda>sq l. add_pawn_moves l pos (sq + 8) sq FLAG_QUIET)
                          (bb_squares push_1) list;
                push_2 = drop_bit 8 (push_1 AND RANK_6) AND empty
            in fold (\<lambda>sq l. add_move l (sq + 16) sq FLAG_QUIET) (bb_squares push_2) list1))"

text \<open>
  The moves of the pieces of one type: for each piece the targets \<open>attacks sq\<close> that hold no
  piece of its colour, flagged as captures where an enemy stands.
\<close>

definition piece_moves :: "Position \<Rightarrow> Bitboard \<Rightarrow> (nat \<Rightarrow> Bitboard) \<Rightarrow> Move list \<Rightarrow> Move list" where
  "piece_moves pos bb attacks list =
     (let color = pos_to_move pos;
          enemies = pos_occupied pos ! (color XOR 1)
      in fold (\<lambda>sq l.
                 fold (\<lambda>to l'. add_move l' sq to
                                  (if enemies AND sq_bit to \<noteq> 0 then FLAG_CAPTURE else FLAG_QUIET))
                   (bb_squares (attacks sq AND NOT (pos_occupied pos ! color))) l)
           (bb_squares bb) list)"

text \<open>In \<open>movegen_captures\<close> the targets are the enemy pieces only.\<close>

definition piece_captures :: "Position \<Rightarrow> Bitboard \<Rightarrow> (nat \<Rightarrow> Bitboard) \<Rightarrow> Move list \<Rightarrow> Move list" where
  "piece_captures pos bb attacks list =
     (let enemies = pos_occupied pos ! (pos_to_move pos XOR 1)
      in fold (\<lambda>sq l. fold (\<lambda>to l'. add_move l' sq to FLAG_CAPTURE)
                          (bb_squares (attacks sq AND enemies)) l)
           (bb_squares bb) list)"

text \<open>
  The two path loops of castling, \<open>for (s = start + step;; s += step)\<close>: they stop at the first
  occupied square other than the king's and the rook's (blocked) or at the target. A walk that
  leaves the board before either shifts \<open>1ULL\<close> by a count outside 0..63, the error
  \<open>ShiftOutOfRange\<close>.
\<close>

function path_blocked :: "Position \<Rightarrow> int \<Rightarrow> bool \<Rightarrow> int \<Rightarrow> int \<Rightarrow> int \<Rightarrow> error + bool" where
  "path_blocked pos s forward target king_sq rook_sq =
     (if s < 0 \<or> s \<ge> 64 then Inl ShiftOutOfRange
      else if s \<noteq> king_sq \<and> s \<noteq> rook_sq \<and> pos_all pos AND sq_bit (nat s) \<noteq> 0 then Inr True
      else if s = target then Inr False
      else path_blocked pos (if forward then s + 1 else s - 1) forward target king_sq rook_sq)"
  by pat_completeness auto
termination
  by (relation "measure (\<lambda>(pos, s, forward, target, king_sq, rook_sq).
                   nat (if forward then 64 - s else s + 1))") auto

declare path_blocked.simps [simp del]

text \<open>The inline attack test of the castling code for one square of the king's path.\<close>

definition square_attacked :: "Position \<Rightarrow> nat \<Rightarrow> nat \<Rightarrow> bool" where
  "square_attacked pos enemy s =
     (if knight_attacks s AND pieces pos enemy KNIGHT \<noteq> 0 then True
      else if king_attacks s AND pieces pos enemy KING \<noteq> 0 then True
      else if get_bishop_attacks s (pos_all pos) AND
                (pieces pos enemy BISHOP OR pieces pos enemy QUEEN) \<noteq> 0 then True
      else if get_rook_attacks s (pos_all pos) AND
                (pieces pos enemy ROOK OR pieces pos enemy QUEEN) \<noteq> 0 then True
      else
        (let p_mask = (if enemy = WHITE
                       then (drop_bit 7 (sq_bit s) AND NOT FILE_A) OR
                            (drop_bit 9 (sq_bit s) AND NOT FILE_H)
                       else (push_bit 7 (sq_bit s) AND NOT FILE_H) OR
                            (push_bit 9 (sq_bit s) AND NOT FILE_A))
         in p_mask AND pieces pos enemy PAWN \<noteq> 0))"

function path_attacked :: "Position \<Rightarrow> nat \<Rightarrow> int \<Rightarrow> bool \<Rightarrow> int \<Rightarrow> error + bool" where
  "path_attacked pos enemy s forward target =
     (if s < 0 \<or> s \<ge> 64 then Inl IndexOutOfBounds
      else if square_attacked pos enemy (nat s) then Inr True
      else if s = target then Inr False
      else path_attacked pos enemy (if forward then s + 1 else s - 1) forward target)"
  by pat_completeness auto
termination
  by (relation "measure (\<lambda>(pos, enemy, s, forward, target).
                   nat (if forward then 64 - s else s + 1))") auto

declare path_attacked.simps [simp del]

text \<open>One round of the castling loop (\<open>i\<close> = 0 king side, 1 queen side).\<close>

definition castling_move :: "Position \<Rightarrow> nat \<Rightarrow> nat \<Rightarrow> Move list \<Rightarrow> error + Move list" where
  "castling_move pos king_sq i list =
     (let color = pos_to_move pos;
          castling_bit = (if color = WHITE then push_bit i (1 :: int) else push_bit i 4)
      in if pos_castling pos AND castling_bit = 0 then Inr list
         else
           (let rook_sq = pos_castling_rooks pos ! (if color = WHITE then i else 2 + i) in
            if pieces pos color ROOK AND sq_bit rook_sq = 0 then Inr list
            else
              (let target_k = castle_king_to color (i = 0);
                   target_r = castle_rook_to color (i = 0);
                   k_forward = target_k > king_sq;
                   r_forward = target_r > rook_sq
               in case path_blocked pos (if k_forward then int king_sq + 1 else int king_sq - 1)
                         k_forward (int target_k) (int king_sq) (int rook_sq) of
                    Inl e \<Rightarrow> Inl e
                  | Inr True \<Rightarrow> Inr list
                  | Inr False \<Rightarrow>
                      (case path_blocked pos (if r_forward then int rook_sq + 1 else int rook_sq - 1)
                              r_forward (int target_r) (int king_sq) (int rook_sq) of
                         Inl e \<Rightarrow> Inl e
                       | Inr True \<Rightarrow> Inr list
                       | Inr False \<Rightarrow>
                           if position_in_check pos then Inr list
                           else
                             (case path_attacked pos (color XOR 1) (int king_sq) k_forward
                                     (int target_k) of
                                Inl e \<Rightarrow> Inl e
                              | Inr True \<Rightarrow> Inr list
                              | Inr False \<Rightarrow> Inr (add_move list king_sq rook_sq FLAG_SPECIAL))))))"

definition king_moves :: "Position \<Rightarrow> Move list \<Rightarrow> error + Move list" where
  "king_moves pos list =
     (let color = pos_to_move pos;
          kings = pieces pos color KING
      in if kings = 0 then Inr list
         else
           (let sq = LSB kings;
                list1 = piece_moves pos (sq_bit sq) king_attacks list
            in case castling_move pos sq 0 list1 of
                 Inl e \<Rightarrow> Inl e
               | Inr list2 \<Rightarrow> castling_move pos sq 1 list2))"

definition movegen_all :: "Position \<Rightarrow> error + Move list" where
  "movegen_all pos =
     (let color = pos_to_move pos;
          list1 = pawn_captures pos (pawn_pushes pos []);
          list2 = piece_moves pos (pieces pos color KNIGHT) knight_attacks list1;
          list3 = piece_moves pos (pieces pos color BISHOP)
                    (\<lambda>sq. get_bishop_attacks sq (pos_all pos)) list2;
          list4 = piece_moves pos (pieces pos color ROOK)
                    (\<lambda>sq. get_rook_attacks sq (pos_all pos)) list3;
          list5 = piece_moves pos (pieces pos color QUEEN)
                    (\<lambda>sq. get_queen_attacks sq (pos_all pos)) list4
      in king_moves pos list5)"

definition movegen_captures :: "Position \<Rightarrow> Move list" where
  "movegen_captures pos =
     (let color = pos_to_move pos;
          list1 = pawn_captures pos [];
          list2 = piece_captures pos (pieces pos color KNIGHT) knight_attacks list1;
          list3 = piece_captures pos (pieces pos color BISHOP)
                    (\<lambda>sq. get_bishop_attacks sq (pos_all pos)) list2;
          list4 = piece_captures pos (pieces pos color ROOK)
                    (\<lambda>sq. get_rook_attacks sq (pos_all pos)) list3;
          list5 = piece_captures pos (pieces pos color QUEEN)
                    (\<lambda>sq. get_queen_attacks sq (pos_all pos)) list4;
          kings = pieces pos color KING
      in if kings = 0 then list5
         else piece_captures pos (sq_bit (LSB kings)) king_attacks list5)"

text \<open>The pawn case of \<open>movegen_is_pseudo_legal\<close>.\<close>

definition pawn_pseudo_legal :: "Position \<Rightarrow> nat \<Rightarrow> nat \<Rightarrow> nat \<Rightarrow> bool" where
  "pawn_pseudo_legal pos color from to =
     (let pawn_bb = sq_bit from;
          empty = NOT (pos_all pos);
          enemies = pos_occupied pos ! (color XOR 1);
          to_bb = sq_bit to
      in if color = WHITE then
           (push_bit 8 pawn_bb AND empty AND to_bb \<noteq> 0) \<or>
           (SQ_RANK from = 1 \<and>
              push_bit 16 pawn_bb AND empty AND push_bit 8 (empty AND RANK_3) AND to_bb \<noteq> 0) \<or>
           (push_bit 7 pawn_bb AND NOT FILE_H AND enemies AND to_bb \<noteq> 0) \<or>
           (push_bit 9 pawn_bb AND NOT FILE_A AND enemies AND to_bb \<noteq> 0) \<or>
           (pos_enpassant pos = int to \<and> pos_enpassant pos \<noteq> - 1 \<and>
              ((push_bit 7 pawn_bb AND NOT FILE_H AND to_bb \<noteq> 0) \<or>
               (push_bit 9 pawn_bb AND NOT FILE_A AND to_bb \<noteq> 0)))
         else
           (drop_bit 8 pawn_bb AND empty AND to_bb \<noteq> 0) \<or>
           (SQ_RANK from = 6 \<and>
              drop_bit 16 pawn_bb AND empty AND drop_bit 8 (empty AND RANK_6) AND to_bb \<noteq> 0) \<or>
           (drop_bit 7 pawn_bb AND NOT FILE_A AND enemies AND to_bb \<noteq> 0) \<or>
           (drop_bit 9 pawn_bb AND NOT FILE_H AND enemies AND to_bb \<noteq> 0) \<or>
           (pos_enpassant pos = int to \<and> pos_enpassant pos \<noteq> - 1 \<and>
              ((drop_bit 7 pawn_bb AND NOT FILE_A AND to_bb \<noteq> 0) \<or>
               (drop_bit 9 pawn_bb AND NOT FILE_H AND to_bb \<noteq> 0))))"

definition movegen_is_pseudo_legal :: "Position \<Rightarrow> Move \<Rightarrow> bool" where
  "movegen_is_pseudo_legal pos move =
     (let from = MOVE_FROM move;
          to = MOVE_TO move;
          color = pos_to_move pos;
          piece = find_piece pos color from
      in if piece = - 1 then False
         else if pos_occupied pos ! color AND sq_bit to \<noteq> 0 then False
         else if piece = int PAWN then pawn_pseudo_legal pos color from to
         else
           (let targets =
                  (if piece = int KNIGHT then knight_attacks from
                   else if piece = int BISHOP then get_bishop_attacks from (pos_all pos)
                   else if piece = int ROOK then get_rook_attacks from (pos_all pos)
                   else if piece = int QUEEN then get_queen_attacks from (pos_all pos)
                   else if piece = int KING then king_attacks from
                   else 0)
            in targets AND sq_bit to \<noteq> 0))"

text \<open>
  \<open>movegen_is_legal\<close> applies the move to a copy of the position and asks whether the side
  that moved is in check. Its undo record is a local whose first content is never read.
\<close>

definition movegen_is_legal :: "Globals \<Rightarrow> Position \<Rightarrow> Move \<Rightarrow> error + bool" where
  "movegen_is_legal g pos move =
     (case position_make_move g pos move blank_undo of
        Inl e \<Rightarrow> Inl e
      | Inr (temp, undo) \<Rightarrow>
          Inr (\<not> position_in_check (temp \<lparr> pos_to_move := pos_to_move temp XOR 1 \<rparr>)))"

section \<open>Staged move picker (movepicker.h, movepicker.c)\<close>

datatype MovePickerStage =
    STAGE_TT_MOVE
  | STAGE_GENERATE_CAPTURES
  | STAGE_GOOD_CAPTURES
  | STAGE_KILLERS
  | STAGE_GENERATE_QUIETS
  | STAGE_QUIETS
  | STAGE_BAD_CAPTURES
  | STAGE_DONE

record ScoredMove =
  sm_move :: Move
  sm_score :: int

text \<open>
  The picker. Each of the arrays \<open>captures[64]\<close>, \<open>bad_captures[64]\<close> and \<open>quiets[256]\<close>
  with its count is the list of the entries stored; \<open>history\<close> is the pointer to the
  \<open>int[6][64]\<close> table of the side to move (\<open>None\<close> is \<open>NULL\<close>).
\<close>

record MovePicker =
  mp_pos :: Position
  mp_tt_move :: Move
  mp_killer1 :: Move
  mp_killer2 :: Move
  mp_countermove :: Move
  mp_history :: "int list option"
  mp_stage :: MovePickerStage
  mp_captures :: "ScoredMove list"
  mp_capture_index :: nat
  mp_bad_captures :: "ScoredMove list"
  mp_bad_capture_index :: nat
  mp_quiets :: "ScoredMove list"
  mp_quiet_index :: nat
  mp_killer_index :: nat
  mp_quiescence_mode :: bool

text \<open>
  \<open>sort_moves\<close> is an insertion sort by descending score. \<open>shift_in key\<close> is its inner
  \<open>while\<close> loop on the sorted prefix read from its right end (the list is that prefix
  reversed): entries of smaller score move one place to the right and the key is put before
  them.
\<close>

fun shift_in :: "ScoredMove \<Rightarrow> ScoredMove list \<Rightarrow> ScoredMove list" where
  "shift_in key [] = [key]"
| "shift_in key (x # xs) =
     (if sm_score x < sm_score key then x # shift_in key xs else key # x # xs)"

definition sort_moves :: "ScoredMove list \<Rightarrow> ScoredMove list" where
  "sort_moves moves = rev (fold shift_in moves [])"

text \<open>
  \<open>score_quiet\<close>. The history table has 6 * 64 entries and is read at
  \<open>piece * 64 + to\<close> with the code of \<open>position_piece_at\<close>; an index past the table is the
  error \<open>IndexOutOfBounds\<close>.
\<close>

definition score_quiet :: "MovePicker \<Rightarrow> Move \<Rightarrow> error + int" where
  "score_quiet mp move =
     (let from = MOVE_FROM move;
          to = MOVE_TO move
      in if move = mp_killer1 mp then Inr 1000000
         else if move = mp_killer2 mp then Inr 900000
         else if move = mp_countermove mp then Inr 800000
         else
           (case mp_history mp of
              None \<Rightarrow> Inr 0
            | Some history \<Rightarrow>
                (let piece = position_piece_at (mp_pos mp) from in
                 if piece \<noteq> - 1 then
                   (if nat (piece * 64 + int to) < length history
                    then Inr (history ! nat (piece * 64 + int to))
                    else Inl IndexOutOfBounds)
                 else Inr 0)))"

definition movepicker_init :: "Position \<Rightarrow> Move \<Rightarrow> Move \<Rightarrow> Move \<Rightarrow> Move \<Rightarrow> int list option \<Rightarrow> MovePicker" where
  "movepicker_init pos tt_move killer1 killer2 countermove history =
     \<lparr> mp_pos = pos, mp_tt_move = tt_move, mp_killer1 = killer1, mp_killer2 = killer2,
       mp_countermove = countermove, mp_history = history, mp_stage = STAGE_TT_MOVE,
       mp_captures = [], mp_capture_index = 0, mp_bad_captures = [], mp_bad_capture_index = 0,
       mp_quiets = [], mp_quiet_index = 0, mp_killer_index = 0, mp_quiescence_mode = False \<rparr>"

definition movepicker_init_quiescence :: "Position \<Rightarrow> Move \<Rightarrow> MovePicker" where
  "movepicker_init_quiescence pos tt_move =
     \<lparr> mp_pos = pos, mp_tt_move = tt_move, mp_killer1 = MOVE_NONE, mp_killer2 = MOVE_NONE,
       mp_countermove = MOVE_NONE, mp_history = None, mp_stage = STAGE_TT_MOVE,
       mp_captures = [], mp_capture_index = 0, mp_bad_captures = [], mp_bad_capture_index = 0,
       mp_quiets = [], mp_quiet_index = 0, mp_killer_index = 0, mp_quiescence_mode = True \<rparr>"

text \<open>
  The test \<open>m != MOVE_NONE && movegen_is_pseudo_legal(pos, m) && movegen_is_legal(pos, m)\<close>
  with C's short-circuit evaluation.
\<close>

definition playable :: "Globals \<Rightarrow> Position \<Rightarrow> Move \<Rightarrow> error + bool" where
  "playable g pos m =
     (if m \<noteq> MOVE_NONE \<and> movegen_is_pseudo_legal pos m then movegen_is_legal g pos m
      else Inr False)"

text \<open>
  The loop of \<open>STAGE_GENERATE_CAPTURES\<close> over the generated captures: the legal ones other
  than the TT move are split by the sign of \<open>see\<close>. Storing a 65th entry would write past
  the array.
\<close>

fun split_captures :: "Globals \<Rightarrow> MovePicker \<Rightarrow> Move list \<Rightarrow> error + MovePicker" where
  "split_captures g mp [] = Inr mp"
| "split_captures g mp (m # rest) =
     (if m = mp_tt_move mp then split_captures g mp rest
      else
        (case movegen_is_legal g (mp_pos mp) m of
           Inl e \<Rightarrow> Inl e
         | Inr False \<Rightarrow> split_captures g mp rest
         | Inr True \<Rightarrow>
             (case see (mp_pos mp) m of
                Inl e \<Rightarrow> Inl e
              | Inr s \<Rightarrow>
                  if s \<ge> 0 then
                    (case score_capture (mp_pos mp) m of
                       Inl e \<Rightarrow> Inl e
                     | Inr c \<Rightarrow>
                         if length (mp_captures mp) \<ge> 64 then Inl IndexOutOfBounds
                         else split_captures g
                                (mp \<lparr> mp_captures := mp_captures mp @
                                        [\<lparr> sm_move = m, sm_score = c + s \<rparr>] \<rparr>) rest)
                  else
                    if length (mp_bad_captures mp) \<ge> 64 then Inl IndexOutOfBounds
                    else split_captures g
                           (mp \<lparr> mp_bad_captures := mp_bad_captures mp @
                                   [\<lparr> sm_move = m, sm_score = s \<rparr>] \<rparr>) rest)))"

text \<open>
  The loop of \<open>STAGE_GENERATE_QUIETS\<close> over all generated moves: the TT move, the killers,
  the countermove, the moves with the capture flag and the illegal moves are skipped, the
  others are stored with their \<open>score_quiet\<close>.
\<close>

fun collect_quiets :: "Globals \<Rightarrow> MovePicker \<Rightarrow> Move list \<Rightarrow> error + MovePicker" where
  "collect_quiets g mp [] = Inr mp"
| "collect_quiets g mp (m # rest) =
     (if m = mp_tt_move mp \<or> m = mp_killer1 mp \<or> m = mp_killer2 mp \<or>
         m = mp_countermove mp \<or> MOVE_IS_CAPTURE m
      then collect_quiets g mp rest
      else
        (case movegen_is_legal g (mp_pos mp) m of
           Inl e \<Rightarrow> Inl e
         | Inr False \<Rightarrow> collect_quiets g mp rest
         | Inr True \<Rightarrow>
             (case score_quiet mp m of
                Inl e \<Rightarrow> Inl e
              | Inr s \<Rightarrow>
                  collect_quiets g
                    (mp \<lparr> mp_quiets := mp_quiets mp @ [\<lparr> sm_move = m, sm_score = s \<rparr>] \<rparr>) rest)))"

text \<open>
  The stages of \<open>movepicker_next\<close>, last first, each falling through to the next as the
  \<open>switch\<close> does. A stage returns the move and the picker after the call.
\<close>

definition stage_done :: "MovePicker \<Rightarrow> error + (Move \<times> MovePicker)" where
  "stage_done mp = Inr (MOVE_NONE, mp)"

definition stage_bad_captures :: "MovePicker \<Rightarrow> error + (Move \<times> MovePicker)" where
  "stage_bad_captures mp =
     (let mp1 = (if mp_bad_capture_index mp = 0 \<and> length (mp_bad_captures mp) > 0
                 then mp \<lparr> mp_bad_captures := sort_moves (mp_bad_captures mp) \<rparr> else mp)
      in if mp_bad_capture_index mp1 < length (mp_bad_captures mp1)
         then Inr (sm_move (mp_bad_captures mp1 ! mp_bad_capture_index mp1),
                   mp1 \<lparr> mp_bad_capture_index := mp_bad_capture_index mp1 + 1 \<rparr>)
         else stage_done (mp1 \<lparr> mp_stage := STAGE_DONE \<rparr>))"

definition stage_quiets :: "MovePicker \<Rightarrow> error + (Move \<times> MovePicker)" where
  "stage_quiets mp =
     (if mp_quiet_index mp < length (mp_quiets mp)
      then Inr (sm_move (mp_quiets mp ! mp_quiet_index mp),
                mp \<lparr> mp_quiet_index := mp_quiet_index mp + 1 \<rparr>)
      else stage_bad_captures (mp \<lparr> mp_stage := STAGE_BAD_CAPTURES \<rparr>))"

definition generate_quiets :: "Globals \<Rightarrow> MovePicker \<Rightarrow> error + MovePicker" where
  "generate_quiets g mp =
     (case movegen_all (mp_pos mp) of
        Inl e \<Rightarrow> Inl e
      | Inr all_moves \<Rightarrow>
          (case collect_quiets g mp all_moves of
             Inl e \<Rightarrow> Inl e
           | Inr mp1 \<Rightarrow>
               Inr (mp1 \<lparr> mp_quiets := sort_moves (mp_quiets mp1), mp_stage := STAGE_QUIETS \<rparr>)))"

definition stage_generate_quiets :: "Globals \<Rightarrow> MovePicker \<Rightarrow> error + (Move \<times> MovePicker)" where
  "stage_generate_quiets g mp =
     (case generate_quiets g mp of Inl e \<Rightarrow> Inl e | Inr mp1 \<Rightarrow> stage_quiets mp1)"

text \<open>The \<open>while (mp->killer_index < 2)\<close> loop and the countermove test after it.\<close>

function stage_killers :: "Globals \<Rightarrow> MovePicker \<Rightarrow> error + (Move \<times> MovePicker)" where
  "stage_killers g mp =
     (if mp_killer_index mp < 2 then
        (let killer = (if mp_killer_index mp = 0 then mp_killer1 mp else mp_killer2 mp);
             mp1 = mp \<lparr> mp_killer_index := mp_killer_index mp + 1 \<rparr>
         in if killer \<noteq> MOVE_NONE \<and> killer \<noteq> mp_tt_move mp1 \<and> \<not> MOVE_IS_CAPTURE killer then
              (case playable g (mp_pos mp1) killer of
                 Inl e \<Rightarrow> Inl e
               | Inr True \<Rightarrow> Inr (killer, mp1)
               | Inr False \<Rightarrow> stage_killers g mp1)
            else stage_killers g mp1)
      else if mp_countermove mp \<noteq> MOVE_NONE \<and> mp_countermove mp \<noteq> mp_tt_move mp \<and>
              mp_countermove mp \<noteq> mp_killer1 mp \<and> mp_countermove mp \<noteq> mp_killer2 mp \<and>
              \<not> MOVE_IS_CAPTURE (mp_countermove mp) then
        (case playable g (mp_pos mp) (mp_countermove mp) of
           Inl e \<Rightarrow> Inl e
         | Inr True \<Rightarrow> Inr (mp_countermove mp, mp \<lparr> mp_stage := STAGE_GENERATE_QUIETS \<rparr>)
         | Inr False \<Rightarrow> stage_generate_quiets g (mp \<lparr> mp_stage := STAGE_GENERATE_QUIETS \<rparr>))
      else stage_generate_quiets g (mp \<lparr> mp_stage := STAGE_GENERATE_QUIETS \<rparr>))"
  by pat_completeness auto
termination
  by (relation "measure (\<lambda>(g, mp). 2 - mp_killer_index mp)") auto

declare stage_killers.simps [simp del]

definition stage_good_captures :: "Globals \<Rightarrow> MovePicker \<Rightarrow> error + (Move \<times> MovePicker)" where
  "stage_good_captures g mp =
     (if mp_capture_index mp < length (mp_captures mp)
      then Inr (sm_move (mp_captures mp ! mp_capture_index mp),
                mp \<lparr> mp_capture_index := mp_capture_index mp + 1 \<rparr>)
      else if mp_quiescence_mode mp then Inr (MOVE_NONE, mp \<lparr> mp_stage := STAGE_DONE \<rparr>)
      else stage_killers g (mp \<lparr> mp_stage := STAGE_KILLERS \<rparr>))"

definition stage_generate_captures :: "Globals \<Rightarrow> MovePicker \<Rightarrow> error + (Move \<times> MovePicker)" where
  "stage_generate_captures g mp =
     (case split_captures g mp (movegen_captures (mp_pos mp)) of
        Inl e \<Rightarrow> Inl e
      | Inr mp1 \<Rightarrow>
          stage_good_captures g
            (mp1 \<lparr> mp_captures := sort_moves (mp_captures mp1), mp_stage := STAGE_GOOD_CAPTURES \<rparr>))"

definition stage_tt_move :: "Globals \<Rightarrow> MovePicker \<Rightarrow> error + (Move \<times> MovePicker)" where
  "stage_tt_move g mp =
     (let mp1 = mp \<lparr> mp_stage := STAGE_GENERATE_CAPTURES \<rparr> in
      case playable g (mp_pos mp1) (mp_tt_move mp1) of
        Inl e \<Rightarrow> Inl e
      | Inr True \<Rightarrow> Inr (mp_tt_move mp1, mp1)
      | Inr False \<Rightarrow> stage_generate_captures g mp1)"

definition movepicker_next :: "Globals \<Rightarrow> MovePicker \<Rightarrow> error + (Move \<times> MovePicker)" where
  "movepicker_next g mp =
     (case mp_stage mp of
        STAGE_TT_MOVE \<Rightarrow> stage_tt_move g mp
      | STAGE_GENERATE_CAPTURES \<Rightarrow> stage_generate_captures g mp
      | STAGE_GOOD_CAPTURES \<Rightarrow> stage_good_captures g mp
      | STAGE_KILLERS \<Rightarrow> stage_killers g mp
      | STAGE_GENERATE_QUIETS \<Rightarrow> stage_generate_quiets g mp
      | STAGE_QUIETS \<Rightarrow> stage_quiets mp
      | STAGE_BAD_CAPTURES \<Rightarrow> stage_bad_captures mp
      | STAGE_DONE \<Rightarrow> stage_done mp)"

text \<open>
  The caller's loop \<open>while ((move = movepicker_next(&mp)) != MOVE_NONE)\<close>: the moves yielded
  within \<open>n\<close> calls, and whether the picker then returned \<open>MOVE_NONE\<close>.
\<close>

fun picker_run :: "Globals \<Rightarrow> nat \<Rightarrow> MovePicker \<Rightarrow> error + (Move list \<times> bool)" where
  "picker_run g 0 mp = Inr ([], False)"
| "picker_run g (Suc n) mp =
     (case movepicker_next g mp of
        Inl e \<Rightarrow> Inl e
      | Inr (m, mp1) \<Rightarrow>
          if m = MOVE_NONE then Inr ([], True)
          else (case picker_run g n mp1 of
                  Inl e \<Rightarrow> Inl e
                | Inr (ms, done) \<Rightarrow> Inr (m # ms, done)))"

text \<open>
  The words of the ordering claim: the quiet score of the specification, the sum of the
  history score, a third of the countermove-history and follow-up-history scores and the
  defensive bonus.
\<close>

definition spec_quiet_score :: "int \<Rightarrow> int \<Rightarrow> int \<Rightarrow> int \<Rightarrow> int" where
  "spec_quiet_score history_score cmh_score fuh_score defensive_bonus =
     history_score + cmh_score sdiv 3 + fuh_score sdiv 3 + defensive_bonus"

text \<open>
  The moves the quiet stage keeps, and the entry of the history table that \<open>score_quiet\<close>
  reads for a move that is none of the killers or the countermove.
\<close>

definition quiet_kept :: "Globals \<Rightarrow> MovePicker \<Rightarrow> Move \<Rightarrow> bool" where
  "quiet_kept g mp m \<longleftrightarrow>
     m \<noteq> mp_tt_move mp \<and> m \<noteq> mp_killer1 mp \<and> m \<noteq> mp_killer2 mp \<and>
     m \<noteq> mp_countermove mp \<and> \<not> MOVE_IS_CAPTURE m \<and>
     movegen_is_legal g (mp_pos mp) m = Inr True"

definition history_entry :: "MovePicker \<Rightarrow> Move \<Rightarrow> int" where
  "history_entry mp m =
     (case mp_history mp of
        None \<Rightarrow> 0
      | Some history \<Rightarrow>
          (let piece = position_piece_at (mp_pos mp) (MOVE_FROM m) in
           if piece \<noteq> - 1 then history ! nat (piece * 64 + int (MOVE_TO m)) else 0))"


section \<open>Search (search.h, search.c, tt.c)\<close>

definition SCORE_INFINITE :: int where "SCORE_INFINITE = 32000"
definition SCORE_MATE :: int where "SCORE_MATE = 31000"

subsection \<open>Transposition table probes\<close>

text \<open>
  \<open>tt_lookup(tt, key, &score, depth, &flag)\<close>: whether the probe succeeds, the values of
  \<open>*score\<close> and \<open>*flag\<close> after the call (those before it where the function does not
  write them) and the table, in which the generation of a matching entry is refreshed.
\<close>

definition tt_lookup :: "TranspositionTable option \<Rightarrow> 64 word \<Rightarrow> Score \<Rightarrow> int \<Rightarrow> int
                          \<Rightarrow> error + (bool \<times> Score \<times> int \<times> TranspositionTable option)" where
  "tt_lookup tt key score0 depth flag0 =
     (case tt of
        None \<Rightarrow> Inr (False, score0, flag0, None)
      | Some t \<Rightarrow>
          (case tt_clusters t of
             None \<Rightarrow> Inr (False, score0, flag0, Some t)
           | Some clusters \<Rightarrow>
               (let index = cluster_index t key in
                if index \<ge> length clusters then Inl IndexOutOfBounds
                else
                  (let cluster = clusters ! index in
                   case find (\<lambda>i. e_key (cluster ! i) = key) [0 ..< length cluster] of
                     None \<Rightarrow> Inr (False, score0, flag0, Some t)
                   | Some i \<Rightarrow>
                       (let entry = (cluster ! i) \<lparr> e_generation := tt_generation t \<rparr>;
                            t' = t \<lparr> tt_clusters := Some (clusters[index := cluster[i := entry]]) \<rparr>
                        in if e_depth entry \<ge> depth
                           then Inr (True, e_score entry, e_flag entry, Some t')
                           else Inr (False, score0, e_flag entry, Some t'))))))"

definition tt_get_best_move :: "TranspositionTable option \<Rightarrow> 64 word \<Rightarrow> error + Move" where
  "tt_get_best_move tt key =
     (case tt of
        None \<Rightarrow> Inr MOVE_NONE
      | Some t \<Rightarrow>
          (case tt_clusters t of
             None \<Rightarrow> Inr MOVE_NONE
           | Some clusters \<Rightarrow>
               (let index = cluster_index t key in
                if index \<ge> length clusters then Inl IndexOutOfBounds
                else
                  (case find (\<lambda>entry. e_key entry = key) (clusters ! index) of
                     None \<Rightarrow> Inr MOVE_NONE
                   | Some entry \<Rightarrow> Inr (e_best_move entry)))))"

subsection \<open>Search state\<close>

text \<open>
  The fields of \<open>SearchState\<close> and of the global \<open>search_stats\<close> that the modelled code
  reads or writes. The collaborators of the search are the globals of the position code, the
  evaluator \<open>evaluate_position\<close> and the clock: \<open>is_time_up\<close> polls a stop flag and the
  time, so its answers are an arbitrary sequence, indexed by the number of polls so far.
\<close>

record SearchStatistics =
  stat_qnodes :: "64 word"
  stat_selective_depth :: int
  stat_singular_extensions :: "64 word"
  stat_futility_prunes :: "64 word"
  stat_lmp_prunes :: "64 word"
  stat_see_prunes :: "64 word"
  stat_razoring_prunes :: "64 word"

record SearchState =
  ss_tt :: "TranspositionTable option"
  ss_qnodes :: int
  ss_tt_hits :: int
  ss_ply :: int
  ss_last_move :: "Move list"
  ss_excluded_move :: Move
  ss_futility_prunes :: int
  ss_lmp_prunes :: int
  ss_see_prunes :: int
  ss_extensions :: int
  ss_time_polls :: nat
  ss_stats :: SearchStatistics

record Collaborators =
  cb_globals :: Globals
  cb_evaluate_position :: "Position \<Rightarrow> Score"
  cb_time_up :: "nat \<Rightarrow> bool"

definition is_time_up :: "Collaborators \<Rightarrow> SearchState \<Rightarrow> bool \<times> SearchState" where
  "is_time_up env st =
     (cb_time_up env (ss_time_polls st), st \<lparr> ss_time_polls := Suc (ss_time_polls st) \<rparr>)"

subsection \<open>Quiescence\<close>

text \<open>The counters at the head of \<open>quiescence\<close>.\<close>

definition count_qnode :: "SearchState \<Rightarrow> SearchState" where
  "count_qnode st =
     (let stats = ss_stats st;
          stats1 = stats \<lparr> stat_qnodes := stat_qnodes stats + 1 \<rparr>;
          stats2 = (if ss_ply st > stat_selective_depth stats1
                    then stats1 \<lparr> stat_selective_depth := ss_ply st \<rparr> else stats1)
      in st \<lparr> ss_qnodes := s32 (ss_qnodes st + 1), ss_stats := stats2 \<rparr>)"

text \<open>
  The transposition-table block of \<open>quiescence\<close>: \<open>Inl\<close> of the score it returns, or
  \<open>Inr\<close> of the window and the TT move with which the function goes on. The locals
  \<open>tt_score\<close> and \<open>tt_flag\<close> are not initialised in the source and are read only after
  a successful probe, which writes both; the model starts them at 0.
\<close>

definition quiescence_probe :: "SearchState \<Rightarrow> Position \<Rightarrow> Score \<Rightarrow> Score
        \<Rightarrow> error + ((Score \<times> SearchState) + (Score \<times> Score \<times> Move \<times> SearchState))" where
  "quiescence_probe st pos alpha beta =
     (case tt_lookup (ss_tt st) (pos_zobrist pos) 0 0 0 of
        Inl e \<Rightarrow> Inl e
      | Inr (hit, tt_score, tt_flag, tt1) \<Rightarrow>
          (let st1 = st \<lparr> ss_tt := tt1 \<rparr> in
           if hit then
             (let st2 = st1 \<lparr> ss_tt_hits := s32 (ss_tt_hits st1 + 1) \<rparr> in
              case tt_get_best_move (ss_tt st2) (pos_zobrist pos) of
                Inl e \<Rightarrow> Inl e
              | Inr tt_move \<Rightarrow>
                  if tt_flag = TT_FLAG_EXACT then Inr (Inl (tt_score, st2))
                  else
                    (let alpha1 = (if tt_flag = TT_FLAG_LOWER
                                   then (if alpha > tt_score then alpha else tt_score) else alpha);
                         beta1 = (if tt_flag = TT_FLAG_UPPER
                                  then (if beta < tt_score then beta else tt_score) else beta)
                     in if alpha1 \<ge> beta1 then Inr (Inl (tt_score, st2))
                        else Inr (Inr (alpha1, beta1, tt_move, st2))))
           else Inr (Inr (alpha, beta, MOVE_NONE, st1))))"

text \<open>
  \<open>quiescence(state, pos, alpha, beta)\<close> and its capture loop. The recursion through the
  captures has no bound in the source; the model counts calls and loop rounds down from its
  first argument and gives \<open>OutOfFuel\<close> at zero. The result is the score, the search state
  and the position after the call (the position is changed in place by apply and undo; the
  picker reads it through its pointer).
\<close>

fun quiescence :: "nat \<Rightarrow> Collaborators \<Rightarrow> SearchState \<Rightarrow> Position \<Rightarrow> Score \<Rightarrow> Score
                    \<Rightarrow> error + (Score \<times> SearchState \<times> Position)"
and quiescence_moves :: "nat \<Rightarrow> Collaborators \<Rightarrow> SearchState \<Rightarrow> Position \<Rightarrow> MovePicker
                    \<Rightarrow> Score \<Rightarrow> Score \<Rightarrow> Move \<Rightarrow> error + (Score \<times> SearchState \<times> Position)"
where
  "quiescence 0 env st pos alpha beta = Inl OutOfFuel"
| "quiescence (Suc n) env st pos alpha beta =
     (let (up, st1) = is_time_up env st in
      if up then Inr (cb_evaluate_position env pos, st1, pos)
      else
        (case quiescence_probe (count_qnode st1) pos alpha beta of
           Inl e \<Rightarrow> Inl e
         | Inr (Inl (tt_score, st3)) \<Rightarrow> Inr (tt_score, st3, pos)
         | Inr (Inr (alpha1, beta1, tt_move, st3)) \<Rightarrow>
             (let stand_pat = cb_evaluate_position env pos in
              if stand_pat \<ge> beta1 then Inr (beta1, st3, pos)
              else if stand_pat + 900 < alpha1 then Inr (alpha1, st3, pos)
              else quiescence_moves n env st3 pos (movepicker_init_quiescence pos tt_move)
                     (if stand_pat > alpha1 then stand_pat else alpha1) beta1 MOVE_NONE)))"
| "quiescence_moves 0 env st pos mp alpha beta best_move = Inl OutOfFuel"
| "quiescence_moves (Suc n) env st pos mp alpha beta best_move =
     (case movepicker_next (cb_globals env) (mp \<lparr> mp_pos := pos \<rparr>) of
        Inl e \<Rightarrow> Inl e
      | Inr (move, mp1) \<Rightarrow>
          if move = MOVE_NONE then
            (case tt_store_with_move (ss_tt st) (pos_zobrist pos) alpha best_move 0 TT_FLAG_EXACT of
               Inl e \<Rightarrow> Inl e
             | Inr tt1 \<Rightarrow> Inr (alpha, st \<lparr> ss_tt := tt1 \<rparr>, pos))
          else
            (case see pos move of
               Inl e \<Rightarrow> Inl e
             | Inr see_val \<Rightarrow>
                 if see_val < 0 then quiescence_moves n env st pos mp1 alpha beta best_move
                 else
                   (case position_make_move (cb_globals env) pos move blank_undo of
                      Inl e \<Rightarrow> Inl e
                    | Inr (pos1, undo) \<Rightarrow>
                        (case quiescence n env st pos1 (s16 (- beta)) (s16 (- alpha)) of
                           Inl e \<Rightarrow> Inl e
                         | Inr (v, st1, pos2) \<Rightarrow>
                             (case position_unmake_move pos2 move undo of
                                Inl e \<Rightarrow> Inl e
                              | Inr pos3 \<Rightarrow>
                                  (let score = s16 (- v);
                                       (up, st2) = is_time_up env st1
                                   in if up then Inr (alpha, st2, pos3)
                                      else if score > alpha then
                                        (if score \<ge> beta then
                                           (case tt_store_with_move (ss_tt st2) (pos_zobrist pos3)
                                                   beta move 0 TT_FLAG_LOWER of
                                              Inl e \<Rightarrow> Inl e
                                            | Inr tt1 \<Rightarrow> Inr (beta, st2 \<lparr> ss_tt := tt1 \<rparr>, pos3))
                                         else quiescence_moves n env st2 pos3 mp1 score beta move)
                                      else quiescence_moves n env st2 pos3 mp1 alpha beta
                                             best_move))))))"

subsection \<open>Singular extension and the move loop of alpha_beta\<close>

text \<open>The depth of the singular test search.\<close>

definition singular_depth :: "int \<Rightarrow> int" where
  "singular_depth depth = (if depth > 10 then depth - 3 else (depth - 1) sdiv 2)"

text \<open>
  The singular-extension block of \<open>alpha_beta\<close>. Its recursive call of \<open>alpha_beta\<close> is the
  argument \<open>alpha_beta\<close>: a function of the search state, the position, the depth and the
  window. The result is the value of \<open>singular_extension\<close> with the state and the position
  after the block.
\<close>

definition singular_extension_block ::
  "(SearchState \<Rightarrow> Position \<Rightarrow> int \<Rightarrow> Score \<Rightarrow> Score \<Rightarrow> error + (Score \<times> SearchState \<times> Position))
     \<Rightarrow> SearchState \<Rightarrow> Position \<Rightarrow> int \<Rightarrow> Move \<Rightarrow> int \<Rightarrow> Score
     \<Rightarrow> error + (int \<times> SearchState \<times> Position)" where
  "singular_extension_block alpha_beta st pos depth tt_move tt_flag tt_score =
     (if ss_ply st > 0 \<and> depth \<ge> 8 \<and> tt_move \<noteq> MOVE_NONE \<and>
         (tt_flag = TT_FLAG_LOWER \<or> tt_flag = TT_FLAG_EXACT) \<and>
         \<bar>tt_score\<bar> < SCORE_MATE - 1000 \<and> ss_excluded_move st = MOVE_NONE then
        (let margin = s32 (2 * depth);
             singular_beta = s16 (tt_score - margin);
             saved_excluded = ss_excluded_move st;
             st1 = st \<lparr> ss_excluded_move := tt_move \<rparr>
         in case alpha_beta st1 pos (singular_depth depth) (s16 (singular_beta - 1)) singular_beta of
              Inl e \<Rightarrow> Inl e
            | Inr (value, st2, pos2) \<Rightarrow>
                (let st3 = st2 \<lparr> ss_excluded_move := saved_excluded \<rparr> in
                 if value < singular_beta then
                   Inr (1, st3 \<lparr> ss_stats := (ss_stats st3)
                                   \<lparr> stat_singular_extensions :=
                                       stat_singular_extensions (ss_stats st3) + 1 \<rparr> \<rparr>, pos2)
                 else Inr (0, st3, pos2)))
      else Inr (0, st, pos))"

text \<open>
  The variables of an \<open>alpha_beta\<close> node that the head of its move loop reads, and what the
  head does with a move from the picker: \<open>continue\<close> with the next move, return a score
  from the node, or search the move with an extension, the move being made on the board.
\<close>

record NodeLocals =
  nl_depth :: int
  nl_alpha :: Score
  nl_beta :: Score
  nl_is_pv :: bool
  nl_in_check :: bool
  nl_static_eval :: Score
  nl_can_futility :: bool
  nl_base_extension :: int
  nl_tt_move :: Move
  nl_singular_extension :: int
  nl_legal_moves :: int

datatype MoveGate =
    Gate_Continue SearchState Position
  | Gate_Return Score SearchState Position
  | Gate_Search int SearchState Position UndoInfo

text \<open>The razoring block inside the loop: \<open>Some\<close> of what the node returns.\<close>

definition loop_razoring :: "nat \<Rightarrow> Collaborators \<Rightarrow> SearchState \<Rightarrow> Position \<Rightarrow> NodeLocals
                              \<Rightarrow> error + ((Score \<times> SearchState \<times> Position) + (SearchState \<times> Position))" where
  "loop_razoring fuel env st pos nl =
     (if \<not> nl_is_pv nl \<and> \<not> nl_in_check nl \<and> nl_depth nl \<le> 3 \<and>
         nl_static_eval nl \<noteq> - SCORE_INFINITE \<and>
         nl_static_eval nl < nl_beta nl - (350 + nl_depth nl * 150) \<and> nl_depth nl \<le> 1 then
        (case quiescence fuel env st pos (nl_alpha nl) (nl_beta nl) of
           Inl e \<Rightarrow> Inl e
         | Inr (val, st1, pos1) \<Rightarrow>
             (case (if val > nl_alpha nl
                    then quiescence fuel env st1 pos1 val (nl_beta nl)
                    else Inr (val, st1, pos1)) of
                Inl e \<Rightarrow> Inl e
              | Inr (val2, st2, pos2) \<Rightarrow>
                  if val2 < nl_beta nl then
                    Inr (Inl (val2,
                              st2 \<lparr> ss_stats := (ss_stats st2)
                                      \<lparr> stat_razoring_prunes :=
                                          stat_razoring_prunes (ss_stats st2) + 1 \<rparr> \<rparr>, pos2))
                  else Inr (Inr (st2, pos2))))
      else Inr (Inr (st, pos)))"

text \<open>
  The extension of a move: singular, recapture and pawn push to the seventh rank, each from the
  extension so far.
\<close>

definition count_extension :: "SearchState \<Rightarrow> SearchState" where
  "count_extension st = st \<lparr> ss_extensions := s32 (ss_extensions st + 1) \<rparr>"

definition singular_move_extension :: "SearchState \<Rightarrow> NodeLocals \<Rightarrow> Move \<Rightarrow> int \<times> SearchState" where
  "singular_move_extension st nl move =
     (if move = nl_tt_move nl \<and> nl_singular_extension nl \<noteq> 0
      then (1, count_extension st) else (nl_base_extension nl, st))"

definition recapture_extension :: "SearchState \<Rightarrow> NodeLocals \<Rightarrow> Move \<Rightarrow> int
                                    \<Rightarrow> error + (int \<times> SearchState)" where
  "recapture_extension st nl move extension =
     (if ss_ply st > 0 \<and> MOVE_IS_CAPTURE move then
        (if nat (ss_ply st - 1) \<ge> length (ss_last_move st) then Inl IndexOutOfBounds
         else
           (let last = ss_last_move st ! nat (ss_ply st - 1) in
            if last \<noteq> MOVE_NONE \<and> MOVE_TO last = MOVE_TO move \<and> extension = 0 \<and>
               nl_depth nl < 8
            then Inr (1, count_extension st) else Inr (extension, st)))
      else Inr (extension, st))"

definition pawn_push_extension :: "SearchState \<Rightarrow> Position \<Rightarrow> Move \<Rightarrow> int \<Rightarrow> int
                                    \<Rightarrow> int \<times> SearchState" where
  "pawn_push_extension st pos move moving_piece extension =
     (if moving_piece = int PAWN \<and> extension = 0 \<and>
         ((pos_to_move pos = WHITE \<and> SQ_RANK (MOVE_TO move) = 6) \<or>
          (pos_to_move pos = BLACK \<and> SQ_RANK (MOVE_TO move) = 1))
      then (1, count_extension st) else (extension, st))"

definition move_extension :: "SearchState \<Rightarrow> Position \<Rightarrow> NodeLocals \<Rightarrow> Move \<Rightarrow> int
                               \<Rightarrow> error + (int \<times> SearchState)" where
  "move_extension st pos nl move moving_piece =
     (case singular_move_extension st nl move of
        (extension1, st1) \<Rightarrow>
          (case recapture_extension st1 nl move extension1 of
             Inl e \<Rightarrow> Inl e
           | Inr (extension2, st2) \<Rightarrow>
               Inr (pawn_push_extension st2 pos move moving_piece extension2)))"

text \<open>
  The head of the move loop of \<open>alpha_beta\<close> for one move of the picker, from the search for
  the moving piece to the test that the move leaves the mover's king safe.
\<close>

definition move_loop_gate :: "nat \<Rightarrow> Collaborators \<Rightarrow> SearchState \<Rightarrow> Position \<Rightarrow> NodeLocals \<Rightarrow> Move
                               \<Rightarrow> error + MoveGate" where
  "move_loop_gate fuel env st pos nl move =
     (let from_sq = MOVE_FROM move;
          moving_piece = find_piece pos (pos_to_move pos) from_sq;
          is_capture = MOVE_IS_CAPTURE move;
          is_promotion = MOVE_PROMO move > 0
      in if moving_piece = - 1 then Inr (Gate_Continue st pos)
         else if nl_can_futility nl \<and> \<not> is_capture \<and> \<not> is_promotion \<and> nl_legal_moves nl > 0 then
           Inr (Gate_Continue
                  (st \<lparr> ss_futility_prunes := s32 (ss_futility_prunes st + 1),
                        ss_stats := (ss_stats st) \<lparr> stat_futility_prunes :=
                                        stat_futility_prunes (ss_stats st) + 1 \<rparr> \<rparr>) pos)
         else
           (case loop_razoring fuel env st pos nl of
              Inl e \<Rightarrow> Inl e
            | Inr (Inl (val, st1, pos1)) \<Rightarrow> Inr (Gate_Return val st1 pos1)
            | Inr (Inr (st1, pos1)) \<Rightarrow>
                if \<not> nl_is_pv nl \<and> \<not> nl_in_check nl \<and> nl_depth nl \<le> 7 \<and> \<not> is_capture \<and>
                   \<not> is_promotion \<and> nl_legal_moves nl > 0 \<and>
                   nl_legal_moves nl > 3 + 2 * nl_depth nl * nl_depth nl then
                  Inr (Gate_Continue
                         (st1 \<lparr> ss_lmp_prunes := s32 (ss_lmp_prunes st1 + 1),
                                ss_stats := (ss_stats st1) \<lparr> stat_lmp_prunes :=
                                                stat_lmp_prunes (ss_stats st1) + 1 \<rparr> \<rparr>) pos1)
                else
                  (case (if \<not> nl_is_pv nl \<and> nl_depth nl \<le> 4 \<and> \<not> nl_in_check nl \<and>
                            \<not> is_capture \<and> nl_legal_moves nl > 0
                         then (case see pos1 move of
                                 Inl e \<Rightarrow> Inl e
                               | Inr see_val \<Rightarrow> Inr (see_val < - 50 * nl_depth nl))
                         else Inr False) of
                     Inl e \<Rightarrow> Inl e
                   | Inr True \<Rightarrow>
                       Inr (Gate_Continue
                              (st1 \<lparr> ss_see_prunes := s32 (ss_see_prunes st1 + 1),
                                     ss_stats := (ss_stats st1) \<lparr> stat_see_prunes :=
                                                     stat_see_prunes (ss_stats st1) + 1 \<rparr> \<rparr>) pos1)
                   | Inr False \<Rightarrow>
                       (case move_extension st1 pos1 nl move moving_piece of
                          Inl e \<Rightarrow> Inl e
                        | Inr (extension, st2) \<Rightarrow>
                            (case position_make_move (cb_globals env) pos1 move blank_undo of
                               Inl e \<Rightarrow> Inl e
                             | Inr (pos2, undo) \<Rightarrow>
                                 if position_in_check (pos2 \<lparr> pos_to_move := pos_to_move pos2 XOR 1 \<rparr>)
                                 then (case position_unmake_move pos2 move undo of
                                         Inl e \<Rightarrow> Inl e
                                       | Inr pos3 \<Rightarrow> Inr (Gate_Continue st2 pos3))
                                 else Inr (Gate_Search extension st2 pos2 undo))))))"

text \<open>
  The assignment \<open>state->excluded_move = m\<close> applied to the state inside the result of
  \<open>quiescence\<close> and inside the outcome of the loop head: used to state that neither reads
  the field.
\<close>

definition result_with_excluded_move :: "Move \<Rightarrow> error + (Score \<times> SearchState \<times> Position)
                                          \<Rightarrow> error + (Score \<times> SearchState \<times> Position)" where
  "result_with_excluded_move m r =
     (case r of
        Inl e \<Rightarrow> Inl e
      | Inr (v, st, pos) \<Rightarrow> Inr (v, st \<lparr> ss_excluded_move := m \<rparr>, pos))"

definition gate_with_excluded_move :: "Move \<Rightarrow> error + MoveGate \<Rightarrow> error + MoveGate" where
  "gate_with_excluded_move m r =
     (case r of
        Inl e \<Rightarrow> Inl e
      | Inr (Gate_Continue st pos) \<Rightarrow> Inr (Gate_Continue (st \<lparr> ss_excluded_move := m \<rparr>) pos)
      | Inr (Gate_Return v st pos) \<Rightarrow> Inr (Gate_Return v (st \<lparr> ss_excluded_move := m \<rparr>) pos)
      | Inr (Gate_Search extension st pos undo) \<Rightarrow>
          Inr (Gate_Search extension (st \<lparr> ss_excluded_move := m \<rparr>) pos undo))"

section \<open>Example positions\<close>

text \<open>Globals with NNUE switched off and Zobrist keys that differ from feature to feature.\<close>

definition plain_globals :: Globals where
  "plain_globals =
     \<lparr> zobrist_piece = (\<lambda>color piece sq. of_nat (1 + sq + 64 * piece + 384 * color)),
       zobrist_castle = (\<lambda>c. of_int (1000 + c)),
       zobrist_enpassant = (\<lambda>file. of_nat (2000 + file)),
       zobrist_to_move = 3000,
       nnue_available = False,
       nnue_refresh_accumulator = (\<lambda>pos. pos_accumulator pos),
       nnue_update_accumulator = (\<lambda>acc piece color sq add w_king b_king. acc) \<rparr>"

text \<open>
  \<open>7k/8/8/8/4p3/3N4/8/K7 b - - 0 1\<close>: the black pawn on e4 can take the white knight on d3,
  which nothing defends.
\<close>

definition pawn_takes_knight_position :: Position where
  "pawn_takes_knight_position =
     \<lparr> pos_pieces = [0, sq_bit 19, 0, 0, 0, sq_bit 0, sq_bit 28, 0, 0, 0, 0, sq_bit 63],
       pos_occupied = [sq_bit 19 OR sq_bit 0, sq_bit 28 OR sq_bit 63],
       pos_all = sq_bit 19 OR sq_bit 0 OR sq_bit 28 OR sq_bit 63,
       pos_to_move = BLACK, pos_castling = 0, pos_enpassant = - 1, pos_halfmove = 0,
       pos_fullmove = 1, pos_castling_rooks = [7, 0, 63, 56], pos_zobrist = 0,
       pos_pawn_hash = 0, pos_accumulator = empty_accumulator \<rparr>"

definition pawn_takes_knight :: Move where
  "pawn_takes_knight = MAKE_MOVE 28 19 0 FLAG_CAPTURE"

text \<open>
  \<open>4k3/8/8/3n4/8/4N3/8/4K3 w - - 0 1\<close>: the white knight on e3 can take the black knight on d5.
\<close>

definition knight_takes_knight_position :: Position where
  "knight_takes_knight_position =
     \<lparr> pos_pieces = [0, sq_bit 20, 0, 0, 0, sq_bit 4, 0, sq_bit 35, 0, 0, 0, sq_bit 60],
       pos_occupied = [sq_bit 20 OR sq_bit 4, sq_bit 35 OR sq_bit 60],
       pos_all = sq_bit 20 OR sq_bit 4 OR sq_bit 35 OR sq_bit 60,
       pos_to_move = WHITE, pos_castling = 0, pos_enpassant = - 1, pos_halfmove = 0,
       pos_fullmove = 1, pos_castling_rooks = [7, 0, 63, 56], pos_zobrist = 0,
       pos_pawn_hash = 0, pos_accumulator = empty_accumulator \<rparr>"

definition knight_takes_knight :: Move where
  "knight_takes_knight = MAKE_MOVE 20 35 0 FLAG_CAPTURE"

text \<open>\<open>4k3/8/8/8/8/8/8/4K3 b - - 0 1\<close> and the black king move e8-e7.\<close>

definition bare_kings_position :: Position where
  "bare_kings_position =
     \<lparr> pos_pieces = [0, 0, 0, 0, 0, sq_bit 4, 0, 0, 0, 0, 0, sq_bit 60],
       pos_occupied = [sq_bit 4, sq_bit 60],
       pos_all = sq_bit 4 OR sq_bit 60,
       pos_to_move = BLACK, pos_castling = 0, pos_enpassant = - 1, pos_halfmove = 0,
       pos_fullmove = 1, pos_castling_rooks = [7, 0, 63, 56],
       pos_zobrist = 325 XOR 765 XOR 1000 XOR 3000,
       pos_pawn_hash = 0, pos_accumulator = empty_accumulator \<rparr>"

definition king_e8_e7 :: Move where
  "king_e8_e7 = MAKE_MOVE 60 52 0 FLAG_QUIET"

text \<open>
  \<open>4k3/8/8/8/8/7p/7P/4K2R w K - 0 1\<close>: White may castle king side; the move is encoded
  king square to rook square with the special flag. White has eight legal moves: two of the
  rook, five of the king and the castling move.
\<close>

definition castling_position :: Position where
  "castling_position =
     \<lparr> pos_pieces = [sq_bit 15, 0, 0, sq_bit 7, 0, sq_bit 4, sq_bit 23, 0, 0, 0, 0, sq_bit 60],
       pos_occupied = [sq_bit 15 OR sq_bit 7 OR sq_bit 4, sq_bit 23 OR sq_bit 60],
       pos_all = sq_bit 15 OR sq_bit 7 OR sq_bit 4 OR sq_bit 23 OR sq_bit 60,
       pos_to_move = WHITE, pos_castling = 1, pos_enpassant = - 1, pos_halfmove = 0,
       pos_fullmove = 1, pos_castling_rooks = [7, 0, 63, 56], pos_zobrist = 0,
       pos_pawn_hash = 0, pos_accumulator = empty_accumulator \<rparr>"

definition castle_kingside :: Move where
  "castle_kingside = MAKE_MOVE 4 7 0 FLAG_SPECIAL"

text \<open>
  \<open>8/8/8/8/8/8/8/K6k w - - 0 1\<close>: the white king in the corner has the three quiet moves
  b1, a2 and b2. In the history table of White the king's move to b2 has the score 10.
\<close>

definition corner_king_position :: Position where
  "corner_king_position =
     \<lparr> pos_pieces = [0, 0, 0, 0, 0, sq_bit 0, 0, 0, 0, 0, 0, sq_bit 7],
       pos_occupied = [sq_bit 0, sq_bit 7],
       pos_all = sq_bit 0 OR sq_bit 7,
       pos_to_move = WHITE, pos_castling = 0, pos_enpassant = - 1, pos_halfmove = 0,
       pos_fullmove = 1, pos_castling_rooks = [7, 0, 63, 56], pos_zobrist = 0,
       pos_pawn_hash = 0, pos_accumulator = empty_accumulator \<rparr>"

definition king_a1_b1 :: Move where "king_a1_b1 = MAKE_MOVE 0 1 0 FLAG_QUIET"
definition king_a1_a2 :: Move where "king_a1_a2 = MAKE_MOVE 0 8 0 FLAG_QUIET"
definition king_a1_b2 :: Move where "king_a1_b2 = MAKE_MOVE 0 9 0 FLAG_QUIET"

definition corner_king_history :: "int list" where
  "corner_king_history = (replicate 384 0)[KING * 64 + 9 := 10]"

definition corner_king_picker :: MovePicker where
  "corner_king_picker =
     (movepicker_init corner_king_position MOVE_NONE MOVE_NONE MOVE_NONE MOVE_NONE
        (Some corner_king_history)) \<lparr> mp_stage := STAGE_GENERATE_QUIETS \<rparr>"

text \<open>
  Collaborators with the evaluator fixed to 100 centipawns and a clock that never runs out; a
  search state at ply 1 without a transposition table.
\<close>

definition steady_collaborators :: Collaborators where
  "steady_collaborators =
     \<lparr> cb_globals = plain_globals, cb_evaluate_position = (\<lambda>pos. 100),
       cb_time_up = (\<lambda>n. False) \<rparr>"

definition zero_statistics :: SearchStatistics where
  "zero_statistics =
     \<lparr> stat_qnodes = 0, stat_selective_depth = 0, stat_singular_extensions = 0,
       stat_futility_prunes = 0, stat_lmp_prunes = 0, stat_see_prunes = 0,
       stat_razoring_prunes = 0 \<rparr>"

definition fresh_search_state :: SearchState where
  "fresh_search_state =
     \<lparr> ss_tt = None, ss_qnodes = 0, ss_tt_hits = 0, ss_ply = 1,
       ss_last_move = replicate 128 MOVE_NONE, ss_excluded_move = MOVE_NONE,
       ss_futility_prunes = 0, ss_lmp_prunes = 0, ss_see_prunes = 0, ss_extensions = 0,
       ss_time_polls = 0, ss_stats = zero_statistics \<rparr>"



text \<open>
  \<open>4k3/8/8/3p4/8/4N3/8/4K3 w - - 0 1\<close>: the white knight on e3 can take the black pawn on d5,
  which nothing defends.
\<close>

definition knight_takes_pawn_position :: Position where
  "knight_takes_pawn_position =
     \<lparr> pos_pieces = [0, sq_bit 20, 0, 0, 0, sq_bit 4, sq_bit 35, 0, 0, 0, 0, sq_bit 60],
       pos_occupied = [sq_bit 20 OR sq_bit 4, sq_bit 35 OR sq_bit 60],
       pos_all = sq_bit 20 OR sq_bit 4 OR sq_bit 35 OR sq_bit 60,
       pos_to_move = WHITE, pos_castling = 0, pos_enpassant = - 1, pos_halfmove = 0,
       pos_fullmove = 1, pos_castling_rooks = [7, 0, 63, 56], pos_zobrist = 0,
       pos_pawn_hash = 0, pos_accumulator = empty_accumulator \<rparr>"

definition knight_takes_pawn :: Move where
  "knight_takes_pawn = MAKE_MOVE 20 35 0 FLAG_CAPTURE"

text \<open>
  \<open>4k3/8/8/8/3Pp3/8/8/4K3 b - d3 0 1\<close>: the black pawn on e4 can take the white pawn on d4
  en passant, moving to d3; the generator flags the move as a capture.
\<close>

definition en_passant_position :: Position where
  "en_passant_position =
     \<lparr> pos_pieces = [sq_bit 27, 0, 0, 0, 0, sq_bit 4, sq_bit 28, 0, 0, 0, 0, sq_bit 60],
       pos_occupied = [sq_bit 27 OR sq_bit 4, sq_bit 28 OR sq_bit 60],
       pos_all = sq_bit 27 OR sq_bit 4 OR sq_bit 28 OR sq_bit 60,
       pos_to_move = BLACK, pos_castling = 0, pos_enpassant = 19, pos_halfmove = 0,
       pos_fullmove = 1, pos_castling_rooks = [7, 0, 63, 56], pos_zobrist = 0,
       pos_pawn_hash = 0, pos_accumulator = empty_accumulator \<rparr>"

definition pawn_takes_en_passant :: Move where
  "pawn_takes_en_passant = MAKE_MOVE 28 19 0 FLAG_CAPTURE"

text \<open>
  The quiet stage for Black in the position of the two kings, with a history table of
  6 * 64 zeros.
\<close>

definition black_king_picker :: MovePicker where
  "black_king_picker =
     (movepicker_init bare_kings_position MOVE_NONE MOVE_NONE MOVE_NONE MOVE_NONE
        (Some (replicate 384 0))) \<lparr> mp_stage := STAGE_GENERATE_QUIETS \<rparr>"

section \<open>Properties\<close>

subsection \<open>Evaluation on concrete positions\<close>

text \<open>
  The rules that evaluate the model on a concrete position: the definitions, the recursion
  equations on numerals, and weak congruence rules so that a bound term is evaluated before the
  body that uses it.
\<close>

lemma ctz_rec: "0 < n \<Longrightarrow> ctz n bb = (if bit bb 0 then 0 else Suc (ctz (n - 1) (drop_bit 1 bb)))"
  by (cases n) auto

lemmas bitboard_eval =
  sq_bit_def SQ_def SQ_FILE_def SQ_RANK_def LSB_def ctz_rec bb_squares.simps
  get_rook_attacks_def get_bishop_attacks_def get_queen_attacks_def diagonal_def
  leaper_attacks_def knight_attacks_def king_attacks_def
  RANK_3_def RANK_6_def FILE_A_def FILE_H_def upt_conv_Cons Let_def
  MOVE_FROM_def MOVE_TO_def MOVE_PROMO_def MOVE_FLAG_def MAKE_MOVE_def
  MOVE_IS_CAPTURE_def MOVE_IS_SPECIAL_def piece_types_def

lemmas position_eval =
  pieces_def position_piece_at_def position_piece_at_loop_def find_piece_def
  position_set_piece_def position_remove_piece_def position_move_piece_def
  position_in_check_def save_undo_def rook_captured_rights_def handle_capture_def
  handle_enpassant_def mover_rights_def castle_is_kingside_def castle_king_to_def
  castle_rook_to_def move_the_piece_def handle_promotion_def update_enpassant_def
  update_counters_def update_nnue_def position_make_move_def restore_pieces_def
  restore_captured_def sync_occupied_def position_unmake_move_def make_unmake_def
  blank_undo_def empty_accumulator_def plain_globals_def s32_def

lemmas movegen_eval =
  add_move_def add_promo_def add_pawn_moves_def add_enpassant_def pawn_captures_def
  pawn_pushes_def piece_moves_def piece_captures_def path_blocked.simps square_attacked_def
  path_attacked.simps castling_move_def king_moves_def movegen_all_def movegen_captures_def
  pawn_pseudo_legal_def movegen_is_pseudo_legal_def movegen_is_legal_def

lemmas picker_eval =
  sort_moves_def score_quiet_def movepicker_init_def movepicker_init_quiescence_def
  playable_def stage_done_def stage_bad_captures_def stage_quiets_def generate_quiets_def
  stage_generate_quiets_def stage_killers.simps stage_good_captures_def
  stage_generate_captures_def stage_tt_move_def movepicker_next_def

lemmas see_eval =
  see_values_def see_value_at_def get_attackers_def smallest_attacker_def xray_attackers_def
  see_loop.simps see_def see_ge_def piece_value_def PIECE_VALUES_def piece_values_at_def
  score_capture_def undefended_def s16_def

lemma picker_run_rec:
  "0 < n \<Longrightarrow> picker_run g n mp =
     (case movepicker_next g mp of
        Inl e \<Rightarrow> Inl e
      | Inr (m, mp1) \<Rightarrow>
          if m = MOVE_NONE then Inr ([], True)
          else (case picker_run g (n - 1) mp1 of
                  Inl e \<Rightarrow> Inl e
                | Inr (ms, done) \<Rightarrow> Inr (m # ms, done)))"
  by (cases n) (simp_all cong: sum.case_cong prod.case_cong if_cong)

lemmas eval_cong =
  let_weak_cong sum.case_cong_weak option.case_cong_weak prod.case_cong_weak
  bool.case_cong_weak MovePickerStage.case_cong_weak


lemmas castling_eval =
  picker_run_rec bitboard_eval position_eval movegen_eval see_eval picker_eval
  castling_position_def castle_kingside_def


lemmas examples_eval =
  bitboard_eval position_eval see_eval
  pawn_takes_knight_position_def pawn_takes_knight_def
  knight_takes_knight_position_def knight_takes_knight_def
  bare_kings_position_def king_e8_e7_def

subsection \<open>Time manager\<close>

lemma mod_wrap_low: "0 \<le> (a::int) \<Longrightarrow> a < m \<Longrightarrow> a mod m = a"
  by (rule mod_pos_pos_trivial)

lemma mod_wrap_high:
  assumes "m \<le> (a::int)" "a < 2 * m"
  shows "a mod m = a - m"
proof -
  have "(a - m) mod m = a mod m" by (rule minus_mod_self2)
  moreover have "(a - m) mod m = a - m" using assms by (intro mod_pos_pos_trivial) auto
  ultimately show ?thesis by simp
qed

lemma s32_zero_iff:
  assumes "- 2147483648 \<le> y" "y < 4294967296"
  shows "s32 y = 0 \<longleftrightarrow> y = 0"
proof (cases "y < 2147483648")
  case True
  have "(y + 2147483648) mod 4294967296 = y + 2147483648"
    by (rule mod_wrap_low) (use assms True in auto)
  then show ?thesis unfolding s32_def by linarith
next
  case False
  have "(y + 2147483648) mod 4294967296 = y + 2147483648 - 4294967296"
    by (rule mod_wrap_high) (use assms False in auto)
  then show ?thesis unfolding s32_def using False assms by linarith
qed

lemma moves_to_go_divisor_nonzero:
  assumes "is_int32 m" "m \<noteq> - 3"
  shows "s32 (estimate_moves_to_go m g + 3) \<noteq> 0"
proof -
  have "- 2147483648 \<le> estimate_moves_to_go m g + 3"
       "estimate_moves_to_go m g + 3 < 4294967296"
       "estimate_moves_to_go m g + 3 \<noteq> 0"
    using assms by (auto simp: estimate_moves_to_go_def is_int32_def)
  then show ?thesis
    by (simp add: s32_zero_iff)
qed

lemma time_bounds_alloc_ge: "50 \<le> allocated_time (time_bounds r b)"
  by (simp add: time_bounds_def Let_def)

lemma time_bounds_alloc_le: "allocated_time (time_bounds r b) \<le> max 50 (r sdiv 2)"
  by (simp add: time_bounds_def Let_def)

lemma time_bounds_max_le:
  "max_time (time_bounds r b) \<le> max (allocated_time (time_bounds r b)) (r - 50)"
  by (simp add: time_bounds_def Let_def)

lemma sdiv2_nonneg: "0 \<le> r \<Longrightarrow> (r::int) sdiv 2 = r div 2"
  by (simp add: signed_divide_int_def sgn_if)

lemma time_bounds_100:
  assumes "100 \<le> r"
  shows "allocated_time (time_bounds r b) \<le> r sdiv 2" "max_time (time_bounds r b) \<le> r - 50"
  using assms by (auto simp add: time_bounds_def Let_def sdiv2_nonneg)

lemma allocate_time_returns:
  assumes "tc_movetime tc \<le> 0" "tc_infinite tc = 0" "0 < remaining_clock tc to_move"
    "is_int32 (tc_movestogo tc)" "tc_movestogo tc \<noteq> - 3"
  shows "\<exists>b. allocate_time tc to_move phase last_score
              = Inr (time_bounds (remaining_clock tc to_move) b)"
proof -
  let ?m = "estimate_moves_to_go (tc_movestogo tc) (get_game_phase_for_time phase)"
  have "s32 (?m + 3) \<noteq> 0"
    using assms(4,5) by (rule moves_to_go_divisor_nonzero)
  then show ?thesis using assms(1,2,3)
    by (auto simp: allocate_time_def remaining_clock_def Let_def)
qed

text \<open>
  C8, as the code has it. With no fixed move time, not infinite, a positive remaining clock and
  a \<open>movestogo\<close> other than -3 (the divisor \<open>moves_to_go + 3\<close> is then not zero),
  \<open>allocate_time\<close> returns an allocation whose allocated time is at least 50 ms and at most the
  larger of 50 ms and half the remaining clock, and whose maximum time is at most the larger of
  the allocated time and the remaining clock minus 50 ms. The 50 ms floor is applied after the
  half-clock cap, so it wins below 100 ms; from 100 ms of remaining clock on, the allocated time
  is at most half the clock and the maximum time at most the clock minus 50 ms.
\<close>

theorem allocate_time_bounds:
  assumes "tc_movetime tc \<le> 0" and "tc_infinite tc = 0"
    and "0 < remaining_clock tc to_move"
    and "is_int32 (tc_movestogo tc)" and "tc_movestogo tc \<noteq> - 3"
  shows "\<exists>r. allocate_time tc to_move phase last_score = Inr r \<and>
             50 \<le> allocated_time r \<and>
             allocated_time r \<le> max 50 (remaining_clock tc to_move sdiv 2) \<and>
             max_time r \<le> max (allocated_time r) (remaining_clock tc to_move - 50) \<and>
             (100 \<le> remaining_clock tc to_move \<longrightarrow>
                allocated_time r \<le> remaining_clock tc to_move sdiv 2 \<and>
                max_time r \<le> remaining_clock tc to_move - 50)"
proof -
  obtain b where "allocate_time tc to_move phase last_score
                    = Inr (time_bounds (remaining_clock tc to_move) b)"
    using allocate_time_returns [OF assms] by blast
  then show ?thesis
    using time_bounds_alloc_ge time_bounds_alloc_le time_bounds_max_le time_bounds_100
    by auto
qed

lemmas allocate_time_eval =
  allocate_time_def Let_def get_game_phase_for_time_def estimate_moves_to_go_def s32_def
  phase_adjust_def score_adjust_def emergency_adjust_def time_bounds_def signed_divide_int_def
  remaining_clock_def is_int32_def

theorem allocate_time_bounds_witness:
  "allocate_time \<lparr> tc_wtime = 60000, tc_btime = 60000, tc_winc = 1000, tc_binc = 1000,
        tc_movestogo = 0, tc_movetime = 0, tc_depth = 0, tc_infinite = 0, tc_ponder = 0,
        tc_ponder_move = 0 \<rparr> WHITE 128 0
     = Inr \<lparr> allocated_time = 2892, max_time = 8676, optimal_time = 2892, panic_time = 964 \<rparr>
   \<and> (\<exists>r. allocate_time \<lparr> tc_wtime = 60000, tc_btime = 60000, tc_winc = 1000, tc_binc = 1000,
        tc_movestogo = 0, tc_movetime = 0, tc_depth = 0, tc_infinite = 0, tc_ponder = 0,
        tc_ponder_move = 0 \<rparr> WHITE 128 0 = Inr r \<and> 50 \<le> allocated_time r \<and>
        allocated_time r \<le> 30000 \<and> max_time r \<le> 59950)"
  using allocate_time_bounds [of "\<lparr> tc_wtime = 60000, tc_btime = 60000, tc_winc = 1000,
        tc_binc = 1000, tc_movestogo = 0, tc_movetime = 0, tc_depth = 0, tc_infinite = 0,
        tc_ponder = 0, tc_ponder_move = 0 \<rparr>" WHITE 128 0]
  by (simp add: allocate_time_eval)

text \<open>
  The claim as stated fails below 100 ms: with 60 ms on White's clock the allocated time is
  50 ms, more than half the clock, and the maximum time is 50 ms, more than the 10 ms that
  the clock minus 50 ms leaves.
\<close>

theorem allocate_time_small_clock_counterexample:
  "case allocate_time \<lparr> tc_wtime = 60, tc_btime = 0, tc_winc = 0, tc_binc = 0,
        tc_movestogo = 0, tc_movetime = 0, tc_depth = 0, tc_infinite = 0, tc_ponder = 0,
        tc_ponder_move = 0 \<rparr> WHITE 128 0 of
     Inl e \<Rightarrow> False
   | Inr r \<Rightarrow> \<not> allocated_time r \<le> 60 sdiv 2 \<and> \<not> max_time r \<le> 60 - 50"
  by (simp add: allocate_time_eval)

subsection \<open>Worker pool vote\<close>

lemma vote_helpers_result:
  "vote_helpers (m0, s0) hs = (m, s) \<Longrightarrow>
     s0 \<le> s \<and>
     ((m, s) = (m0, s0) \<or>
      (\<exists>h\<in>set hs. m = th_best_move h \<and> s = th_best_score h \<and>
                   th_best_move h \<noteq> MOVE_NONE \<and> th_best_score h > s0 + 50))"
proof (induction hs arbitrary: m0 s0)
  case Nil
  then show ?case by simp
next
  case (Cons h hs)
  show ?case
  proof (cases "th_best_move h \<noteq> MOVE_NONE \<and> th_best_score h > s0 + 50")
    case True
    with Cons.prems have "vote_helpers (th_best_move h, th_best_score h) hs = (m, s)" by simp
    from Cons.IH [OF this] True show ?thesis by auto
  next
    case False
    with Cons.prems have "vote_helpers (m0, s0) hs = (m, s)" by auto
    from Cons.IH [OF this] show ?thesis by auto
  qed
qed

lemma vote_helpers_dominates:
  "vote_helpers (m0, s0) hs = (m, s) \<Longrightarrow>
     \<forall>h\<in>set hs. th_best_move h \<noteq> MOVE_NONE \<longrightarrow> th_best_score h \<le> s + 50"
proof (induction hs arbitrary: m0 s0)
  case Nil
  then show ?case by simp
next
  case (Cons h hs)
  show ?case
  proof (cases "th_best_move h \<noteq> MOVE_NONE \<and> th_best_score h > s0 + 50")
    case True
    with Cons.prems have r: "vote_helpers (th_best_move h, th_best_score h) hs = (m, s)" by simp
    from vote_helpers_result [OF r] have "th_best_score h \<le> s" by simp
    with Cons.IH [OF r] show ?thesis by auto
  next
    case False
    with Cons.prems have r: "vote_helpers (m0, s0) hs = (m, s)" by auto
    from vote_helpers_result [OF r] have "s0 \<le> s" by simp
    with Cons.IH [OF r] False show ?thesis by auto
  qed
qed

lemma vote_helpers_keep:
  "\<forall>h\<in>set hs. th_best_move h = MOVE_NONE \<or> th_best_score h \<le> s0 + 50 \<Longrightarrow>
     vote_helpers (m0, s0) hs = (m0, s0)"
  by (induction hs) auto

text \<open>
  One more helper at the end of the pool: it is compared with the selection the loop holds
  after the helpers before it.
\<close>

lemma vote_helpers_snoc:
  "vote_helpers sel (hs @ [h]) =
     (if th_best_move h \<noteq> MOVE_NONE \<and> th_best_score h > snd (vote_helpers sel hs) + 50
      then (th_best_move h, th_best_score h) else vote_helpers sel hs)"
proof (induction hs arbitrary: sel)
  case Nil
  show ?case by (cases sel) simp
next
  case (Cons a hs)
  obtain m s where sel: "sel = (m, s)" by (cases sel)
  show ?case unfolding sel using Cons.IH by simp
qed

text \<open>
  C7, as the code has it. The vote starts from the main worker's move and score and visits the
  helpers in index order, each compared with the selection current at its turn: after the
  helpers \<open>hs\<close> and then \<open>h\<close>, the selected move and score are those of \<open>h\<close> exactly when the
  move of \<open>h\<close> is not \<open>NONE\<close> and its score is more than 50 above the score selected after
  \<open>hs\<close> (a lead of exactly 50 does not switch), and those selected after \<open>hs\<close> otherwise;
  with no helper they are the main worker's. These equations determine the result for every
  pool. Consequences: with one helper the result is that helper's move under this condition
  against the main worker and the main worker's otherwise; with no helper leading the main
  worker by more than 50 the main worker's move is returned; and the returned move is always
  the main worker's or that of a helper with a move other than \<open>NONE\<close> that leads the main
  worker by more than 50.
\<close>

theorem threads_start_search_vote:
  "threads_start_search main [] = th_best_move main
   \<and> snd (vote_helpers (th_best_move main, th_best_score main) []) = th_best_score main
   \<and> threads_start_search main (hs @ [h]) =
       (if th_best_move h \<noteq> MOVE_NONE \<and>
           th_best_score h > snd (vote_helpers (th_best_move main, th_best_score main) hs) + 50
        then th_best_move h else threads_start_search main hs)
   \<and> snd (vote_helpers (th_best_move main, th_best_score main) (hs @ [h])) =
       (if th_best_move h \<noteq> MOVE_NONE \<and>
           th_best_score h > snd (vote_helpers (th_best_move main, th_best_score main) hs) + 50
        then th_best_score h
        else snd (vote_helpers (th_best_move main, th_best_score main) hs))
   \<and> threads_start_search main [h] =
      (if th_best_move h \<noteq> MOVE_NONE \<and> th_best_score h > th_best_score main + 50
       then th_best_move h else th_best_move main)
   \<and> ((\<forall>t\<in>set helpers. th_best_move t = MOVE_NONE \<or> th_best_score t \<le> th_best_score main + 50)
        \<longrightarrow> threads_start_search main helpers = th_best_move main)
   \<and> (threads_start_search main helpers = th_best_move main \<or>
        (\<exists>t\<in>set helpers. threads_start_search main helpers = th_best_move t \<and>
            th_best_move t \<noteq> MOVE_NONE \<and> th_best_score t > th_best_score main + 50))"
proof -
  obtain m s where r: "vote_helpers (th_best_move main, th_best_score main) helpers = (m, s)"
    by (cases "vote_helpers (th_best_move main, th_best_score main) helpers") auto
  have n: "threads_start_search main [] = th_best_move main
    \<and> snd (vote_helpers (th_best_move main, th_best_score main) []) = th_best_score main"
    by (simp add: threads_start_search_def)
  have s: "threads_start_search main (hs @ [h]) =
       (if th_best_move h \<noteq> MOVE_NONE \<and>
           th_best_score h > snd (vote_helpers (th_best_move main, th_best_score main) hs) + 50
        then th_best_move h else threads_start_search main hs)"
    by (simp add: threads_start_search_def vote_helpers_snoc)
  have t: "snd (vote_helpers (th_best_move main, th_best_score main) (hs @ [h])) =
       (if th_best_move h \<noteq> MOVE_NONE \<and>
           th_best_score h > snd (vote_helpers (th_best_move main, th_best_score main) hs) + 50
        then th_best_score h
        else snd (vote_helpers (th_best_move main, th_best_score main) hs))"
    by (simp add: vote_helpers_snoc)
  have a: "threads_start_search main [h] =
      (if th_best_move h \<noteq> MOVE_NONE \<and> th_best_score h > th_best_score main + 50
       then th_best_move h else th_best_move main)"
    by (simp add: threads_start_search_def)
  have b: "(\<forall>t\<in>set helpers. th_best_move t = MOVE_NONE \<or> th_best_score t \<le> th_best_score main + 50)
        \<longrightarrow> threads_start_search main helpers = th_best_move main"
    by (simp add: threads_start_search_def vote_helpers_keep)
  have c: "threads_start_search main helpers = th_best_move main \<or>
        (\<exists>t\<in>set helpers. threads_start_search main helpers = th_best_move t \<and>
            th_best_move t \<noteq> MOVE_NONE \<and> th_best_score t > th_best_score main + 50)"
    using vote_helpers_result [OF r] r by (auto simp: threads_start_search_def)
  from n s t a b c show ?thesis by blast
qed

theorem threads_start_search_vote_witness:
  "threads_start_search \<lparr> th_best_move = 1, th_best_score = 0 \<rparr>
      [\<lparr> th_best_move = 2, th_best_score = 51 \<rparr>, \<lparr> th_best_move = 3, th_best_score = 101 \<rparr>,
       \<lparr> th_best_move = 4, th_best_score = 152 \<rparr>] = 4
   \<and> threads_start_search \<lparr> th_best_move = 1, th_best_score = 0 \<rparr>
      [\<lparr> th_best_move = 2, th_best_score = 51 \<rparr>] = 2
   \<and> threads_start_search \<lparr> th_best_move = 1, th_best_score = 0 \<rparr>
      [\<lparr> th_best_move = 2, th_best_score = 30 \<rparr>, \<lparr> th_best_move = 0, th_best_score = 500 \<rparr>] = 1"
  using threads_start_search_vote [of "\<lparr> th_best_move = 1, th_best_score = 0 \<rparr>"
      "[\<lparr> th_best_move = 2, th_best_score = 51 \<rparr>, \<lparr> th_best_move = 3, th_best_score = 101 \<rparr>]"
      "\<lparr> th_best_move = 4, th_best_score = 152 \<rparr>"
      "[\<lparr> th_best_move = 2, th_best_score = 30 \<rparr>, \<lparr> th_best_move = 0, th_best_score = 500 \<rparr>]"]
    threads_start_search_vote [of "\<lparr> th_best_move = 1, th_best_score = 0 \<rparr>"
      "[]" "\<lparr> th_best_move = 2, th_best_score = 51 \<rparr>" "[]"]
  by simp

text \<open>
  The claim as stated fails at a lead of exactly 50: the helper's move is not \<open>NONE\<close> and its
  score is at least 50 better, and the main worker's move is returned.
\<close>

theorem threads_start_search_exactly_50_counterexample:
  "th_best_move \<lparr> th_best_move = 2, th_best_score = 50 \<rparr> \<noteq> MOVE_NONE
   \<and> th_best_score \<lparr> th_best_move = 2, th_best_score = 50 \<rparr>
        \<ge> th_best_score \<lparr> th_best_move = 1, th_best_score = 0 \<rparr> + 50
   \<and> threads_start_search \<lparr> th_best_move = 1, th_best_score = 0 \<rparr>
        [\<lparr> th_best_move = 2, th_best_score = 50 \<rparr>] = 1"
  by (simp add: threads_start_search_def)

subsection \<open>Transposition table\<close>

lemma first_pass_Inl:
  "first_pass c key gen i acc = Inl j \<Longrightarrow>
     i \<le> j \<and> j - i < length c \<and> e_key (c ! (j - i)) = key \<and> (\<forall>k<j - i. e_key (c ! k) \<noteq> key)"
proof (induction c arbitrary: i acc)
  case Nil
  then show ?case by simp
next
  case (Cons e es)
  obtain re rv where acc: "acc = (re, rv)" by (cases acc)
  show ?case
  proof (cases "e_key e = key")
    case True
    with Cons.prems acc show ?thesis by simp
  next
    case False
    with Cons.prems acc obtain acc' where "first_pass es key gen (Suc i) acc' = Inl j"
      by (auto simp: Let_def split: if_splits)
    from Cons.IH [OF this]
    have h: "Suc i \<le> j" "j - Suc i < length es" "e_key (es ! (j - Suc i)) = key"
      "\<forall>k<j - Suc i. e_key (es ! k) \<noteq> key" by auto
    have eq: "j - i = Suc (j - Suc i)" using h(1) by simp
    show ?thesis using h False unfolding eq
      by (auto simp: nth_Cons split: nat.splits)
  qed
qed

lemma first_pass_match:
  "i < length c \<Longrightarrow> e_key (c ! i) = key \<Longrightarrow> \<forall>k<i. e_key (c ! k) \<noteq> key \<Longrightarrow>
     first_pass c key gen n acc = Inl (n + i)"
proof (induction c arbitrary: i n acc)
  case Nil
  then show ?case by simp
next
  case (Cons e es)
  obtain re rv where acc: "acc = (re, rv)" by (cases acc)
  show ?case
  proof (cases i)
    case 0
    with Cons.prems acc show ?thesis by simp
  next
    case (Suc i')
    with Cons.prems have ne: "e_key e \<noteq> key" by auto
    have "first_pass es key gen (Suc n) a = Inl (Suc n + i')" for a
      using Cons.prems Suc by (intro Cons.IH) auto
    then show ?thesis using ne acc Suc by (simp add: Let_def)
  qed
qed

lemma first_pass_Inr:
  "first_pass c key gen i (re, rv) = Inr (re', rv') \<Longrightarrow>
     (\<forall>e\<in>set c. e_key e \<noteq> key) \<and> rv' \<le> rv \<and>
     (\<forall>k<length c. rv' \<le> replacement_value (c ! k) gen) \<and>
     ((re' = re \<and> rv' = rv) \<or>
      (\<exists>k<length c. re' = Some (i + k) \<and> rv' = replacement_value (c ! k) gen \<and> rv' < rv \<and>
          (\<forall>k'<k. rv' < replacement_value (c ! k') gen)))"
proof (induction c arbitrary: i re rv)
  case Nil
  then show ?case by simp
next
  case (Cons e es)
  from Cons.prems have ne: "e_key e \<noteq> key" by (auto split: if_splits)
  let ?v = "replacement_value e gen"
  show ?case
  proof (cases "?v < rv")
    case True
    with Cons.prems ne have r: "first_pass es key gen (Suc i) (Some i, ?v) = Inr (re', rv')"
      by (simp add: Let_def)
    from Cons.IH [OF r] have ih:
      "\<forall>e\<in>set es. e_key e \<noteq> key" "rv' \<le> ?v" "\<forall>k<length es. rv' \<le> replacement_value (es ! k) gen"
      "(re' = Some i \<and> rv' = ?v) \<or>
        (\<exists>k<length es. re' = Some (Suc i + k) \<and> rv' = replacement_value (es ! k) gen \<and> rv' < ?v \<and>
          (\<forall>k'<k. rv' < replacement_value (es ! k') gen))" by auto
    have a: "\<forall>k<length (e # es). rv' \<le> replacement_value ((e # es) ! k) gen"
      using ih(2,3) by (auto simp: nth_Cons split: nat.splits)
    from ih(4) have b: "\<exists>k<length (e # es). re' = Some (i + k) \<and>
         rv' = replacement_value ((e # es) ! k) gen \<and> rv' < rv \<and>
          (\<forall>k'<k. rv' < replacement_value ((e # es) ! k') gen)"
    proof
      assume "re' = Some i \<and> rv' = ?v"
      then show ?thesis using True by (intro exI [of _ 0]) simp
    next
      assume "\<exists>k<length es. re' = Some (Suc i + k) \<and> rv' = replacement_value (es ! k) gen \<and> rv' < ?v \<and>
          (\<forall>k'<k. rv' < replacement_value (es ! k') gen)"
      then obtain k where k: "k < length es" "re' = Some (Suc i + k)"
        "rv' = replacement_value (es ! k) gen" "rv' < ?v"
        "\<forall>k'<k. rv' < replacement_value (es ! k') gen" by blast
      show ?thesis
        using k True by (intro exI [of _ "Suc k"]) (auto simp: nth_Cons split: nat.splits)
    qed
    show ?thesis using ne ih(1,2) True a b by auto
  next
    case False
    with Cons.prems ne have r: "first_pass es key gen (Suc i) (re, rv) = Inr (re', rv')"
      by (simp add: Let_def)
    from Cons.IH [OF r] have ih:
      "\<forall>e\<in>set es. e_key e \<noteq> key" "rv' \<le> rv" "\<forall>k<length es. rv' \<le> replacement_value (es ! k) gen"
      "(re' = re \<and> rv' = rv) \<or>
        (\<exists>k<length es. re' = Some (Suc i + k) \<and> rv' = replacement_value (es ! k) gen \<and> rv' < rv \<and>
          (\<forall>k'<k. rv' < replacement_value (es ! k') gen))" by auto
    have a: "\<forall>k<length (e # es). rv' \<le> replacement_value ((e # es) ! k) gen"
      using ih(2,3) False by (auto simp: nth_Cons split: nat.splits)
    from ih(4) have b: "(re' = re \<and> rv' = rv) \<or> (\<exists>k<length (e # es). re' = Some (i + k) \<and>
         rv' = replacement_value ((e # es) ! k) gen \<and> rv' < rv \<and>
          (\<forall>k'<k. rv' < replacement_value ((e # es) ! k') gen))"
    proof
      assume "re' = re \<and> rv' = rv"
      then show ?thesis by simp
    next
      assume "\<exists>k<length es. re' = Some (Suc i + k) \<and> rv' = replacement_value (es ! k) gen \<and> rv' < rv \<and>
          (\<forall>k'<k. rv' < replacement_value (es ! k') gen)"
      then obtain k where k: "k < length es" "re' = Some (Suc i + k)"
        "rv' = replacement_value (es ! k) gen" "rv' < rv"
        "\<forall>k'<k. rv' < replacement_value (es ! k') gen" by blast
      have "\<exists>k<length (e # es). re' = Some (i + k) \<and>
         rv' = replacement_value ((e # es) ! k) gen \<and> rv' < rv \<and>
          (\<forall>k'<k. rv' < replacement_value ((e # es) ! k') gen)"
        using k False by (intro exI [of _ "Suc k"]) (auto simp: nth_Cons split: nat.splits)
      then show ?thesis by simp
    qed
    show ?thesis using ne ih(1,2) a b by auto
  qed
qed

lemma first_pass_no_match:
  "\<forall>e\<in>set c. e_key e \<noteq> key \<Longrightarrow> \<exists>r. first_pass c key gen i acc = Inr r"
proof (induction c arbitrary: i acc)
  case Nil then show ?case by simp
next
  case (Cons e es)
  obtain re rv where acc: "acc = (re, rv)" by (cases acc)
  show ?case using Cons acc by (auto simp: Let_def)
qed


lemma second_pass_result:
  "second_pass c gen w0 i (sw, sv) = (sw', sv') \<Longrightarrow>
     sv' \<le> sv \<and>
     (\<forall>k<length c. i + k \<noteq> w0 \<longrightarrow> sv' \<le> replacement_value (c ! k) gen) \<and>
     ((sw' = sw \<and> sv' = sv) \<or>
      (\<exists>k<length c. i + k \<noteq> w0 \<and> sw' = Some (i + k) \<and> sv' = replacement_value (c ! k) gen \<and>
          sv' < sv \<and> (\<forall>k'<k. i + k' \<noteq> w0 \<longrightarrow> sv' < replacement_value (c ! k') gen)))"
proof (induction c arbitrary: i sw sv)
  case Nil
  then show ?case by simp
next
  case (Cons e es)
  let ?v = "replacement_value e gen"
  consider (skip) "i = w0" | (less) "i \<noteq> w0" "?v < sv" | (keep) "i \<noteq> w0" "\<not> ?v < sv" by blast
  then show ?case
  proof cases
    case skip
    with Cons.prems have r: "second_pass es gen w0 (Suc i) (sw, sv) = (sw', sv')" by simp
    from Cons.IH [OF r] have ih: "sv' \<le> sv"
      "\<forall>k<length es. Suc i + k \<noteq> w0 \<longrightarrow> sv' \<le> replacement_value (es ! k) gen"
      "(sw' = sw \<and> sv' = sv) \<or>
      (\<exists>k<length es. Suc i + k \<noteq> w0 \<and> sw' = Some (Suc i + k) \<and> sv' = replacement_value (es ! k) gen \<and>
          sv' < sv \<and> (\<forall>k'<k. Suc i + k' \<noteq> w0 \<longrightarrow> sv' < replacement_value (es ! k') gen))" by auto
    have a: "\<forall>k<length (e # es). i + k \<noteq> w0 \<longrightarrow> sv' \<le> replacement_value ((e # es) ! k) gen"
      using ih(2) skip by (auto simp: nth_Cons split: nat.splits)
    from ih(3) have b: "(sw' = sw \<and> sv' = sv) \<or>
      (\<exists>k<length (e # es). i + k \<noteq> w0 \<and> sw' = Some (i + k) \<and>
          sv' = replacement_value ((e # es) ! k) gen \<and>
          sv' < sv \<and> (\<forall>k'<k. i + k' \<noteq> w0 \<longrightarrow> sv' < replacement_value ((e # es) ! k') gen))"
    proof
      assume "sw' = sw \<and> sv' = sv" then show ?thesis by simp
    next
      assume "\<exists>k<length es. Suc i + k \<noteq> w0 \<and> sw' = Some (Suc i + k) \<and> sv' = replacement_value (es ! k) gen \<and>
          sv' < sv \<and> (\<forall>k'<k. Suc i + k' \<noteq> w0 \<longrightarrow> sv' < replacement_value (es ! k') gen)"
      then obtain k where k: "k < length es" "Suc i + k \<noteq> w0" "sw' = Some (Suc i + k)"
        "sv' = replacement_value (es ! k) gen" "sv' < sv"
        "\<forall>k'<k. Suc i + k' \<noteq> w0 \<longrightarrow> sv' < replacement_value (es ! k') gen" by blast
      have "\<exists>k<length (e # es). i + k \<noteq> w0 \<and> sw' = Some (i + k) \<and>
          sv' = replacement_value ((e # es) ! k) gen \<and>
          sv' < sv \<and> (\<forall>k'<k. i + k' \<noteq> w0 \<longrightarrow> sv' < replacement_value ((e # es) ! k') gen)"
        using k skip by (intro exI [of _ "Suc k"]) (auto simp: nth_Cons split: nat.splits)
      then show ?thesis by simp
    qed
    show ?thesis using ih(1) a b by blast
  next
    case less
    with Cons.prems have r: "second_pass es gen w0 (Suc i) (Some i, ?v) = (sw', sv')"
      by (simp add: Let_def)
    from Cons.IH [OF r] have ih: "sv' \<le> ?v"
      "\<forall>k<length es. Suc i + k \<noteq> w0 \<longrightarrow> sv' \<le> replacement_value (es ! k) gen"
      "(sw' = Some i \<and> sv' = ?v) \<or>
      (\<exists>k<length es. Suc i + k \<noteq> w0 \<and> sw' = Some (Suc i + k) \<and> sv' = replacement_value (es ! k) gen \<and>
          sv' < ?v \<and> (\<forall>k'<k. Suc i + k' \<noteq> w0 \<longrightarrow> sv' < replacement_value (es ! k') gen))" by auto
    have a: "\<forall>k<length (e # es). i + k \<noteq> w0 \<longrightarrow> sv' \<le> replacement_value ((e # es) ! k) gen"
      using ih(1,2) by (auto simp: nth_Cons split: nat.splits)
    from ih(3) have b: "\<exists>k<length (e # es). i + k \<noteq> w0 \<and> sw' = Some (i + k) \<and>
          sv' = replacement_value ((e # es) ! k) gen \<and>
          sv' < sv \<and> (\<forall>k'<k. i + k' \<noteq> w0 \<longrightarrow> sv' < replacement_value ((e # es) ! k') gen)"
    proof
      assume "sw' = Some i \<and> sv' = ?v"
      then show ?thesis using less by (intro exI [of _ 0]) simp
    next
      assume "\<exists>k<length es. Suc i + k \<noteq> w0 \<and> sw' = Some (Suc i + k) \<and> sv' = replacement_value (es ! k) gen \<and>
          sv' < ?v \<and> (\<forall>k'<k. Suc i + k' \<noteq> w0 \<longrightarrow> sv' < replacement_value (es ! k') gen)"
      then obtain k where k: "k < length es" "Suc i + k \<noteq> w0" "sw' = Some (Suc i + k)"
        "sv' = replacement_value (es ! k) gen" "sv' < ?v"
        "\<forall>k'<k. Suc i + k' \<noteq> w0 \<longrightarrow> sv' < replacement_value (es ! k') gen" by blast
      show ?thesis
        using k less by (intro exI [of _ "Suc k"]) (auto simp: nth_Cons split: nat.splits)
    qed
    show ?thesis using ih(1) less a b by auto
  next
    case keep
    with Cons.prems have r: "second_pass es gen w0 (Suc i) (sw, sv) = (sw', sv')"
      by (simp add: Let_def)
    from Cons.IH [OF r] have ih: "sv' \<le> sv"
      "\<forall>k<length es. Suc i + k \<noteq> w0 \<longrightarrow> sv' \<le> replacement_value (es ! k) gen"
      "(sw' = sw \<and> sv' = sv) \<or>
      (\<exists>k<length es. Suc i + k \<noteq> w0 \<and> sw' = Some (Suc i + k) \<and> sv' = replacement_value (es ! k) gen \<and>
          sv' < sv \<and> (\<forall>k'<k. Suc i + k' \<noteq> w0 \<longrightarrow> sv' < replacement_value (es ! k') gen))" by auto
    have a: "\<forall>k<length (e # es). i + k \<noteq> w0 \<longrightarrow> sv' \<le> replacement_value ((e # es) ! k) gen"
      using ih(1,2) keep by (auto simp: nth_Cons split: nat.splits)
    from ih(3) have b: "(sw' = sw \<and> sv' = sv) \<or>
      (\<exists>k<length (e # es). i + k \<noteq> w0 \<and> sw' = Some (i + k) \<and>
          sv' = replacement_value ((e # es) ! k) gen \<and>
          sv' < sv \<and> (\<forall>k'<k. i + k' \<noteq> w0 \<longrightarrow> sv' < replacement_value ((e # es) ! k') gen))"
    proof
      assume "sw' = sw \<and> sv' = sv" then show ?thesis by simp
    next
      assume "\<exists>k<length es. Suc i + k \<noteq> w0 \<and> sw' = Some (Suc i + k) \<and> sv' = replacement_value (es ! k) gen \<and>
          sv' < sv \<and> (\<forall>k'<k. Suc i + k' \<noteq> w0 \<longrightarrow> sv' < replacement_value (es ! k') gen)"
      then obtain k where k: "k < length es" "Suc i + k \<noteq> w0" "sw' = Some (Suc i + k)"
        "sv' = replacement_value (es ! k) gen" "sv' < sv"
        "\<forall>k'<k. Suc i + k' \<noteq> w0 \<longrightarrow> sv' < replacement_value (es ! k') gen" by blast
      have "\<exists>k<length (e # es). i + k \<noteq> w0 \<and> sw' = Some (i + k) \<and>
          sv' = replacement_value ((e # es) ! k) gen \<and>
          sv' < sv \<and> (\<forall>k'<k. i + k' \<noteq> w0 \<longrightarrow> sv' < replacement_value ((e # es) ! k') gen)"
        using k keep by (intro exI [of _ "Suc k"]) (auto simp: nth_Cons split: nat.splits)
      then show ?thesis by simp
    qed
    show ?thesis using ih(1) a b by blast
  qed
qed

lemma replacement_value_bound:
  assumes "entry_ok e" "0 \<le> gen" "gen \<le> 255"
  shows "replacement_value e gen < 1000000"
  using assms by (auto simp: replacement_value_def entry_ok_def Let_def)

lemma cluster_ok_nth: "cluster_ok c \<Longrightarrow> k < length c \<Longrightarrow> entry_ok (c ! k)"
  by (simp add: cluster_ok_def list_all_length)

lemma first_pass_worst:
  assumes ok: "cluster_ok c" and gen: "0 \<le> gen" "gen \<le> 255"
    and nm: "\<forall>e\<in>set c. e_key e \<noteq> key"
  shows "\<exists>w. first_pass c key gen 0 (None, 1000000) = Inr (Some w, replacement_value (c ! w) gen)
             \<and> first_worst c gen w"
proof -
  obtain re rv where r: "first_pass c key gen 0 (None, 1000000) = Inr (re, rv)"
    using first_pass_no_match [OF nm, of gen 0 "(None, 1000000)"] by (cases) auto
  have len: "0 < length c" using ok by (simp add: cluster_ok_def)
  from first_pass_Inr [OF r] have le: "\<forall>k<length c. rv \<le> replacement_value (c ! k) gen"
    and alt: "(re = None \<and> rv = 1000000) \<or>
      (\<exists>k<length c. re = Some (0 + k) \<and> rv = replacement_value (c ! k) gen \<and> rv < 1000000 \<and>
          (\<forall>k'<k. rv < replacement_value (c ! k') gen))" by auto
  have "rv \<le> replacement_value (c ! 0) gen" using le len by blast
  moreover have "replacement_value (c ! 0) gen < 1000000"
    using replacement_value_bound [OF cluster_ok_nth [OF ok len] gen] .
  ultimately have "rv \<noteq> 1000000" by simp
  with alt obtain k where k: "k < length c" "re = Some k" "rv = replacement_value (c ! k) gen"
    "\<forall>k'<k. rv < replacement_value (c ! k') gen" by auto
  have "first_worst c gen k" using k le by (auto simp: first_worst_def)
  with r k show ?thesis by auto
qed

lemma choose_victim_plain:
  "\<not> protected_entry (c ! w) gen depth flag \<Longrightarrow> choose_victim c gen depth flag w = w"
  by (auto simp: choose_victim_def protected_entry_def Let_def)

lemma choose_victim_protected:
  assumes ok: "cluster_ok c" and gen: "0 \<le> gen" "gen \<le> 255"
    and w: "w < length c" and p: "protected_entry (c ! w) gen depth flag"
  shows "first_worst_except c gen w (choose_victim c gen depth flag w)"
proof -
  obtain sw sv where r: "second_pass c gen w 0 (None, 1000000) = (sw, sv)"
    by (cases "second_pass c gen w 0 (None, 1000000)") auto
  have len: "length c = 4" using ok by (simp add: cluster_ok_def)
  from second_pass_result [OF r] have
    le: "\<forall>k<length c. k \<noteq> w \<longrightarrow> sv \<le> replacement_value (c ! k) gen"
    and alt: "(sw = None \<and> sv = 1000000) \<or>
      (\<exists>k<length c. k \<noteq> w \<and> sw = Some k \<and> sv = replacement_value (c ! k) gen \<and>
          sv < 1000000 \<and> (\<forall>k'<k. k' \<noteq> w \<longrightarrow> sv < replacement_value (c ! k') gen))" by auto
  obtain j where j: "j < length c" "j \<noteq> w"
  proof (cases "w = 0")
    case True then show ?thesis using that [of 1] len by simp
  next
    case False then show ?thesis using that [of 0] len by simp
  qed
  have "sv \<le> replacement_value (c ! j) gen" using le j by blast
  moreover have "replacement_value (c ! j) gen < 1000000"
    using replacement_value_bound [OF cluster_ok_nth [OF ok j(1)] gen] .
  ultimately have "sv \<noteq> 1000000" by simp
  with alt obtain k where k: "k < length c" "k \<noteq> w" "sw = Some k"
    "sv = replacement_value (c ! k) gen"
    "\<forall>k'<k. k' \<noteq> w \<longrightarrow> sv < replacement_value (c ! k') gen" by auto
  have cv: "choose_victim c gen depth flag w = k"
    using p r k(3) by (simp add: choose_victim_def protected_entry_def Let_def)
  show ?thesis unfolding cv using k le by (auto simp: first_worst_except_def)
qed

lemma store_in_cluster_match:
  assumes "i < length c" "e_key (c ! i) = key" "\<forall>k<i. e_key (c ! k) \<noteq> key"
  shows "store_in_cluster c gen key score best_move depth flag =
     (if depth \<ge> e_depth (c ! i) \<or> (flag = TT_FLAG_EXACT \<and> e_flag (c ! i) \<noteq> TT_FLAG_EXACT)
      then (c[i := write_entry key score
                    (if best_move = MOVE_NONE then e_best_move (c ! i) else best_move)
                    depth flag gen], False)
      else (c, False))"
proof -
  have "first_pass c key gen 0 (None, 1000000) = Inl (0 + i)"
    using assms by (rule first_pass_match)
  then show ?thesis by (auto simp: store_in_cluster_def Let_def)
qed

lemma store_in_cluster_replace:
  assumes ok: "cluster_ok c" and gen: "0 \<le> gen" "gen \<le> 255"
    and nm: "\<forall>e\<in>set c. e_key e \<noteq> key"
  shows "\<exists>w v. first_worst c gen w \<and>
           (if protected_entry (c ! w) gen depth flag then first_worst_except c gen w v else v = w) \<and>
           store_in_cluster c gen key score best_move depth flag =
             (c[v := write_entry key score best_move depth flag gen], e_key (c ! v) = 0)"
proof -
  obtain w where w: "first_pass c key gen 0 (None, 1000000) = Inr (Some w, replacement_value (c ! w) gen)"
    "first_worst c gen w"
    using first_pass_worst [OF ok gen nm] by blast
  let ?v = "choose_victim c gen depth flag w"
  have wl: "w < length c" using w(2) by (simp add: first_worst_def)
  have "if protected_entry (c ! w) gen depth flag then first_worst_except c gen w ?v else ?v = w"
    using choose_victim_plain choose_victim_protected [OF ok gen wl] by auto
  moreover have "store_in_cluster c gen key score best_move depth flag =
             (c[?v := write_entry key score best_move depth flag gen], e_key (c ! ?v) = 0)"
    using w(1) by (simp add: store_in_cluster_def Let_def)
  ultimately show ?thesis using w(2) by blast
qed

lemma cluster_index_in_range:
  assumes "n = 2 ^ k" "k < 64"
  shows "unat (key AND (n - 1)) < unat (n :: 64 word)"
proof -
  have "key AND (n - 1) = key AND mask k" using assms by (simp add: mask_eq_decr_exp)
  moreover have "key AND mask k < 2 ^ k" using assms(2) by (intro and_mask_less') simp
  ultimately show ?thesis using assms(1) by (simp add: word_less_nat_alt)
qed


lemma tt_store_with_move_cluster:
  assumes "tt_clusters t = Some clusters" "cluster_index t key < length clusters"
  shows "tt_store_with_move (Some t) key score best_move depth flag =
     Inr (Some (t\<lparr> tt_clusters := Some (clusters[cluster_index t key :=
                      fst (store_in_cluster (clusters ! cluster_index t key) (tt_generation t)
                             key score best_move depth flag)]),
                  tt_count := (if snd (store_in_cluster (clusters ! cluster_index t key)
                                         (tt_generation t) key score best_move depth flag)
                               then tt_count t + 1 else tt_count t) \<rparr>))"
  using assms by (simp add: tt_store_with_move_def Let_def split_beta)

text \<open>
  C3, as the code has it. On a table as \<open>tt_create\<close> builds it (a power-of-two number of
  clusters of four entries, fields in the range of their C types), \<open>tt_store_with_move\<close>
  changes only the cluster at \<open>key & (num_clusters - 1)\<close>. If an entry of that cluster holds
  the key, the first such entry is rewritten exactly when the new depth is at least the stored
  depth or the new flag is exact and the stored flag is not, keeping the stored best move when
  the incoming one is \<open>NONE\<close>, and nothing else changes. Otherwise the first entry of least
  replacement value (an empty slot counting as -1000) is overwritten, unless that entry is
  protected (exact, current generation, deeper than the incoming depth by more than 3, incoming
  not exact): then the first entry of least replacement value among the other three is
  overwritten, whatever that entry is. The count grows when the overwritten slot was empty.
\<close>

theorem tt_store_with_move_policy:
  assumes "tt_clusters t = Some clusters"
    and "length clusters = unat (tt_num_clusters t)"
    and "tt_num_clusters t = 2 ^ k" and "k < 64"
    and "\<forall>c\<in>set clusters. cluster_ok c"
    and "0 \<le> tt_generation t" and "tt_generation t \<le> 255"
  shows "cluster_index t key < length clusters \<and>
    (\<exists>c' filled.
       tt_store_with_move (Some t) key score best_move depth flag =
         Inr (Some (t\<lparr> tt_clusters := Some (clusters[cluster_index t key := c']),
                      tt_count := (if filled then tt_count t + 1 else tt_count t) \<rparr>)) \<and>
       (\<forall>i<TT_CLUSTER_SIZE.
          e_key (clusters ! cluster_index t key ! i) = key \<and>
          (\<forall>j<i. e_key (clusters ! cluster_index t key ! j) \<noteq> key) \<longrightarrow>
          \<not> filled \<and>
          c' = (if depth \<ge> e_depth (clusters ! cluster_index t key ! i) \<or>
                   (flag = TT_FLAG_EXACT \<and>
                    e_flag (clusters ! cluster_index t key ! i) \<noteq> TT_FLAG_EXACT)
                then (clusters ! cluster_index t key)
                       [i := write_entry key score
                          (if best_move = MOVE_NONE
                           then e_best_move (clusters ! cluster_index t key ! i)
                           else best_move) depth flag (tt_generation t)]
                else clusters ! cluster_index t key)) \<and>
       ((\<forall>e\<in>set (clusters ! cluster_index t key). e_key e \<noteq> key) \<longrightarrow>
          (\<exists>w v. first_worst (clusters ! cluster_index t key) (tt_generation t) w \<and>
             (if protected_entry (clusters ! cluster_index t key ! w) (tt_generation t) depth flag
              then first_worst_except (clusters ! cluster_index t key) (tt_generation t) w v
              else v = w) \<and>
             c' = (clusters ! cluster_index t key)
                    [v := write_entry key score best_move depth flag (tt_generation t)] \<and>
             filled = (e_key (clusters ! cluster_index t key ! v) = 0))))"
proof -
  let ?i = "cluster_index t key"
  let ?c = "clusters ! ?i"
  let ?r = "store_in_cluster ?c (tt_generation t) key score best_move depth flag"
  have idx: "?i < length clusters"
    using cluster_index_in_range [OF assms(3,4), of key] assms(2)
    by (simp add: cluster_index_def)
  have ok: "cluster_ok ?c" using assms(5) idx by simp
  have len: "length ?c = 4" using ok by (simp add: cluster_ok_def)
  have st: "tt_store_with_move (Some t) key score best_move depth flag =
         Inr (Some (t\<lparr> tt_clusters := Some (clusters[?i := fst ?r]),
                      tt_count := (if snd ?r then tt_count t + 1 else tt_count t) \<rparr>))"
    using tt_store_with_move_cluster [OF assms(1) idx] .
  have m: "\<forall>i<TT_CLUSTER_SIZE. e_key (?c ! i) = key \<and> (\<forall>j<i. e_key (?c ! j) \<noteq> key) \<longrightarrow>
          \<not> snd ?r \<and>
          fst ?r = (if depth \<ge> e_depth (?c ! i) \<or>
                   (flag = TT_FLAG_EXACT \<and> e_flag (?c ! i) \<noteq> TT_FLAG_EXACT)
                then ?c [i := write_entry key score
                          (if best_move = MOVE_NONE then e_best_move (?c ! i) else best_move)
                          depth flag (tt_generation t)]
                else ?c)"
  proof (intro allI impI)
    fix i assume i: "i < TT_CLUSTER_SIZE"
      and k: "e_key (?c ! i) = key \<and> (\<forall>j<i. e_key (?c ! j) \<noteq> key)"
    have il: "i < length ?c" using i len by simp
    show "\<not> snd ?r \<and>
          fst ?r = (if depth \<ge> e_depth (?c ! i) \<or>
                   (flag = TT_FLAG_EXACT \<and> e_flag (?c ! i) \<noteq> TT_FLAG_EXACT)
                then ?c [i := write_entry key score
                          (if best_move = MOVE_NONE then e_best_move (?c ! i) else best_move)
                          depth flag (tt_generation t)]
                else ?c)"
      using store_in_cluster_match [OF il, of key "tt_generation t" score best_move depth flag] k
      by (simp split: if_splits)
  qed
  have n: "(\<forall>e\<in>set ?c. e_key e \<noteq> key) \<longrightarrow>
          (\<exists>w v. first_worst ?c (tt_generation t) w \<and>
             (if protected_entry (?c ! w) (tt_generation t) depth flag
              then first_worst_except ?c (tt_generation t) w v else v = w) \<and>
             fst ?r = ?c [v := write_entry key score best_move depth flag (tt_generation t)] \<and>
             snd ?r = (e_key (?c ! v) = 0))"
  proof
    assume nm: "\<forall>e\<in>set ?c. e_key e \<noteq> key"
    from store_in_cluster_replace [OF ok assms(6,7) nm, of depth flag score best_move]
    obtain w v where "first_worst ?c (tt_generation t) w"
      "if protected_entry (?c ! w) (tt_generation t) depth flag
       then first_worst_except ?c (tt_generation t) w v else v = w"
      "?r = (?c [v := write_entry key score best_move depth flag (tt_generation t)],
             e_key (?c ! v) = 0)" by blast
    then show "\<exists>w v. first_worst ?c (tt_generation t) w \<and>
             (if protected_entry (?c ! w) (tt_generation t) depth flag
              then first_worst_except ?c (tt_generation t) w v else v = w) \<and>
             fst ?r = ?c [v := write_entry key score best_move depth flag (tt_generation t)] \<and>
             snd ?r = (e_key (?c ! v) = 0)"
      by (intro exI [of _ w] exI [of _ v]) simp
  qed
  show ?thesis
    using idx st m n by (intro conjI exI [of _ "fst ?r"] exI [of _ "snd ?r"]) blast+
qed

lemmas tt_eval =
  tt_store_with_move_def store_in_cluster_def choose_victim_def write_entry_def
  replacement_value_def cluster_index_def full_exact_table_def deep_exact_entry_def
  protected_entry_def cluster_ok_def entry_ok_def s16_def Let_def

theorem tt_store_with_move_policy_witness:
  "tt_clusters full_exact_table
      = Some [[deep_exact_entry 1, deep_exact_entry 2, deep_exact_entry 3, deep_exact_entry 4]]
   \<and> tt_num_clusters full_exact_table = 2 ^ 0
   \<and> cluster_index full_exact_table 3 = 0
   \<and> tt_store_with_move (Some full_exact_table) 3 40 MOVE_NONE 12 TT_FLAG_LOWER =
       Inr (Some (full_exact_table \<lparr> tt_clusters :=
          Some [[deep_exact_entry 1, deep_exact_entry 2,
                 \<lparr> e_key = 3, e_score = 40, e_best_move = 7, e_depth = 12,
                   e_flag = TT_FLAG_LOWER, e_generation = 1 \<rparr>,
                 deep_exact_entry 4]] \<rparr>))"
proof -
  let ?cl = "[[deep_exact_entry 1, deep_exact_entry 2, deep_exact_entry 3, deep_exact_entry 4]]"
  have h1: "tt_clusters full_exact_table = Some ?cl" by (simp add: full_exact_table_def)
  have h2: "length ?cl = unat (tt_num_clusters full_exact_table)"
    by (simp add: full_exact_table_def)
  have h3: "tt_num_clusters full_exact_table = 2 ^ 0" by (simp add: full_exact_table_def)
  have h4: "(0::nat) < 64" by simp
  have h5: "\<forall>c\<in>set ?cl. cluster_ok c"
    by (simp add: cluster_ok_def entry_ok_def deep_exact_entry_def)
  have h6: "0 \<le> tt_generation full_exact_table" "tt_generation full_exact_table \<le> 255"
    by (simp_all add: full_exact_table_def)
  have g: "tt_generation full_exact_table = 1" by (simp add: full_exact_table_def)
  have ci: "cluster_index full_exact_table 3 = 0"
    by (simp add: cluster_index_def full_exact_table_def)
  from tt_store_with_move_policy [OF h1 h2 h3 h4 h5 h6, of 3 40 MOVE_NONE 12 TT_FLAG_LOWER]
  obtain c' filled where
    st: "tt_store_with_move (Some full_exact_table) 3 40 MOVE_NONE 12 TT_FLAG_LOWER =
         Inr (Some (full_exact_table \<lparr> tt_clusters := Some (?cl[cluster_index full_exact_table 3 := c']),
                      tt_count := (if filled then tt_count full_exact_table + 1
                                   else tt_count full_exact_table) \<rparr>))"
    and m: "\<forall>i<TT_CLUSTER_SIZE.
          e_key (?cl ! cluster_index full_exact_table 3 ! i) = 3 \<and>
          (\<forall>j<i. e_key (?cl ! cluster_index full_exact_table 3 ! j) \<noteq> 3) \<longrightarrow>
          \<not> filled \<and>
          c' = (if 12 \<ge> e_depth (?cl ! cluster_index full_exact_table 3 ! i) \<or>
                   (TT_FLAG_LOWER = TT_FLAG_EXACT \<and>
                    e_flag (?cl ! cluster_index full_exact_table 3 ! i) \<noteq> TT_FLAG_EXACT)
                then (?cl ! cluster_index full_exact_table 3)
                       [i := write_entry 3 40
                          (if MOVE_NONE = MOVE_NONE
                           then e_best_move (?cl ! cluster_index full_exact_table 3 ! i)
                           else MOVE_NONE) 12 TT_FLAG_LOWER (tt_generation full_exact_table)]
                else ?cl ! cluster_index full_exact_table 3)"
    by blast
  have j: "\<forall>j<2. e_key (?cl ! 0 ! j) \<noteq> (3 :: 64 word)"
    by (simp add: deep_exact_entry_def less_Suc_eq numeral_2_eq_2)
  have p: "(2::nat) < TT_CLUSTER_SIZE" by simp
  have q: "e_key (?cl ! cluster_index full_exact_table 3 ! 2) = 3 \<and>
          (\<forall>j<2. e_key (?cl ! cluster_index full_exact_table 3 ! j) \<noteq> 3)"
    using j by (simp add: ci deep_exact_entry_def)
  from m [rule_format, OF p q] have "\<not> filled"
    "c' = [deep_exact_entry 1, deep_exact_entry 2,
                 \<lparr> e_key = 3, e_score = 40, e_best_move = 7, e_depth = 12,
                   e_flag = TT_FLAG_LOWER, e_generation = 1 \<rparr>,
                 deep_exact_entry 4]"
    by (simp_all add: ci g deep_exact_entry_def write_entry_def s16_def)
  with st h1 h3 ci show ?thesis by (simp add: full_exact_table_def)
qed

text \<open>
  The claim as stated fails where it says a protected entry is never evicted: in a cluster of
  four protected entries the first is spared and the second, itself exact, of the current
  generation and 9 plies deeper than the incoming lower-bound entry, is overwritten.
\<close>

theorem tt_store_with_move_evicts_protected_counterexample:
  "protected_entry (deep_exact_entry 2) (tt_generation full_exact_table) 1 TT_FLAG_LOWER
   \<and> tt_store_with_move (Some full_exact_table) 5 0 9 1 TT_FLAG_LOWER =
       Inr (Some (full_exact_table \<lparr> tt_clusters :=
          Some [[deep_exact_entry 1,
                 \<lparr> e_key = 5, e_score = 0, e_best_move = 9, e_depth = 1,
                   e_flag = TT_FLAG_LOWER, e_generation = 1 \<rparr>,
                 deep_exact_entry 3, deep_exact_entry 4]] \<rparr>))"
  by (simp add: tt_eval)

subsection \<open>Static exchange evaluation\<close>















text \<open>A move to an empty square that does not carry the special flag is scored 0.\<close>

lemma see_not_a_capture:
  "position_piece_at pos (MOVE_TO move) = - 1 \<Longrightarrow> \<not> MOVE_IS_SPECIAL move \<Longrightarrow> see pos move = Inr 0"
  by (simp add: see_def Let_def)

lemmas see_examples_eval =
  examples_eval knight_takes_pawn_position_def knight_takes_pawn_def
  en_passant_position_def pawn_takes_en_passant_def



text \<open>
  The en-passant capture that the generator produces carries the capture flag, not the special
  flag, so \<open>see\<close> takes it for a move that captures nothing.
\<close>

lemma see_generated_en_passant:
  "pawn_takes_en_passant \<in> set (movegen_captures en_passant_position)
   \<and> position_piece_at en_passant_position (MOVE_TO pawn_takes_en_passant) = - 1
   \<and> see en_passant_position pawn_takes_en_passant = Inr 0"
  by (simp add: see_examples_eval movegen_eval cong: eval_cong)


text \<open>
  C10 fails on the code. \<open>position_piece_at\<close> gives the black knight on d5 the code 7, and
  both \<open>see\<close> and \<open>score_capture\<close> subscript their seven-entry tables with it when the
  white knight takes it.
\<close>

theorem piece_value_index_out_of_bounds:
  "position_piece_at knight_takes_knight_position (MOVE_TO knight_takes_knight) = 7
   \<and> see knight_takes_knight_position knight_takes_knight = Inl IndexOutOfBounds
   \<and> score_capture knight_takes_knight_position knight_takes_knight = Inl IndexOutOfBounds"
  by (simp add: examples_eval cong: eval_cong)

subsection \<open>Apply and undo\<close>

lemma find_piece_range: "- 1 \<le> find_piece pos color sq \<and> find_piece pos color sq \<le> 5"
  by (simp add: find_piece_def piece_types_def)

lemma fullmove_remove [simp]: "pos_fullmove (position_remove_piece pos piece color sq) = pos_fullmove pos"
  by (simp add: position_remove_piece_def)
lemma fullmove_set [simp]: "pos_fullmove (position_set_piece pos piece color sq) = pos_fullmove pos"
  by (simp add: position_set_piece_def)
lemma fullmove_move [simp]: "pos_fullmove (position_move_piece pos piece color from to) = pos_fullmove pos"
  by (simp add: position_move_piece_def Let_def)
lemma to_move_remove [simp]: "pos_to_move (position_remove_piece pos piece color sq) = pos_to_move pos"
  by (simp add: position_remove_piece_def)
lemma to_move_set [simp]: "pos_to_move (position_set_piece pos piece color sq) = pos_to_move pos"
  by (simp add: position_set_piece_def)
lemma to_move_move [simp]: "pos_to_move (position_move_piece pos piece color from to) = pos_to_move pos"
  by (simp add: position_move_piece_def Let_def)

lemma handle_capture_fields:
  "handle_capture g enemy to (pos, undo) = (pos', undo') \<Longrightarrow>
     pos_fullmove pos' = pos_fullmove pos \<and> pos_to_move pos' = pos_to_move pos \<and>
     u_moving_piece undo' = u_moving_piece undo \<and>
     (u_captured undo' = u_captured undo \<or> (0 \<le> u_captured undo' \<and> u_captured undo' \<le> 5))"
proof -
  assume h: "handle_capture g enemy to (pos, undo) = (pos', undo')"
  show ?thesis
  proof (cases "find (\<lambda>piece. pieces pos enemy piece AND sq_bit to \<noteq> 0) piece_types")
    case None
    with h show ?thesis by (simp add: handle_capture_def)
  next
    case (Some piece)
    then have "piece \<in> set piece_types" by (auto simp: find_Some_iff)
    then have "piece \<le> 5" by (auto simp: piece_types_def)
    with h Some show ?thesis by (auto simp: handle_capture_def Let_def)
  qed
qed

lemma handle_enpassant_fields:
  "handle_enpassant g enemy mp from to (pos, undo) = (pos', undo') \<Longrightarrow>
     pos_fullmove pos' = pos_fullmove pos \<and> pos_to_move pos' = pos_to_move pos \<and>
     u_moving_piece undo' = u_moving_piece undo \<and>
     (u_captured undo' = u_captured undo \<or> u_captured undo' = 0)"
  by (auto simp: handle_enpassant_def Let_def split: if_splits)

lemma fullmove_move_the_piece [simp]:
  "pos_fullmove (move_the_piece g color mp move from to pos) = pos_fullmove pos"
  by (simp add: move_the_piece_def Let_def)
lemma to_move_move_the_piece [simp]:
  "pos_to_move (move_the_piece g color mp move from to pos) = pos_to_move pos"
  by (simp add: move_the_piece_def Let_def)
lemma fullmove_promotion [simp]:
  "pos_fullmove (handle_promotion g color promo to pos) = pos_fullmove pos"
  by (simp add: handle_promotion_def Let_def)
lemma fullmove_update_enpassant [simp]:
  "pos_fullmove (update_enpassant g mp from to pos) = pos_fullmove pos"
  by (simp add: update_enpassant_def Let_def)
lemma fullmove_update_counters [simp]:
  "pos_fullmove (update_counters color mp undo pos) =
     (if color = BLACK then s32 (pos_fullmove pos + 1) else pos_fullmove pos)"
  by (simp add: update_counters_def Let_def)
lemma fullmove_update_nnue [simp]:
  "pos_fullmove (update_nnue g color enemy mp move promo from to undo pos) = pos_fullmove pos"
  by (simp add: update_nnue_def Let_def)

lemma fullmove_restore_pieces [simp]:
  "pos_fullmove (restore_pieces pos move undo color from to promo) = pos_fullmove pos"
  by (simp add: restore_pieces_def Let_def)
lemma fullmove_restore_captured [simp]:
  "pos_fullmove (restore_captured pos undo color from to) = pos_fullmove pos"
  by (simp add: restore_captured_def)
lemma fullmove_sync [simp]: "pos_fullmove (sync_occupied pos) = pos_fullmove pos"
  by (simp add: sync_occupied_def Let_def)

lemma position_make_move_fullmove:
  assumes "0 \<le> find_piece pos (pos_to_move pos) (MOVE_FROM move)" "MOVE_PROMO move \<le> KING"
  shows "\<exists>pos' undo. position_make_move g pos move undo0 = Inr (pos', undo) \<and>
           pos_fullmove pos' = (if pos_to_move pos = BLACK then s32 (pos_fullmove pos + 1)
                                else pos_fullmove pos) \<and>
           0 \<le> u_moving_piece undo \<and> u_moving_piece undo \<le> 5 \<and> u_captured undo \<le> 5"
proof -
  let ?from = "MOVE_FROM move" and ?to = "MOVE_TO move" and ?color = "pos_to_move pos"
  let ?mp = "find_piece pos ?color ?from"
  let ?u2 = "(save_undo pos move undo0) \<lparr> u_moving_piece := ?mp \<rparr>"
  obtain pos1 undo3 where c: "handle_capture g (?color XOR 1) ?to (pos, ?u2) = (pos1, undo3)"
    by (cases "handle_capture g (?color XOR 1) ?to (pos, ?u2)") auto
  obtain pos2 undo4 where e: "handle_enpassant g (?color XOR 1) ?mp ?from ?to (pos1, undo3) = (pos2, undo4)"
    by (cases "handle_enpassant g (?color XOR 1) ?mp ?from ?to (pos1, undo3)") auto
  have u2: "u_captured ?u2 = - 1" "u_moving_piece ?u2 = ?mp" by (simp_all add: save_undo_def)
  from handle_capture_fields [OF c] u2 have c': "pos_fullmove pos1 = pos_fullmove pos"
    "u_moving_piece undo3 = ?mp" "u_captured undo3 \<le> 5" by auto
  from handle_enpassant_fields [OF e] c' have e': "pos_fullmove pos2 = pos_fullmove pos"
    "u_moving_piece undo4 = ?mp" "u_captured undo4 \<le> 5" by auto
  have mp: "?mp \<le> 5" using find_piece_range by simp
  show ?thesis using assms c e e' mp
    by (simp add: position_make_move_def Let_def)
qed

lemma position_unmake_move_fullmove:
  assumes "0 \<le> u_moving_piece undo" "u_moving_piece undo \<le> 5" "u_captured undo \<le> 5"
    "MOVE_PROMO move \<le> KING"
  shows "\<exists>pos'. position_unmake_move pos move undo = Inr pos' \<and> pos_fullmove pos' = pos_fullmove pos"
  using assms by (simp add: position_unmake_move_def Let_def)

lemma make_unmake_fullmove:
  assumes "0 \<le> find_piece pos (pos_to_move pos) (MOVE_FROM move)" "MOVE_PROMO move \<le> KING"
  shows "\<exists>pos'. make_unmake g pos move undo0 = Inr pos' \<and>
           pos_fullmove pos' = (if pos_to_move pos = BLACK then s32 (pos_fullmove pos + 1)
                                else pos_fullmove pos)"
proof -
  from position_make_move_fullmove [OF assms, of g undo0]
  obtain pos1 undo where m: "position_make_move g pos move undo0 = Inr (pos1, undo)"
    "pos_fullmove pos1 = (if pos_to_move pos = BLACK then s32 (pos_fullmove pos + 1)
                                else pos_fullmove pos)"
    "0 \<le> u_moving_piece undo" "u_moving_piece undo \<le> 5" "u_captured undo \<le> 5" by blast
  from position_unmake_move_fullmove [OF m(3,4,5) assms(2), of pos1]
  obtain pos' where "position_unmake_move pos1 move undo = Inr pos'" "pos_fullmove pos' = pos_fullmove pos1"
    by blast
  with m(1,2) show ?thesis by (simp add: make_unmake_def)
qed

text \<open>
  C1 fails on the code. \<open>position_make_move\<close> increments the full-move number after a move
  of Black, and neither the undo record nor \<open>position_unmake_move\<close> holds or restores it:
  after Black's e8-e7 is applied and undone, every field is as before except the full-move
  number, which is 2 instead of 1.
\<close>

theorem make_unmake_fullmove_not_restored:
  "make_unmake plain_globals bare_kings_position king_e8_e7 blank_undo
     = Inr (bare_kings_position \<lparr> pos_fullmove := 2 \<rparr>)
   \<and> pos_fullmove bare_kings_position = 1"
  by (simp add: examples_eval cong: eval_cong)

subsection \<open>Move picker\<close>

lemma shift_in_mset: "mset (shift_in key xs) = add_mset key (mset xs)"
  by (induction xs) auto

lemma shift_in_set: "set (shift_in key xs) = insert (key) (set xs)"
  by (induction xs) auto

lemma shift_in_sorted:
  "sorted_wrt (\<lambda>a b. sm_score a \<le> sm_score b) xs \<Longrightarrow>
     sorted_wrt (\<lambda>a b. sm_score a \<le> sm_score b) (shift_in key xs)"
  by (induction xs) (auto simp: shift_in_set)

lemma fold_shift_in_mset: "mset (fold shift_in ms acc) = mset ms + mset acc"
  by (induction ms arbitrary: acc) (auto simp: shift_in_mset)

lemma fold_shift_in_sorted:
  "sorted_wrt (\<lambda>a b. sm_score a \<le> sm_score b) acc \<Longrightarrow>
     sorted_wrt (\<lambda>a b. sm_score a \<le> sm_score b) (fold shift_in ms acc)"
  by (induction ms arbitrary: acc) (auto simp: shift_in_sorted)

lemma sort_moves_mset: "mset (sort_moves ms) = mset ms"
  by (simp add: sort_moves_def fold_shift_in_mset)

lemma sort_moves_sorted: "sorted_wrt (\<lambda>a b. sm_score a \<ge> sm_score b) (sort_moves ms)"
  using fold_shift_in_sorted [of "[]" ms] by (simp add: sort_moves_def sorted_wrt_rev)

lemma sort_moves_length: "length (sort_moves ms) = length ms"
  using sort_moves_mset [of ms] by (metis size_mset)

lemma score_quiet_quiets [simp]: "score_quiet (mp \<lparr> mp_quiets := qs \<rparr>) m = score_quiet mp m"
  by (simp add: score_quiet_def Let_def cong: if_cong option.case_cong)

lemma quiet_kept_quiets [simp]: "quiet_kept g (mp \<lparr> mp_quiets := qs \<rparr>) = quiet_kept g mp"
  by (simp add: quiet_kept_def fun_eq_iff)

lemma score_quiet_history:
  "score_quiet mp m = Inr s \<Longrightarrow> m \<noteq> mp_killer1 mp \<Longrightarrow> m \<noteq> mp_killer2 mp \<Longrightarrow>
     m \<noteq> mp_countermove mp \<Longrightarrow> s = history_entry mp m"
  by (auto simp: score_quiet_def history_entry_def Let_def split: option.splits if_splits)

lemma collect_quiets_result:
  "collect_quiets g mp ms = Inr mp' \<Longrightarrow>
     \<exists>qs. mp' = mp \<lparr> mp_quiets := mp_quiets mp @ qs \<rparr> \<and>
          map sm_move qs = filter (quiet_kept g mp) ms \<and>
          (\<forall>q\<in>set qs. sm_score q = history_entry mp (sm_move q))"
proof (induction ms arbitrary: mp)
  case Nil
  then show ?case by (intro exI [of _ "[]"]) simp
next
  case (Cons m ms)
  let ?skip = "m = mp_tt_move mp \<or> m = mp_killer1 mp \<or> m = mp_killer2 mp \<or>
         m = mp_countermove mp \<or> MOVE_IS_CAPTURE m"
  show ?case
  proof (cases ?skip)
    case True
    with Cons.prems have "collect_quiets g mp ms = Inr mp'" by auto
    from Cons.IH [OF this] obtain qs where qs: "mp' = mp \<lparr> mp_quiets := mp_quiets mp @ qs \<rparr>"
      "map sm_move qs = filter (quiet_kept g mp) ms"
      "\<forall>q\<in>set qs. sm_score q = history_entry mp (sm_move q)" by blast
    have "\<not> quiet_kept g mp m" using True by (auto simp: quiet_kept_def)
    with qs show ?thesis by (intro exI [of _ qs]) simp
  next
    case False
    from Cons.prems False obtain b where b: "movegen_is_legal g (mp_pos mp) m = Inr b"
      by (auto split: sum.splits)
    show ?thesis
    proof (cases b)
      case False
      with Cons.prems \<open>\<not> ?skip\<close> b have "collect_quiets g mp ms = Inr mp'" by auto
      from Cons.IH [OF this] obtain qs where qs: "mp' = mp \<lparr> mp_quiets := mp_quiets mp @ qs \<rparr>"
        "map sm_move qs = filter (quiet_kept g mp) ms"
        "\<forall>q\<in>set qs. sm_score q = history_entry mp (sm_move q)" by blast
      have "\<not> quiet_kept g mp m" using False b by (auto simp: quiet_kept_def)
      with qs show ?thesis by (intro exI [of _ qs]) simp
    next
      case True
      from Cons.prems \<open>\<not> ?skip\<close> b True obtain s where s: "score_quiet mp m = Inr s"
        by (auto split: sum.splits)
      let ?mp1 = "mp \<lparr> mp_quiets := mp_quiets mp @ [\<lparr> sm_move = m, sm_score = s \<rparr>] \<rparr>"
      from Cons.prems \<open>\<not> ?skip\<close> b True s have "collect_quiets g ?mp1 ms = Inr mp'" by auto
      from Cons.IH [OF this] obtain qs where qs: "mp' = ?mp1 \<lparr> mp_quiets := mp_quiets ?mp1 @ qs \<rparr>"
        "map sm_move qs = filter (quiet_kept g ?mp1) ms"
        "\<forall>q\<in>set qs. sm_score q = history_entry ?mp1 (sm_move q)" by blast
      have k: "quiet_kept g mp m" using \<open>\<not> ?skip\<close> b True by (auto simp: quiet_kept_def)
      have h: "s = history_entry mp m" using s \<open>\<not> ?skip\<close> by (intro score_quiet_history) auto
      have he: "history_entry ?mp1 = history_entry mp"
        by (auto simp: history_entry_def fun_eq_iff cong: option.case_cong)
      show ?thesis using qs k h he
        by (intro exI [of _ "\<lparr> sm_move = m, sm_score = s \<rparr> # qs"]) auto
    qed
  qed
qed

lemma generate_quiets_result:
  assumes "generate_quiets g mp = Inr mp'" and "mp_quiets mp = []"
  shows "\<exists>all_moves qs. movegen_all (mp_pos mp) = Inr all_moves \<and>
           mp' = mp \<lparr> mp_quiets := sort_moves qs, mp_stage := STAGE_QUIETS \<rparr> \<and>
           map sm_move qs = filter (quiet_kept g mp) all_moves \<and>
           (\<forall>q\<in>set qs. sm_score q = history_entry mp (sm_move q))"
proof -
  from assms(1) obtain all_moves mp1 where a: "movegen_all (mp_pos mp) = Inr all_moves"
    and c: "collect_quiets g mp all_moves = Inr mp1"
    and m: "mp' = mp1 \<lparr> mp_quiets := sort_moves (mp_quiets mp1), mp_stage := STAGE_QUIETS \<rparr>"
    by (auto simp: generate_quiets_def split: sum.splits)
  from collect_quiets_result [OF c] obtain qs where
    qs: "mp1 = mp \<lparr> mp_quiets := mp_quiets mp @ qs \<rparr>"
        "map sm_move qs = filter (quiet_kept g mp) all_moves"
        "\<forall>q\<in>set qs. sm_score q = history_entry mp (sm_move q)" by blast
  show ?thesis using a m qs assms(2) by (intro exI [of _ all_moves] exI [of _ qs]) simp
qed

text \<open>
  The quiet stage returns when the legality test of every generated move returns and every
  read of the history table is inside its 6 * 64 entries, which it is when the piece on the
  origin of every generated move has a code below 6, the codes of White's pieces.
\<close>

lemma MOVE_TO_range: "MOVE_TO m < 64"
proof -
  have "unat (drop_bit 6 m AND 63) \<le> unat (63 :: 32 word)"
    by (rule word_le_nat_alt [THEN iffD1]) (rule word_and_le1)
  then show ?thesis by (simp add: MOVE_TO_def)
qed

lemma score_quiet_returns:
  assumes "\<forall>history. mp_history mp = Some history \<longrightarrow>
             384 \<le> length history \<and> position_piece_at (mp_pos mp) (MOVE_FROM m) < 6"
  shows "\<exists>s. score_quiet mp m = Inr s"
proof (cases "mp_history mp")
  case None
  then show ?thesis by (simp add: score_quiet_def Let_def)
next
  case (Some history)
  with assms have l: "384 \<le> length history" and p: "position_piece_at (mp_pos mp) (MOVE_FROM m) < 6"
    by auto
  have "position_piece_at (mp_pos mp) (MOVE_FROM m) \<noteq> - 1 \<longrightarrow>
          nat (position_piece_at (mp_pos mp) (MOVE_FROM m) * 64 + int (MOVE_TO m)) < length history"
    using l p MOVE_TO_range [of m] by auto
  then show ?thesis using Some by (auto simp: score_quiet_def Let_def)
qed

lemma collect_quiets_returns:
  assumes "\<forall>m\<in>set ms. \<exists>b. movegen_is_legal g (mp_pos mp) m = Inr b"
    and "\<forall>history. mp_history mp = Some history \<longrightarrow>
           384 \<le> length history \<and> (\<forall>m\<in>set ms. position_piece_at (mp_pos mp) (MOVE_FROM m) < 6)"
  shows "\<exists>mp'. collect_quiets g mp ms = Inr mp'"
  using assms
proof (induction ms arbitrary: mp)
  case Nil
  show ?case by simp
next
  case (Cons m ms)
  from Cons.prems(1) obtain b where b: "movegen_is_legal g (mp_pos mp) m = Inr b" by auto
  have "\<exists>s. score_quiet mp m = Inr s"
    using Cons.prems(2) by (intro score_quiet_returns) auto
  then obtain s where s: "score_quiet mp m = Inr s" by blast
  have r: "\<exists>mp'. collect_quiets g (mp \<lparr> mp_quiets := qs \<rparr>) ms = Inr mp'" for qs
    using Cons.prems by (intro Cons.IH) auto
  have r0: "\<exists>mp'. collect_quiets g mp ms = Inr mp'"
    using Cons.prems by (intro Cons.IH) auto
  show ?case using b s r r0 by (cases b) auto
qed

lemmas quiets_eval =
  picker_run_rec bitboard_eval position_eval movegen_eval see_eval picker_eval
  corner_king_picker_def corner_king_position_def corner_king_history_def
  king_a1_b1_def king_a1_a2_def king_a1_b2_def

lemma corner_king_quiets:
  "generate_quiets plain_globals corner_king_picker =
     Inr (corner_king_picker
            \<lparr> mp_quiets := [\<lparr> sm_move = king_a1_b2, sm_score = 10 \<rparr>,
                            \<lparr> sm_move = king_a1_b1, sm_score = 0 \<rparr>,
                            \<lparr> sm_move = king_a1_a2, sm_score = 0 \<rparr>],
              mp_stage := STAGE_QUIETS \<rparr>)"
  by (simp add: quiets_eval cong: eval_cong)

text \<open>
  C9, as the code has it. The quiet-generation stage completes when the generator and the
  legality tests return and, if a history table is attached, the table has its 6 * 64 entries
  and every generated move starts from a square whose piece has a code 0..5 of
  \<open>position_piece_at\<close> (a white piece). Whenever the stage completes, the quiet moves it
  stores are the generated moves that are legal, carry no capture flag and are none of the TT
  move, the killers and the countermove; the score of each is its entry
  \<open>history[piece * 64 + to]\<close> of the history table alone (0 without a table or a piece) - the
  picker has no countermove-history, no follow-up history and no defensive bonus; the list is
  sorted by descending score, and the quiet stage emits it in that order. Left out are the
  moves of black pieces when a table is attached: their codes 6..11 put the read past the
  table.
\<close>

theorem quiets_sorted_by_history:
  assumes "mp_quiets mp = []"
  shows "(movegen_all (mp_pos mp) = Inr all_moves \<and>
          (\<forall>m\<in>set all_moves. \<exists>b. movegen_is_legal g (mp_pos mp) m = Inr b) \<and>
          (\<forall>history. mp_history mp = Some history \<longrightarrow>
             384 \<le> length history \<and>
             (\<forall>m\<in>set all_moves. position_piece_at (mp_pos mp) (MOVE_FROM m) < 6))
            \<longrightarrow> (\<exists>mp1. generate_quiets g mp = Inr mp1)) \<and>
         (generate_quiets g mp = Inr mp' \<longrightarrow>
            sorted_wrt (\<lambda>a b. sm_score a \<ge> sm_score b) (mp_quiets mp') \<and>
            (\<forall>q\<in>set (mp_quiets mp'). sm_score q = history_entry mp (sm_move q)) \<and>
            (\<exists>moves. movegen_all (mp_pos mp) = Inr moves \<and>
               mset (map sm_move (mp_quiets mp')) = mset (filter (quiet_kept g mp) moves)) \<and>
            (\<forall>i<length (mp_quiets mp').
               movepicker_next g (mp' \<lparr> mp_quiet_index := i \<rparr>)
                 = Inr (sm_move (mp_quiets mp' ! i), mp' \<lparr> mp_quiet_index := Suc i \<rparr>)))"
proof (intro conjI impI)
  assume h: "movegen_all (mp_pos mp) = Inr all_moves \<and>
          (\<forall>m\<in>set all_moves. \<exists>b. movegen_is_legal g (mp_pos mp) m = Inr b) \<and>
          (\<forall>history. mp_history mp = Some history \<longrightarrow>
             384 \<le> length history \<and>
             (\<forall>m\<in>set all_moves. position_piece_at (mp_pos mp) (MOVE_FROM m) < 6))"
  then obtain mp1 where "collect_quiets g mp all_moves = Inr mp1"
    using collect_quiets_returns [of all_moves g mp] by blast
  then show "\<exists>mp1. generate_quiets g mp = Inr mp1" using h by (simp add: generate_quiets_def)
next
  assume r: "generate_quiets g mp = Inr mp'"
  from generate_quiets_result [OF r assms] obtain moves qs where
    a: "movegen_all (mp_pos mp) = Inr moves"
    and m: "mp' = mp \<lparr> mp_quiets := sort_moves qs, mp_stage := STAGE_QUIETS \<rparr>"
    and f: "map sm_move qs = filter (quiet_kept g mp) moves"
    and h: "\<forall>q\<in>set qs. sm_score q = history_entry mp (sm_move q)" by blast
  have q: "mp_quiets mp' = sort_moves qs" and st: "mp_stage mp' = STAGE_QUIETS" using m by simp_all
  show "sorted_wrt (\<lambda>a b. sm_score a \<ge> sm_score b) (mp_quiets mp')"
    unfolding q by (rule sort_moves_sorted)
  have "set (sort_moves qs) = set qs" using sort_moves_mset [of qs] by (metis set_mset_mset)
  then show "\<forall>q\<in>set (mp_quiets mp'). sm_score q = history_entry mp (sm_move q)"
    unfolding q using h by simp
  have "mset (map sm_move (sort_moves qs)) = mset (map sm_move qs)"
    using sort_moves_mset [of qs] by (metis mset_map)
  then show "\<exists>moves. movegen_all (mp_pos mp) = Inr moves \<and>
            mset (map sm_move (mp_quiets mp')) = mset (filter (quiet_kept g mp) moves)"
    unfolding q using a f by simp
  show "\<forall>i<length (mp_quiets mp').
            movepicker_next g (mp' \<lparr> mp_quiet_index := i \<rparr>)
              = Inr (sm_move (mp_quiets mp' ! i), mp' \<lparr> mp_quiet_index := Suc i \<rparr>)"
    using st by (simp add: movepicker_next_def stage_quiets_def)
qed

theorem quiets_sorted_by_history_witness:
  "mp_quiets corner_king_picker = []
   \<and> pos_to_move (mp_pos corner_king_picker) = WHITE
   \<and> movegen_all (mp_pos corner_king_picker) = Inr [king_a1_b1, king_a1_a2, king_a1_b2]
   \<and> generate_quiets plain_globals corner_king_picker =
       Inr (corner_king_picker
              \<lparr> mp_quiets := [\<lparr> sm_move = king_a1_b2, sm_score = 10 \<rparr>,
                              \<lparr> sm_move = king_a1_b1, sm_score = 0 \<rparr>,
                              \<lparr> sm_move = king_a1_a2, sm_score = 0 \<rparr>],
                mp_stage := STAGE_QUIETS \<rparr>)
   \<and> history_entry corner_king_picker king_a1_b2 = 10
   \<and> movepicker_next plain_globals
        (corner_king_picker
              \<lparr> mp_quiets := [\<lparr> sm_move = king_a1_b2, sm_score = 10 \<rparr>,
                              \<lparr> sm_move = king_a1_b1, sm_score = 0 \<rparr>,
                              \<lparr> sm_move = king_a1_a2, sm_score = 0 \<rparr>],
                mp_stage := STAGE_QUIETS, mp_quiet_index := 0 \<rparr>)
       = Inr (king_a1_b2,
          corner_king_picker
              \<lparr> mp_quiets := [\<lparr> sm_move = king_a1_b2, sm_score = 10 \<rparr>,
                              \<lparr> sm_move = king_a1_b1, sm_score = 0 \<rparr>,
                              \<lparr> sm_move = king_a1_a2, sm_score = 0 \<rparr>],
                mp_stage := STAGE_QUIETS, mp_quiet_index := Suc 0 \<rparr>)"
proof -
  let ?mp' = "corner_king_picker
              \<lparr> mp_quiets := [\<lparr> sm_move = king_a1_b2, sm_score = 10 \<rparr>,
                              \<lparr> sm_move = king_a1_b1, sm_score = 0 \<rparr>,
                              \<lparr> sm_move = king_a1_a2, sm_score = 0 \<rparr>],
                mp_stage := STAGE_QUIETS \<rparr>"
  have e: "mp_quiets corner_king_picker = []"
    by (simp add: corner_king_picker_def movepicker_init_def)
  have w: "pos_to_move (mp_pos corner_king_picker) = WHITE"
    by (simp add: corner_king_picker_def movepicker_init_def corner_king_position_def)
  have a: "movegen_all (mp_pos corner_king_picker) = Inr [king_a1_b1, king_a1_a2, king_a1_b2]"
    by (simp add: quiets_eval cong: eval_cong)
  have l: "\<forall>m\<in>set [king_a1_b1, king_a1_a2, king_a1_b2].
             \<exists>b. movegen_is_legal plain_globals (mp_pos corner_king_picker) m = Inr b"
    by (simp add: quiets_eval cong: eval_cong) blast
  have h: "\<forall>history. mp_history corner_king_picker = Some history \<longrightarrow>
             384 \<le> length history \<and>
             (\<forall>m\<in>set [king_a1_b1, king_a1_a2, king_a1_b2].
                position_piece_at (mp_pos corner_king_picker) (MOVE_FROM m) < 6)"
    by (simp add: quiets_eval cong: eval_cong)
  from quiets_sorted_by_history [OF e, where g = plain_globals
         and all_moves = "[king_a1_b1, king_a1_a2, king_a1_b2]" and mp' = ?mp'] a l h
  have r: "\<exists>mp1. generate_quiets plain_globals corner_king_picker = Inr mp1"
    and s: "generate_quiets plain_globals corner_king_picker = Inr ?mp' \<longrightarrow>
            (\<forall>i<length (mp_quiets ?mp').
               movepicker_next plain_globals (?mp' \<lparr> mp_quiet_index := i \<rparr>)
                 = Inr (sm_move (mp_quiets ?mp' ! i), ?mp' \<lparr> mp_quiet_index := Suc i \<rparr>))"
    by blast+
  from s corner_king_quiets have "movepicker_next plain_globals (?mp' \<lparr> mp_quiet_index := 0 \<rparr>)
                 = Inr (sm_move (mp_quiets ?mp' ! 0), ?mp' \<lparr> mp_quiet_index := Suc 0 \<rparr>)"
    by simp
  then show ?thesis using e w a corner_king_quiets
    by (simp add: history_entry_def quiets_eval cong: eval_cong)
qed

text \<open>
  With Black to move and the table of 6 * 64 entries, the score of the first quiet move reads
  the table at 11 * 64 + 52, and the stage does not complete.
\<close>

lemma generate_quiets_black_out_of_bounds:
  "pos_to_move (mp_pos black_king_picker) = BLACK
   \<and> map_option length (mp_history black_king_picker) = Some 384
   \<and> position_piece_at bare_kings_position (MOVE_FROM king_e8_e7) = 11
   \<and> score_quiet black_king_picker king_e8_e7 = Inl IndexOutOfBounds
   \<and> generate_quiets plain_globals black_king_picker = Inl IndexOutOfBounds"
  by (simp add: quiets_eval black_king_picker_def bare_kings_position_def king_e8_e7_def
        cong: eval_cong)


text \<open>
  The claim as stated fails: the score stored for Ka1-b1 is its history entry 0 and the one for
  Ka1-b2 is 10, so b2 is emitted first. With a countermove-history score of 300 for Ka1-b1 the
  specification's score of b1 would be 100, above the 10 of b2, and b1 would come first.
\<close>

theorem quiets_ignore_countermove_history_counterexample:
  "generate_quiets plain_globals corner_king_picker =
     Inr (corner_king_picker
            \<lparr> mp_quiets := [\<lparr> sm_move = king_a1_b2, sm_score = 10 \<rparr>,
                            \<lparr> sm_move = king_a1_b1, sm_score = 0 \<rparr>,
                            \<lparr> sm_move = king_a1_a2, sm_score = 0 \<rparr>],
              mp_stage := STAGE_QUIETS \<rparr>)
   \<and> spec_quiet_score 0 300 0 0 = 100
   \<and> spec_quiet_score 10 0 0 0 = 10"
  by (simp add: quiets_eval spec_quiet_score_def signed_divide_int_def cong: eval_cong)

text \<open>
  C4 fails on the code. In the castling position the castling move is legal and generated, but
  \<open>movegen_is_pseudo_legal\<close> rejects it, since its target square holds the castling rook.
  With the castling move as TT move the first stage does not yield it, and the quiet stage
  skips it because it is the TT move: the picker runs to \<open>MOVE_NONE\<close> having yielded the seven
  other legal moves and never the castling move.
\<close>

theorem picker_drops_castling_tt_move:
  "movegen_is_legal plain_globals castling_position castle_kingside = Inr True
   \<and> movegen_all castling_position =
       Inr [MAKE_MOVE 7 5 0 FLAG_QUIET, MAKE_MOVE 7 6 0 FLAG_QUIET, MAKE_MOVE 4 3 0 FLAG_QUIET,
            MAKE_MOVE 4 5 0 FLAG_QUIET, MAKE_MOVE 4 11 0 FLAG_QUIET, MAKE_MOVE 4 12 0 FLAG_QUIET,
            MAKE_MOVE 4 13 0 FLAG_QUIET, castle_kingside]
   \<and> movegen_is_pseudo_legal castling_position castle_kingside = False
   \<and> picker_run plain_globals 30
        (movepicker_init castling_position castle_kingside MOVE_NONE MOVE_NONE MOVE_NONE None)
       = Inr ([MAKE_MOVE 7 5 0 FLAG_QUIET, MAKE_MOVE 7 6 0 FLAG_QUIET, MAKE_MOVE 4 3 0 FLAG_QUIET,
               MAKE_MOVE 4 5 0 FLAG_QUIET, MAKE_MOVE 4 11 0 FLAG_QUIET, MAKE_MOVE 4 12 0 FLAG_QUIET,
               MAKE_MOVE 4 13 0 FLAG_QUIET], True)"
  by (simp add: castling_eval cong: eval_cong)

subsection \<open>Quiescence: the stand-pat cutoff\<close>


text \<open>Without a table the probe leaves the window as it is.\<close>

lemma quiescence_probe_no_table:
  "ss_tt st = None \<Longrightarrow> quiescence_probe st pos alpha beta = Inr (Inr (alpha, beta, MOVE_NONE, st))"
  by (simp add: quiescence_probe_def tt_lookup_def)

text \<open>The probe only narrows the window.\<close>

lemma quiescence_probe_beta:
  assumes "quiescence_probe st pos alpha beta = Inr (Inr (alpha1, beta1, tt_move, st1))"
  shows "beta1 \<le> beta \<and> alpha \<le> alpha1"
  using assms
  by (auto simp add: quiescence_probe_def Let_def
           split: sum.splits prod.splits if_splits)

text \<open>
  C5, as the code has it: when the clock is not up and the table probe does not end the call,
  a static evaluation of at least \<open>\<beta>\<close> (the bound after the probe, which an upper-bound
  entry may have lowered) makes \<open>quiescence\<close> return that \<open>\<beta>\<close>, with any positive
  fuel; the static evaluation itself is not returned.
\<close>

theorem quiescence_stand_pat_returns_beta:
  assumes "\<not> cb_time_up env (ss_time_polls st)"
    and "quiescence_probe (count_qnode (snd (is_time_up env st))) pos alpha beta
           = Inr (Inr (alpha1, beta1, tt_move, st1))"
    and "cb_evaluate_position env pos \<ge> beta1"
  shows "quiescence (Suc n) env st pos alpha beta = Inr (beta1, st1, pos)"
  using assms by (simp add: is_time_up_def)

theorem quiescence_stand_pat_returns_beta_witness:
  "quiescence 1 steady_collaborators fresh_search_state bare_kings_position 0 50
     = Inr (50, count_qnode (snd (is_time_up steady_collaborators fresh_search_state)),
            bare_kings_position)"
proof -
  have h1: "\<not> cb_time_up steady_collaborators (ss_time_polls fresh_search_state)"
    by (simp add: steady_collaborators_def)
  have h2: "quiescence_probe (count_qnode (snd (is_time_up steady_collaborators fresh_search_state)))
              bare_kings_position 0 50
            = Inr (Inr (0, 50, MOVE_NONE,
                count_qnode (snd (is_time_up steady_collaborators fresh_search_state))))"
    by (rule quiescence_probe_no_table)
       (simp add: count_qnode_def is_time_up_def fresh_search_state_def Let_def)
  have h3: "cb_evaluate_position steady_collaborators bare_kings_position \<ge> 50"
    by (simp add: steady_collaborators_def)
  show ?thesis
    using quiescence_stand_pat_returns_beta [OF h1 h2 h3, of 0] by simp
qed

text \<open>
  The claim as stated fails: with a static evaluation of 100 and the window (0, 50) the call
  returns 50.
\<close>

theorem quiescence_stand_pat_counterexample:
  "50 \<le> cb_evaluate_position steady_collaborators bare_kings_position \<and>
   map_sum id fst (quiescence 1 steady_collaborators fresh_search_state bare_kings_position 0 50)
     = Inr 50 \<and>
   cb_evaluate_position steady_collaborators bare_kings_position \<noteq> 50"
  by (simp add: steady_collaborators_def is_time_up_def count_qnode_def fresh_search_state_def
        quiescence_probe_def tt_lookup_def Let_def)

subsection \<open>Singular extension: the excluded move\<close>

text \<open>
  When the block runs, the test search is the call of \<open>alpha_beta\<close> at the reduced depth
  with the null window below \<open>tt_score - 2 * depth\<close>, in a state whose
  \<open>excluded_move\<close> is the TT move; the field is reset after the call.
\<close>

lemma singular_extension_block_test_search:
  assumes "ss_ply st > 0" "depth \<ge> 8" "tt_move \<noteq> MOVE_NONE"
    "tt_flag = TT_FLAG_LOWER \<or> tt_flag = TT_FLAG_EXACT"
    "\<bar>tt_score\<bar> < SCORE_MATE - 1000" "ss_excluded_move st = MOVE_NONE"
  shows "singular_extension_block alpha_beta st pos depth tt_move tt_flag tt_score =
     (case alpha_beta (st \<lparr> ss_excluded_move := tt_move \<rparr>) pos (singular_depth depth)
             (s16 (s16 (tt_score - s32 (2 * depth)) - 1)) (s16 (tt_score - s32 (2 * depth))) of
        Inl e \<Rightarrow> Inl e
      | Inr (value, st2, pos2) \<Rightarrow>
          if value < s16 (tt_score - s32 (2 * depth)) then
            Inr (1, st2 \<lparr> ss_excluded_move := MOVE_NONE,
                          ss_stats := (ss_stats st2)
                            \<lparr> stat_singular_extensions :=
                                stat_singular_extensions (ss_stats st2) + 1 \<rparr> \<rparr>, pos2)
          else Inr (0, st2 \<lparr> ss_excluded_move := MOVE_NONE \<rparr>, pos2))"
  using assms
  by (simp add: singular_extension_block_def Let_def split: sum.splits prod.splits)

text \<open>
  Neither \<open>quiescence\<close> nor the head of the move loop reads \<open>excluded_move\<close>: setting
  the field before the call is the same as setting it in the outcome.
\<close>

lemma is_time_up_excluded:
  "is_time_up env (st \<lparr> ss_excluded_move := m \<rparr>) =
     (fst (is_time_up env st), (snd (is_time_up env st)) \<lparr> ss_excluded_move := m \<rparr>)"
  by (simp add: is_time_up_def)

lemma count_qnode_excluded:
  "count_qnode (st \<lparr> ss_excluded_move := m \<rparr>) = (count_qnode st) \<lparr> ss_excluded_move := m \<rparr>"
  by (simp add: count_qnode_def Let_def)

lemma quiescence_probe_excluded:
  "quiescence_probe (st \<lparr> ss_excluded_move := m \<rparr>) pos alpha beta =
     (case quiescence_probe st pos alpha beta of
        Inl e \<Rightarrow> Inl e
      | Inr (Inl (v, s)) \<Rightarrow> Inr (Inl (v, s \<lparr> ss_excluded_move := m \<rparr>))
      | Inr (Inr (a, b, t, s)) \<Rightarrow> Inr (Inr (a, b, t, s \<lparr> ss_excluded_move := m \<rparr>)))"
  by (simp add: quiescence_probe_def Let_def split: sum.splits prod.splits)

lemma quiescence_excluded_both:
  "(\<forall>st pos alpha beta.
      quiescence n env (st \<lparr> ss_excluded_move := m \<rparr>) pos alpha beta
        = result_with_excluded_move m (quiescence n env st pos alpha beta)) \<and>
   (\<forall>st pos mp alpha beta best.
      quiescence_moves n env (st \<lparr> ss_excluded_move := m \<rparr>) pos mp alpha beta best
        = result_with_excluded_move m (quiescence_moves n env st pos mp alpha beta best))"
proof (induction n)
  case 0
  show ?case by (simp add: result_with_excluded_move_def)
next
  case (Suc n)
  have q: "\<And>st pos alpha beta.
      quiescence n env (st \<lparr> ss_excluded_move := m \<rparr>) pos alpha beta
        = result_with_excluded_move m (quiescence n env st pos alpha beta)"
    using Suc by blast
  have qm: "\<And>st pos mp alpha beta best.
      quiescence_moves n env (st \<lparr> ss_excluded_move := m \<rparr>) pos mp alpha beta best
        = result_with_excluded_move m (quiescence_moves n env st pos mp alpha beta best)"
    using Suc by blast
  have a: "quiescence (Suc n) env (st \<lparr> ss_excluded_move := m \<rparr>) pos alpha beta
        = result_with_excluded_move m (quiescence (Suc n) env st pos alpha beta)"
    for st pos alpha beta
    by (auto simp add: is_time_up_excluded count_qnode_excluded quiescence_probe_excluded qm
          split_beta Let_def result_with_excluded_move_def split: sum.splits prod.splits)
  have b: "quiescence_moves (Suc n) env (st \<lparr> ss_excluded_move := m \<rparr>) pos mp alpha beta best
        = result_with_excluded_move m (quiescence_moves (Suc n) env st pos mp alpha beta best)"
    for st pos mp alpha beta best
    by (auto simp add: is_time_up_excluded q qm split_beta Let_def result_with_excluded_move_def
          split: sum.splits prod.splits)
  show ?case using a b by blast
qed

lemma quiescence_excluded:
  "quiescence n env (st \<lparr> ss_excluded_move := m \<rparr>) pos alpha beta
     = result_with_excluded_move m (quiescence n env st pos alpha beta)"
  using quiescence_excluded_both by blast

lemma loop_razoring_excluded:
  "loop_razoring fuel env (st \<lparr> ss_excluded_move := m \<rparr>) pos nl =
     (case loop_razoring fuel env st pos nl of
        Inl e \<Rightarrow> Inl e
      | Inr (Inl (v, s, p)) \<Rightarrow> Inr (Inl (v, s \<lparr> ss_excluded_move := m \<rparr>, p))
      | Inr (Inr (s, p)) \<Rightarrow> Inr (Inr (s \<lparr> ss_excluded_move := m \<rparr>, p)))"
  by (auto simp add: loop_razoring_def quiescence_excluded result_with_excluded_move_def
        split: sum.splits prod.splits)

lemma count_extension_excluded:
  "count_extension (st \<lparr> ss_excluded_move := m \<rparr>) = (count_extension st) \<lparr> ss_excluded_move := m \<rparr>"
  by (simp add: count_extension_def)

lemma singular_move_extension_excluded:
  "singular_move_extension (st \<lparr> ss_excluded_move := m \<rparr>) nl move =
     (fst (singular_move_extension st nl move),
      (snd (singular_move_extension st nl move)) \<lparr> ss_excluded_move := m \<rparr>)"
  by (simp add: singular_move_extension_def count_extension_excluded)

lemma recapture_extension_excluded:
  "recapture_extension (st \<lparr> ss_excluded_move := m \<rparr>) nl move extension =
     (case recapture_extension st nl move extension of
        Inl e \<Rightarrow> Inl e
      | Inr (extension2, s) \<Rightarrow> Inr (extension2, s \<lparr> ss_excluded_move := m \<rparr>))"
  by (simp add: recapture_extension_def count_extension_excluded Let_def)

lemma pawn_push_extension_excluded:
  "pawn_push_extension (st \<lparr> ss_excluded_move := m \<rparr>) pos move piece extension =
     (fst (pawn_push_extension st pos move piece extension),
      (snd (pawn_push_extension st pos move piece extension)) \<lparr> ss_excluded_move := m \<rparr>)"
  by (simp add: pawn_push_extension_def count_extension_excluded)

lemma move_extension_excluded:
  "move_extension (st \<lparr> ss_excluded_move := m \<rparr>) pos nl move piece =
     (case move_extension st pos nl move piece of
        Inl e \<Rightarrow> Inl e
      | Inr (extension, s) \<Rightarrow> Inr (extension, s \<lparr> ss_excluded_move := m \<rparr>))"
  by (simp add: move_extension_def singular_move_extension_excluded recapture_extension_excluded
        pawn_push_extension_excluded split_beta split: sum.splits prod.splits)

lemma move_loop_gate_ignores_excluded_move:
  "move_loop_gate fuel env (st \<lparr> ss_excluded_move := m \<rparr>) pos nl move
     = gate_with_excluded_move m (move_loop_gate fuel env st pos nl move)"
proof (cases "loop_razoring fuel env st pos nl")
  case (Inl e)
  then show ?thesis
    by (simp add: move_loop_gate_def Let_def loop_razoring_excluded gate_with_excluded_move_def)
next
  case r: (Inr r)
  show ?thesis
  proof (cases r)
    case (Inl ret)
    then show ?thesis
      using r
      by (simp add: move_loop_gate_def Let_def loop_razoring_excluded gate_with_excluded_move_def
            split: prod.splits)
  next
    case (Inr cont)
    obtain s p where cont: "cont = (s, p)" by (cases cont)
    show ?thesis
      using r Inr cont
      by (auto simp add: move_loop_gate_def Let_def loop_razoring_excluded
            move_extension_excluded gate_with_excluded_move_def
            split: sum.splits prod.splits bool.splits)
  qed
qed




end
